(* ===== verification/Prelude.thy ===== *)
theory Prelude
  imports Main "HOL-Library.Char_ord" "HOL-Library.List_Lexorder" "HOL-Library.Product_Lexorder"
begin

text \<open>
  The generic layer of the development: Python values, Python exceptions as values,
  the result type of code that may raise, and the list and string facts that several
  components use.  Nothing here is specific to one module of relq.

  Strings are HOL strings.  Python compares strings by code point; the order of
  \<open>Char_ord\<close> lifted by \<open>List_Lexorder\<close> is that comparison on the 8-bit range.
\<close>

section \<open>Exceptions and results\<close>

text \<open>
  A raised exception is its class, the literal text of its message, and the strings the
  message interpolates, in order.  An interpolated value that is not a string, a number or
  a list of names (the \<open>repr\<close> of a whole syntax tree, say) is left out.  \<open>External\<close> is an exception
  of code outside the repository (a driver, an observer, a callback of the caller), with the flag
  whether its class derives from \<open>Exception\<close>: a \<open>KeyboardInterrupt\<close> does not, and
  \<open>except Exception\<close> lets it pass.
\<close>

datatype exn =
    ValueError string "string list"
  | TypeError string "string list"
  | AssertionError string
  | IndexError string
  | OverflowError string
  | RuntimeError string "string list"
  | RowDecodingError "string list"
  | NoResultError
  | TransactionUnavailableError string
  | MigrationError string "string list"
  | CodegenError string "string list"
  | NotADirectoryError "string list"
  | External bool string

definition is_exception :: "exn \<Rightarrow> bool" where
  "is_exception e = (case e of External derived _ \<Rightarrow> derived | _ \<Rightarrow> True)"

type_synonym 'a result = "exn + 'a"

named_theorems py_eval \<open>equations that run the model on a concrete input\<close>
named_theorems ok_iff \<open>when a computation of the model returns without raising\<close>

definition raise_if :: "bool \<Rightarrow> exn \<Rightarrow> unit result" where
  "raise_if c e = (if c then Inl e else Inr ())"

text \<open>A sequence of checks: the first one that raises ends the sequence.\<close>

fun checks :: "unit result list \<Rightarrow> unit result" where
  "checks [] = Inr ()"
| "checks (c # cs) = (case c of Inl e \<Rightarrow> Inl e | Inr _ \<Rightarrow> checks cs)"

text \<open>Sequencing of a computation with a result.\<close>

definition and_then :: "'a result \<Rightarrow> ('a \<Rightarrow> 'b result) \<Rightarrow> 'b result" where
  "and_then m f = (case m of Inl e \<Rightarrow> Inl e | Inr x \<Rightarrow> f x)"

fun map_results :: "('a \<Rightarrow> 'b result) \<Rightarrow> 'a list \<Rightarrow> 'b list result" where
  "map_results f [] = Inr []"
| "map_results f (x # xs) =
     and_then (f x) (\<lambda>y. and_then (map_results f xs) (\<lambda>ys. Inr (y # ys)))"

definition succeeds :: "'a result \<Rightarrow> bool" where
  "succeeds r = (case r of Inl _ \<Rightarrow> False | Inr _ \<Rightarrow> True)"

lemma raise_if_ok [ok_iff, simp]: "raise_if c e = Inr u \<longleftrightarrow> \<not> c"
  by (simp add: raise_if_def)

lemma raise_if_simps [simp]: "raise_if True e = Inl e" "raise_if False e = Inr ()"
  by (simp_all add: raise_if_def)

lemma raise_if_Inl: "raise_if c e = Inl e' \<longleftrightarrow> c \<and> e' = e"
  by (auto simp: raise_if_def)

lemma checks_ok [ok_iff]: "checks cs = Inr u \<longleftrightarrow> (\<forall>c \<in> set cs. c = Inr ())"
  by (induction cs) (auto split: sum.splits)

declare checks.simps(2) [simp del]

declare checks_ok [py_eval]

lemma checks_Inl_mem: "checks cs = Inl e \<Longrightarrow> Inl e \<in> set cs"
  by (induction cs) (auto simp: checks.simps split: sum.splits)

lemma checks_append:
  "checks (xs @ ys) = (case checks xs of Inl e \<Rightarrow> Inl e | Inr _ \<Rightarrow> checks ys)"
  by (induction xs) (auto simp: checks.simps split: sum.splits)

lemma and_then_simps [simp]: "and_then (Inl e) f = Inl e" "and_then (Inr x) f = f x"
  by (simp_all add: and_then_def)

lemma and_then_ok [ok_iff]: "and_then m f = Inr y \<longleftrightarrow> (\<exists>x. m = Inr x \<and> f x = Inr y)"
  by (cases m) auto

lemma and_then_Inl: "and_then m f = Inl e \<longleftrightarrow> m = Inl e \<or> (\<exists>x. m = Inr x \<and> f x = Inl e)"
  by (cases m) auto

lemma and_then_cong [fundef_cong]:
  "m = m' \<Longrightarrow> (\<And>x. m' = Inr x \<Longrightarrow> f x = g x) \<Longrightarrow> and_then m f = and_then m' g"
  by (cases m') auto

lemma map_results_cong [fundef_cong]:
  "xs = ys \<Longrightarrow> (\<And>x. x \<in> set ys \<Longrightarrow> f x = g x) \<Longrightarrow> map_results f xs = map_results g ys"
  by (induction ys arbitrary: xs) auto

lemma map_results_ok [ok_iff]:
  "map_results f xs = Inr ys \<longleftrightarrow> list_all2 (\<lambda>x y. f x = Inr y) xs ys"
  by (induction xs arbitrary: ys) (auto simp: and_then_ok list_all2_Cons1)

lemma succeeds_simps [simp]: "succeeds (Inl e) = False" "succeeds (Inr x) = True"
  by (simp_all add: succeeds_def)

lemma succeeds_iff: "succeeds r \<longleftrightarrow> (\<exists>x. r = Inr x)"
  by (cases r) auto

section \<open>Python values\<close>

text \<open>
  The objects a \<open>ValueNode\<close> can carry, as far as the code looks at them: \<open>None\<close>, booleans,
  integers, strings, \<open>relq.rows.Interval\<close>, lists (the one built-in parameter type that is not
  hashable), and every other immutable object (a date, a Decimal, a UUID), which the code only
  stores, compares and binds; \<open>PyObject k\<close> is such an object, \<open>k\<close> its equality class.
\<close>

datatype py_value =
    PyNone
  | PyBool bool
  | PyInt int
  | PyStr string
  | PyInterval int int int
  | PyList "py_value list"
  | PyObject nat

text \<open>Python equality identifies \<open>True\<close> with 1 and \<open>False\<close> with 0, also inside lists.\<close>

fun py_canon :: "py_value \<Rightarrow> py_value" where
  "py_canon (PyBool b) = PyInt (if b then 1 else 0)"
| "py_canon (PyList vs) = PyList (map py_canon vs)"
| "py_canon v = v"

definition py_eq :: "py_value \<Rightarrow> py_value \<Rightarrow> bool" where
  "py_eq a b = (py_canon a = py_canon b)"

fun py_hashable :: "py_value \<Rightarrow> bool" where
  "py_hashable (PyList vs) = False"
| "py_hashable v = True"

section \<open>Strings and lists\<close>

text \<open>An element of a list is smaller than the list, for any measure of the elements.\<close>

lemma elem_lt_size_list: "x \<in> set xs \<Longrightarrow> f x < size_list f xs"
  by (induction xs) auto

lemma elem_lt_size_list_fst: "(a, b) \<in> set xs \<Longrightarrow> f a < size_list (size_prod f g) xs"
  by (induction xs) auto

lemma elem_lt_size_list_snd: "(a, b) \<in> set xs \<Longrightarrow> g b < size_list (size_prod f g) xs"
  by (induction xs) auto

lemma snd_lt_size_list: "x \<in> set xs \<Longrightarrow> g (snd x) < size_list (size_prod f g) xs"
  by (induction xs) auto

lemmas size_list_elem = elem_lt_size_list elem_lt_size_list_fst elem_lt_size_list_snd
  snd_lt_size_list

text \<open>Python's \<open>sep.join(parts)\<close> and \<open>text.replace(c, by)\<close> for a one-character pattern.\<close>

fun join_with :: "string \<Rightarrow> string list \<Rightarrow> string" where
  "join_with sep [] = ''''"
| "join_with sep [x] = x"
| "join_with sep (x # y # zs) = x @ sep @ join_with sep (y # zs)"

definition replace_char :: "char \<Rightarrow> string \<Rightarrow> string \<Rightarrow> string" where
  "replace_char c by s = concat (map (\<lambda>x. if x = c then by else [x]) s)"

lemma replace_char_simps [simp]:
  "replace_char c by [] = []"
  "replace_char c by (x # s) = (if x = c then by else [x]) @ replace_char c by s"
  by (simp_all add: replace_char_def)

text \<open>Decimal digits of an integer, as Python's \<open>str\<close> prints them.\<close>

fun nat_digits :: "nat \<Rightarrow> string" where
  "nat_digits n = (if n < 10 then [char_of (48 + n)] else nat_digits (n div 10) @ [char_of (48 + n mod 10)])"

declare nat_digits.simps [simp del]

definition str_of_nat :: "nat \<Rightarrow> string" where
  "str_of_nat n = nat_digits n"

definition str_of_int :: "int \<Rightarrow> string" where
  "str_of_int i = (if i < 0 then ''-'' @ nat_digits (nat (- i)) else nat_digits (nat i))"

text \<open>\<open>sorted(names)\<close> for a set of strings.\<close>

definition sorted_names :: "string set \<Rightarrow> string list" where
  "sorted_names A = sorted_list_of_set A"

text \<open>\<open>x is not None\<close> filtering of optional parts, as \<open>_present\<close> does.\<close>

definition present :: "'a option list \<Rightarrow> 'a list" where
  "present xs = List.map_filter id xs"

lemma present_simps [simp]:
  "present [] = []" "present (None # xs) = present xs" "present (Some x # xs) = x # present xs"
  by (simp_all add: present_def map_filter_simps)

lemma set_present [simp]: "set (present xs) = {x. Some x \<in> set xs}"
  by (induction xs) (auto split: option.splits simp: present_def map_filter_simps)

lemma present_append [simp]: "present (xs @ ys) = present xs @ present ys"
  by (induction xs) (simp_all add: present_def map_filter_simps split: option.splits)

lemma present_map_Some [simp]: "present (map Some xs) = xs"
  by (induction xs) simp_all

end
