(* ===== verification/Dialect.thy ===== *)
theory Dialect
  imports Prelude
begin

text \<open>
  \<open>relq/_compiler/_model.py\<close> and the two fixed dialects of \<open>relq/_compiler/api.py\<close>, with the closed
  temporal vocabulary of \<open>relq/_temporal.py\<close> that validation checks against.
\<close>

record dialect =
  dialect_name :: string
  placeholder :: string
  supports_returning :: bool
  supports_row_locking :: bool
  supports_temporal_arithmetic :: bool
  supports_conflict_predicates :: bool
  max_parameters :: "nat option"
  supports_schema_qualified_tables :: bool
  supports_data_modifying_ctes :: bool
  supports_postgres_expressions :: bool
  offset_requires_limit :: bool

text \<open>\<open>Dialect(name, placeholder)\<close> with the constructor's defaults.\<close>

definition new_dialect :: "string \<Rightarrow> string \<Rightarrow> dialect" where
  "new_dialect name mark = \<lparr>dialect_name = name, placeholder = mark, supports_returning = True,
     supports_row_locking = False, supports_temporal_arithmetic = False,
     supports_conflict_predicates = False, max_parameters = None,
     supports_schema_qualified_tables = False, supports_data_modifying_ctes = False,
     supports_postgres_expressions = False, offset_requires_limit = False\<rparr>"

definition sqlite_max_parameters :: nat where "sqlite_max_parameters = 999"

definition postgres_max_parameters :: nat where "postgres_max_parameters = 32767"

definition sqlite :: dialect where
  "sqlite = (new_dialect ''sqlite'' ''?'')
     \<lparr>max_parameters := Some sqlite_max_parameters, offset_requires_limit := True\<rparr>"

definition postgres :: dialect where
  "postgres = (new_dialect ''postgres'' ''$'')
     \<lparr>supports_row_locking := True, supports_temporal_arithmetic := True,
      supports_conflict_predicates := True, max_parameters := Some postgres_max_parameters,
      supports_schema_qualified_tables := True, supports_data_modifying_ctes := True,
      supports_postgres_expressions := True\<rparr>"

lemmas dialect_defs [py_eval] = new_dialect_def sqlite_def postgres_def sqlite_max_parameters_def
  postgres_max_parameters_def

record compiled_query =
  sql :: string
  parameters :: "py_value list"

definition extract_field_values :: "string list" where
  "extract_field_values =
     [''century'', ''day'', ''decade'', ''dow'', ''doy'', ''epoch'', ''hour'', ''isodow'', ''isoyear'',
      ''julian'', ''microseconds'', ''millennium'', ''milliseconds'', ''minute'', ''month'', ''quarter'',
      ''second'', ''timezone'', ''timezone_hour'', ''timezone_minute'', ''week'', ''year'']"

definition trunc_unit_values :: "string list" where
  "trunc_unit_values =
     [''microseconds'', ''milliseconds'', ''second'', ''minute'', ''hour'', ''day'', ''week'', ''month'',
      ''quarter'', ''year'', ''decade'', ''century'', ''millennium'']"

end
