(* ===== verification/Ast.thy ===== *)
theory Ast
  imports Prelude
begin

text \<open>
  The private SQL syntax tree of \<open>relq/_ast.py\<close>.  Each frozen dataclass is a constructor with
  the source's fields in the source's order.  The Python unions are the datatypes: \<open>Node\<close> is
  \<open>node\<close> (its nineteen temporal variants, which validation treats as one group, are the
  constructors of \<open>temporal_node\<close>), \<open>SelectNode\<close> is \<open>select_node\<close>, \<open>QueryNode\<close> is \<open>query_node\<close>.
  The dataclasses that only carry nodes (orders, joins, CTEs, DML statements) are datatypes over
  the type of the nodes and of the SELECTs they carry, so that the one mutual recursion is the one
  between expressions and SELECT statements.  The trees are over the type \<open>'v\<close> of the values
  a \<open>ValueNode\<close> holds; the code uses them at \<open>py_value\<close>.
\<close>

section \<open>Sources, orders and window frames\<close>

datatype table_source =
  TableSourceNode (table_name: string) (table_alias: "string option") (table_schema: "string option")

text \<open>
  Python's \<open>self.alias or self.name\<close>: an absent alias and an empty one both fall back to the name.
\<close>

definition table_reference :: "table_source \<Rightarrow> string" where
  "table_reference t = (case table_alias t of
       None \<Rightarrow> table_name t
     | Some a \<Rightarrow> if a = '''' then table_name t else a)"

declare table_reference_def [py_eval]

datatype 's source_node =
    TableSource table_source
  | DerivedSourceNode 's string
  | CteSourceNode string

fun reference :: "'s source_node \<Rightarrow> string" where
  "reference (TableSource t) = table_reference t"
| "reference (DerivedSourceNode q alias) = alias"
| "reference (CteSourceNode name) = name"

datatype frame_boundary =
  FrameBoundaryNode (boundary_kind: string) (boundary_amount: "int option")

datatype window_frame =
  WindowFrameNode (frame_kind: string) (frame_start: frame_boundary) (frame_end: frame_boundary)

datatype 'n order_node =
  OrderNode (order_expression: 'n) (order_direction: string) (order_nulls: "string option")

datatype ('n, 's) join_node =
  JoinNode (join_source: "'s source_node") (join_predicate: 'n) (join_kind: string)

datatype 's compound_node =
  CompoundNode (compound_operator: string) (compound_query: 's)

datatype lock_clause =
  LockClauseNode (lock_strength: string) (lock_of: "table_source list") (lock_wait: "string option")

section \<open>Statements that modify data\<close>

datatype ('n, 's) insert_source =
    InsertValuesSourceNode "(string \<times> 'n) list"
  | InsertRowsSourceNode "(string \<times> 'n) list list"
  | InsertSelectSourceNode 's "string list"
  | DefaultValuesSourceNode

datatype 'n conflict_node =
  ConflictNode (conflict_columns: "string list") (conflict_action: string)
    (conflict_update_values: "(string \<times> 'n) list") (conflict_target_where: "'n option")
    (conflict_update_where: "'n option")

datatype ('n, 's) insert_node =
  InsertNode (insert_table: table_source) (insert_source: "('n, 's) insert_source option")
    (insert_conflict: "'n conflict_node option") (insert_returning: "'n list")

datatype 'n update_node =
  UpdateNode (update_table: table_source) (update_values: "(string \<times> 'n) list")
    (update_where: "'n option") (update_bounded: bool) (update_returning: "'n list")

datatype 'n delete_node =
  DeleteNode (delete_table: table_source) (delete_where: "'n option") (delete_bounded: bool)
    (delete_returning: "'n list")

datatype ('n, 's) dml_node =
    InsertDml "('n, 's) insert_node"
  | UpdateDml "'n update_node"
  | DeleteDml "'n delete_node"

datatype ('n, 's) query_node =
    SelectQ 's
  | DmlQ "('n, 's) dml_node"

datatype ('n, 's) cte_node =
  CteNode (cte_name: string) (cte_query: "('n, 's) query_node") (cte_recursive: bool)
    (cte_materialized: bool)

section \<open>Expressions and SELECT statements\<close>

datatype 'n temporal_node =
    TemporalClockNode string
  | TemporalMakeDateNode 'n 'n 'n
  | TemporalMakeTimeNode 'n 'n 'n
  | TemporalMakeTimestampNode 'n 'n 'n 'n 'n 'n
  | TemporalMakeTimestamptzNode 'n 'n 'n 'n 'n 'n "'n option"
  | TemporalMakeIntervalNode "(string \<times> 'n) list"
  | TemporalEpochNode 'n
  | TemporalArithmeticNode 'n string 'n
  | TemporalDifferenceNode 'n 'n
  | TemporalIntervalUnaryNode 'n
  | TemporalIntervalScaleNode 'n string 'n
  | TemporalTimezoneNode 'n 'n
  | TemporalExtractNode string 'n
  | TemporalTruncNode string 'n
  | TemporalTruncTimestamptzNode string 'n 'n
  | TemporalBinNode 'n 'n 'n
  | TemporalAgeNode 'n 'n
  | TemporalOverlapsNode 'n 'n 'n 'n
  | TemporalJustifyNode string 'n

text \<open>The \<open>values\<close> of an \<open>InNode\<close>: a tuple of nodes or a subquery.\<close>

datatype ('n, 's) in_values = InList "'n list" | InSelect 's

datatype (plugins only: code size) 'v node =
    ColumnNode string string
  | ValueNode 'v
  | TemporalNode "'v node temporal_node"
  | BinaryNode "'v node" string "'v node"
  | UnaryNode string "'v node"
  | FunctionNode string "'v node list"
  | CaseNode "('v node \<times> 'v node) list" "'v node"
  | AggregateNode string "'v node list" "'v node option"
  | WindowNode "'v node" "'v node list" "'v node order_node list" "window_frame option" "string option"
  | AliasNode "'v node" string
  | NullableResultNode "'v node"
  | StarNode
  | InNode "'v node" "('v node, 'v select_node) in_values" bool
  | BetweenNode "'v node" "'v node" "'v node" bool
  | ScalarSubqueryNode "'v select_node"
  | ExistsNode "'v select_node" bool
  | ExcludedNode string string
  | JsonTextNode "'v node" "'v node"
  | RegexMatchNode "'v node" "'v node" bool
  | UuidCastNode "'v node"
and 'v select_node =
    SelectNode
      (selections: "'v node list")
      (from_source: "'v select_node source_node option")
      (joins: "('v node, 'v select_node) join_node list")
      (where_node: "'v node option")
      (group_by: "'v node list")
      (having_node: "'v node option")
      (order_by: "'v node order_node list")
      (limit_count: "int option")
      (offset_count: "int option")
      (is_distinct: bool)
      (ctes: "('v node, 'v select_node) cte_node list")
      (compounds: "'v select_node compound_node list")
      (locks: "lock_clause list")

type_synonym 'v source = "'v select_node source_node"
type_synonym 'v order = "'v node order_node"
type_synonym 'v join = "('v node, 'v select_node) join_node"
type_synonym 'v cte = "('v node, 'v select_node) cte_node"
type_synonym 'v compound = "'v select_node compound_node"
type_synonym 'v insert_src = "('v node, 'v select_node) insert_source"
type_synonym 'v insert = "('v node, 'v select_node) insert_node"
type_synonym 'v update = "'v node update_node"
type_synonym 'v delete = "'v node delete_node"
type_synonym 'v dml = "('v node, 'v select_node) dml_node"
type_synonym 'v query = "('v node, 'v select_node) query_node"

text \<open>\<open>SelectNode(selections)\<close> with the dataclass defaults of every other field.\<close>

definition new_select :: "'v node list \<Rightarrow> 'v select_node" where
  "new_select nodes = SelectNode nodes None [] None [] None [] None None False [] [] []"

lemma new_select_sel [simp]:
  "selections (new_select nodes) = nodes" "from_source (new_select nodes) = None"
  "joins (new_select nodes) = []" "where_node (new_select nodes) = None"
  "group_by (new_select nodes) = []" "having_node (new_select nodes) = None"
  "order_by (new_select nodes) = []" "limit_count (new_select nodes) = None"
  "offset_count (new_select nodes) = None" "is_distinct (new_select nodes) = False"
  "ctes (new_select nodes) = []" "compounds (new_select nodes) = []" "locks (new_select nodes) = []"
  by (simp_all add: new_select_def)

end
