(* ===== verification/Walk.thy ===== *)
theory Walk
  imports Ast
begin

text \<open>
  \<open>relq/_analysis/walk.py\<close>: the direct \<open>Node\<close> children of every variant and the depth-first walk
  built on them, with \<open>relq/_analysis/sources.py\<close>, which reads the local sources off the walk.
  The laws a client of the walk relies on are the locale \<open>walker\<close>, interpreted at the end on the
  model's \<open>children\<close> and \<open>walk\<close>.
\<close>

section \<open>Children\<close>

fun temporal_children :: "'v node temporal_node \<Rightarrow> 'v node list" where
  "temporal_children (TemporalClockNode kind) = []"
| "temporal_children (TemporalMakeDateNode year month day) = [year, month, day]"
| "temporal_children (TemporalMakeTimeNode hour minute second) = [hour, minute, second]"
| "temporal_children (TemporalMakeTimestampNode year month day hour minute second) =
     [year, month, day, hour, minute, second]"
| "temporal_children (TemporalMakeTimestamptzNode year month day hour minute second zone) =
     [year, month, day, hour, minute, second] @ (case zone of None \<Rightarrow> [] | Some z \<Rightarrow> [z])"
| "temporal_children (TemporalMakeIntervalNode components) = map snd components"
| "temporal_children (TemporalEpochNode seconds) = [seconds]"
| "temporal_children (TemporalArithmeticNode timestamp operator interval) = [timestamp, interval]"
| "temporal_children (TemporalDifferenceNode left right) = [left, right]"
| "temporal_children (TemporalIntervalUnaryNode interval) = [interval]"
| "temporal_children (TemporalIntervalScaleNode interval operator factor) = [interval, factor]"
| "temporal_children (TemporalTimezoneNode expression zone) = [expression, zone]"
| "temporal_children (TemporalExtractNode field expression) = [expression]"
| "temporal_children (TemporalTruncNode unit_name expression) = [expression]"
| "temporal_children (TemporalTruncTimestamptzNode unit_name expression zone) = [expression, zone]"
| "temporal_children (TemporalBinNode stride expression origin) = [stride, expression, origin]"
| "temporal_children (TemporalAgeNode left right) = [left, right]"
| "temporal_children (TemporalOverlapsNode left_start left_end right_start right_end) =
     [left_start, left_end, right_start, right_end]"
| "temporal_children (TemporalJustifyNode kind interval) = [interval]"

fun children :: "'v node \<Rightarrow> 'v node list" where
  "children (ColumnNode source name) = []"
| "children (ValueNode v) = []"
| "children StarNode = []"
| "children (ExcludedNode source name) = []"
| "children (ScalarSubqueryNode q) = []"
| "children (ExistsNode q negated) = []"
| "children (BinaryNode left operator right) = [left, right]"
| "children (TemporalNode t) = temporal_children t"
| "children (UnaryNode operator operand) = [operand]"
| "children (AliasNode operand alias) = [operand]"
| "children (NullableResultNode operand) = [operand]"
| "children (UuidCastNode operand) = [operand]"
| "children (FunctionNode name arguments) = arguments"
| "children (CaseNode branches otherwise) =
     concat (map (\<lambda>(condition, value). [condition, value]) branches) @ [otherwise]"
| "children (AggregateNode name arguments filter_node) =
     arguments @ (case filter_node of None \<Rightarrow> [] | Some f \<Rightarrow> [f])"
| "children (WindowNode expression partition_by orders frame exclusion) =
     expression # partition_by @ map order_expression orders"
| "children (InNode expression values negated) =
     expression # (case values of InSelect q \<Rightarrow> [] | InList vs \<Rightarrow> vs)"
| "children (BetweenNode expression lower upper negated) = [expression, lower, upper]"
| "children (JsonTextNode value key) = [value, key]"
| "children (RegexMatchNode value pattern insensitive) = [value, pattern]"

lemma size_order_expression: "size (order_expression ord) < size_order_node size ord"
  by (cases ord) simp

lemma size_order_list:
  "ord \<in> set orders \<Longrightarrow> size (order_expression ord) < size_list (size_order_node size) orders"
  using elem_lt_size_list [of ord orders "size_order_node size"] size_order_expression [of ord]
  by simp

lemma size_temporal_children:
  "c \<in> set (temporal_children t) \<Longrightarrow> size c \<le> size_temporal_node size t"
  by (cases t) (auto split: option.splits dest: snd_lt_size_list [where f = "\<lambda>_. 0" and g = size])

lemmas size_node_list = size_order_list elem_lt_size_list [where f = size]
  elem_lt_size_list_fst [where f = size and g = size]
  elem_lt_size_list_snd [where f = size and g = size]

lemma children_smaller: "c \<in> set (children n) \<Longrightarrow> size c < size n"
proof (cases n)
  case (TemporalNode t)
  then show "c \<in> set (children n) \<Longrightarrow> size c < size n"
    using size_temporal_children [of c t] by simp
qed (auto split: option.splits in_values.splits dest: size_node_list)

section \<open>The walk\<close>

function walk :: "'v node \<Rightarrow> 'v node list" where
  "walk n = n # concat (map walk (children n))"
  by pat_completeness auto
termination
  by (relation "measure size") (simp_all add: children_smaller)

declare walk.simps [simp del]

text \<open>
  What a client of a depth-first walk relies on: the equation of the walk, and a measure that every
  child decreases.  Everything else the analyses use follows from these two laws.
\<close>

locale walker =
  fixes kids :: "'n \<Rightarrow> 'n list"
    and visit :: "'n \<Rightarrow> 'n list"
    and weight :: "'n \<Rightarrow> nat"
  assumes visit_unfold: "visit n = n # concat (map visit (kids n))"
    and kids_lighter: "k \<in> set (kids n) \<Longrightarrow> weight k < weight n"
begin

lemma kids_induct:
  assumes "\<And>n. (\<And>k. k \<in> set (kids n) \<Longrightarrow> P k) \<Longrightarrow> P n"
  shows "P n"
  using assms by (rule measure_induct_rule [of weight]) (blast dest: kids_lighter)

lemma visit_root: "n \<in> set (visit n)"
  by (subst visit_unfold) simp

lemma set_visit: "set (visit n) = insert n (\<Union>k \<in> set (kids n). set (visit k))"
  by (subst visit_unfold) simp

lemma all_visit:
  "(\<forall>m \<in> set (visit n). P m) \<longleftrightarrow> P n \<and> (\<forall>k \<in> set (kids n). \<forall>m \<in> set (visit k). P m)"
  by (simp add: set_visit [of n])

lemma ex_visit:
  "(\<exists>m \<in> set (visit n). P m) \<longleftrightarrow> P n \<or> (\<exists>k \<in> set (kids n). \<exists>m \<in> set (visit k). P m)"
  by (simp add: set_visit [of n])

lemma visit_weight: "m \<in> set (visit n) \<Longrightarrow> weight m \<le> weight n"
proof (induction n rule: kids_induct)
  case (1 n)
  then show ?case by (auto simp: set_visit [of n]) (meson kids_lighter le_trans less_imp_le)
qed

lemma visit_subset: "m \<in> set (visit n) \<Longrightarrow> set (visit m) \<subseteq> set (visit n)"
proof (induction n rule: kids_induct)
  case (1 n)
  then show ?case using set_visit [of n] by auto
qed

lemma visit_reaches: "set (visit n) = {m. (\<lambda>a b. b \<in> set (kids a))\<^sup>*\<^sup>* n m}"
proof (rule set_eqI, unfold mem_Collect_eq, rule iffI)
  fix m assume "m \<in> set (visit n)"
  then show "(\<lambda>a b. b \<in> set (kids a))\<^sup>*\<^sup>* n m"
  proof (induction n rule: kids_induct)
    case (1 n)
    then show ?case
      by (auto simp: set_visit [of n] intro: converse_rtranclp_into_rtranclp)
  qed
next
  fix m assume "(\<lambda>a b. b \<in> set (kids a))\<^sup>*\<^sup>* n m"
  then show "m \<in> set (visit n)"
  proof (induction rule: converse_rtranclp_induct)
    case base
    show ?case by (rule visit_root)
  next
    case (step a b)
    then show ?case using set_visit [of a] by blast
  qed
qed

end

interpretation ast: walker children walk size
  by unfold_locales (fact walk.simps, fact children_smaller)

lemmas walk_size = ast.visit_weight

text \<open>The equation of the walk at each variant, for evaluation.\<close>

lemmas walk_eval [py_eval] =
  walk.simps [of "ColumnNode a1 a2" for a1 a2] walk.simps [of "ValueNode a1" for a1]
  walk.simps [of "TemporalNode a1" for a1] walk.simps [of "BinaryNode a1 a2 a3" for a1 a2 a3]
  walk.simps [of "UnaryNode a1 a2" for a1 a2] walk.simps [of "FunctionNode a1 a2" for a1 a2]
  walk.simps [of "CaseNode a1 a2" for a1 a2] walk.simps [of "AggregateNode a1 a2 a3" for a1 a2 a3]
  walk.simps [of "WindowNode a1 a2 a3 a4 a5" for a1 a2 a3 a4 a5]
  walk.simps [of "AliasNode a1 a2" for a1 a2] walk.simps [of "NullableResultNode a1" for a1]
  walk.simps [of "StarNode"] walk.simps [of "InNode a1 a2 a3" for a1 a2 a3]
  walk.simps [of "BetweenNode a1 a2 a3 a4" for a1 a2 a3 a4]
  walk.simps [of "ScalarSubqueryNode a1" for a1] walk.simps [of "ExistsNode a1 a2" for a1 a2]
  walk.simps [of "ExcludedNode a1 a2" for a1 a2] walk.simps [of "JsonTextNode a1 a2" for a1 a2]
  walk.simps [of "RegexMatchNode a1 a2 a3" for a1 a2 a3] walk.simps [of "UuidCastNode a1" for a1]

section \<open>Source references\<close>

fun column_source :: "'v node \<Rightarrow> string option" where
  "column_source (ColumnNode source name) = Some source"
| "column_source _ = None"

definition referenced_sources :: "'v node option \<Rightarrow> string set" where
  "referenced_sources n = (case n of
       None \<Rightarrow> {}
     | Some n \<Rightarrow> set (List.map_filter column_source (walk n)))"

declare referenced_sources_def [py_eval]

lemma referenced_sources_Some:
  "referenced_sources (Some n) = {s. \<exists>c. ColumnNode s c \<in> set (walk n)}"
proof -
  have "column_source m = Some s \<longleftrightarrow> (\<exists>c. m = ColumnNode s c)" for m :: "'a node" and s
    by (cases m) auto
  then show ?thesis
    by (auto simp: referenced_sources_def map_filter_def image_iff) force
qed

lemma referenced_sources_None [simp]: "referenced_sources None = {}"
  by (simp add: referenced_sources_def)

section \<open>What the enumeration covers\<close>

text \<open>
  The SELECT an expression embeds directly: the boundary at which \<open>walk\<close> stops.
\<close>

fun direct_subquery :: "'v node \<Rightarrow> 'v select_node option" where
  "direct_subquery (ScalarSubqueryNode q) = Some q"
| "direct_subquery (ExistsNode q negated) = Some q"
| "direct_subquery (InNode expression (InSelect q) negated) = Some q"
| "direct_subquery _ = None"

lemma direct_subquery_smaller: "direct_subquery n = Some q \<Longrightarrow> size q < size n"
  by (cases n rule: direct_subquery.cases) auto

text \<open>
  No field is forgotten: every value an expression carries is its own, one of a child's, or
  one of the embedded SELECT's.
\<close>

theorem children_cover_values:
  "set_node n =
     (case n of ValueNode v \<Rightarrow> {v} | _ \<Rightarrow> {})
     \<union> (\<Union>c \<in> set (children n). set_node c)
     \<union> (case direct_subquery n of None \<Rightarrow> {} | Some q \<Rightarrow> set_select_node q)"
proof (cases n)
  case (TemporalNode t)
  then show ?thesis
    by (cases t) (auto split: option.splits intro: bexI [rotated])
next
  case (WindowNode e ps os fr ex)
  have "\<Union> (set_node ` set_order_node ord) = set_node (order_expression ord)" for ord :: "'a order"
    by (cases ord) simp
  with WindowNode show ?thesis by (simp add: Un_assoc)
next
  case (InNode e vs neg)
  then show ?thesis by (cases vs) auto
next
  case (CaseNode bs otherwise)
  have "(\<Union>b \<in> set bs. \<Union> (set_node ` (Basic_BNFs.fsts b \<union> Basic_BNFs.snds b)))
      = (\<Union>c \<in> set (concat (map (\<lambda>(condition, value). [condition, value]) bs)). set_node c)"
    by (induction bs) auto
  with CaseNode show ?thesis by (simp add: Un_commute)
qed (auto split: option.splits)

end
