(* ===== verification/Scopes.thy ===== *)
theory Scopes
  imports Walk
begin

text \<open>
  The structural analyses of \<open>relq/_analysis\<close> over statements: the nested query scopes and the CTE
  names each can see (\<open>scopes.py\<close>), the CTE names a SELECT uses (\<open>ctes.py\<close>), and the relations an
  outer join can NULL-extend (\<open>nullability.py\<close>).  The size facts at the start are what the recursive
  analyses, validation and rendering terminate by.
\<close>

section \<open>The parts of a SELECT\<close>

definition select_sources :: "'v select_node \<Rightarrow> 'v source list" where
  "select_sources s =
     (case from_source s of None \<Rightarrow> [] | Some f \<Rightarrow> [f]) @ map join_source (joins s)"

definition order_expressions :: "'v select_node \<Rightarrow> 'v node list" where
  "order_expressions s = map order_expression (order_by s)"

definition join_predicates :: "'v select_node \<Rightarrow> 'v node list" where
  "join_predicates s = map join_predicate (joins s)"

lemmas select_part_defs = select_sources_def order_expressions_def join_predicates_def

text \<open>The SELECTs embedded in an expression, in walk order (\<open>_subqueries\<close>).\<close>

definition subqueries :: "'v node \<Rightarrow> 'v select_node list" where
  "subqueries expression = List.map_filter direct_subquery (walk expression)"

lemma set_subqueries:
  "set (subqueries e) = {q. \<exists>m \<in> set (walk e). direct_subquery m = Some q}"
  by (auto simp: subqueries_def map_filter_def image_iff) force

lemma subqueries_smaller: "q \<in> set (subqueries e) \<Longrightarrow> size q < size e"
  by (auto simp: set_subqueries dest!: walk_size direct_subquery_smaller)

section \<open>Sizes\<close>

abbreviation query_size :: "'v query \<Rightarrow> nat" where
  "query_size \<equiv> size_query_node size size"

abbreviation dml_size :: "'v dml \<Rightarrow> nat" where
  "dml_size \<equiv> size_dml_node size size"

lemma select_size_parts:
  fixes s :: "'v select_node"
  shows "size s = size_list size (selections s) + size_option (size_source_node size) (from_source s)
     + size_list (size_join_node size size) (joins s) + size_option size (where_node s)
     + size_list size (group_by s) + size_option size (having_node s)
     + size_list (size_order_node size) (order_by s) + size_list (size_cte_node size size) (ctes s)
     + size_list (size_compound_node size) (compounds s) + 1"
  by (cases s) simp

lemma size_join_source:
  "j \<in> set js \<Longrightarrow> size_source_node size (join_source j) < size_list (size_join_node size size) js"
proof -
  assume "j \<in> set js"
  moreover have "size_source_node size (join_source j) \<le> size_join_node size size j"
    by (cases j) simp
  ultimately show ?thesis
    using elem_lt_size_list [of j js "size_join_node size size"] by simp
qed

lemma size_join_predicate:
  "j \<in> set js \<Longrightarrow> size (join_predicate j) < size_list (size_join_node size size) js"
proof -
  assume "j \<in> set js"
  moreover have "size (join_predicate j) \<le> size_join_node size size j"
    by (cases j) simp
  ultimately show ?thesis
    using elem_lt_size_list [of j js "size_join_node size size"] by simp
qed

lemma select_expression_smaller:
  assumes "e \<in> set (selections s) \<union> set (join_predicates s) \<union> set (group_by s)
     \<union> set (order_expressions s) \<union> set_option (where_node s) \<union> set_option (having_node s)"
  shows "size e < size s"
  using assms size_join_predicate size_node_list
  by (fastforce simp: select_size_parts [of s] select_part_defs elem_set)

lemma select_source_smaller:
  assumes "src \<in> set (select_sources s)"
  shows "size_source_node size src < size s"
proof (cases "from_source s = Some src")
  case True
  then show ?thesis by (simp add: select_size_parts [of s])
next
  case False
  with assms obtain j where "j \<in> set (joins s)" "src = join_source j"
    by (auto simp: select_sources_def split: option.splits)
  then show ?thesis
    using size_join_source [of j "joins s"] by (simp add: select_size_parts [of s])
qed

lemma derived_smaller: "DerivedSourceNode q a \<in> set (select_sources s) \<Longrightarrow> size q < size s"
  using select_source_smaller [of "DerivedSourceNode q a" s] by simp

lemma cte_query_smaller: "c \<in> set (ctes s) \<Longrightarrow> query_size (cte_query c) < size s"
proof -
  assume c: "c \<in> set (ctes s)"
  have "query_size (cte_query c) \<le> size_cte_node size size c"
    by (cases c) simp
  then show ?thesis
    using elem_lt_size_list [OF c, of "size_cte_node size size"]
    by (simp add: select_size_parts [of s])
qed

lemma compound_query_smaller: "c \<in> set (compounds s) \<Longrightarrow> size (compound_query c) < size s"
proof -
  assume c: "c \<in> set (compounds s)"
  have "size (compound_query c) \<le> size_compound_node size c"
    by (cases c) simp
  then show ?thesis
    using elem_lt_size_list [OF c, of "size_compound_node size"]
    by (simp add: select_size_parts [of s])
qed

lemma select_order_smaller:
  "ord \<in> set (order_by s) \<Longrightarrow> size_order_node size ord < size s"
  using elem_lt_size_list [of ord "order_by s" "size_order_node size"]
  by (simp add: select_size_parts [of s])

lemma select_option_smaller:
  "where_node s = Some e \<Longrightarrow> size e < size s"
  "having_node s = Some e \<Longrightarrow> size e < size s"
  "from_source s = Some f \<Longrightarrow> size_source_node size f < size s"
  by (simp_all add: select_size_parts [of s])

lemma select_list_smaller:
  "e \<in> set (selections s) \<Longrightarrow> size e < size s"
  "e \<in> set (group_by s) \<Longrightarrow> size e < size s"
  by (simp_all add: select_expression_smaller)

lemma select_join_smaller:
  "j \<in> set (joins s) \<Longrightarrow> size (join_predicate j) < size s"
  "j \<in> set (joins s) \<Longrightarrow> size_source_node size (join_source j) < size s"
  using size_join_predicate [of j "joins s"]  size_join_source [of j "joins s"]
  by (simp_all add: select_size_parts [of s])

lemma pair_smaller: "(c, e) \<in> set xs \<Longrightarrow> size e < size_list (size_prod (\<lambda>_. 0) size) xs"
  using snd_lt_size_list [of _ xs size "\<lambda>_. 0"] by fastforce

lemma row_smaller:
  "row \<in> set rows \<Longrightarrow> (c, e) \<in> set row \<Longrightarrow>
     size e < size_list (size_list (size_prod (\<lambda>_. 0) size)) rows"
  using elem_lt_size_list [of row rows "size_list (size_prod (\<lambda>_. 0) size)"] pair_smaller [of c e row]
  by simp

lemmas select_parts_smaller = select_order_smaller select_option_smaller select_list_smaller
  select_join_smaller compound_query_smaller

section \<open>Nested scopes\<close>

text \<open>The loop over \<open>node.ctes\<close>: each body with the names bound before it.\<close>

fun cte_scopes :: "string set \<Rightarrow> 'v cte list \<Rightarrow> ('v query \<times> string set) list" where
  "cte_scopes bound [] = []"
| "cte_scopes bound (cte # rest) =
     (cte_query cte, if cte_recursive cte then bound \<union> {cte_name cte} else bound)
     # cte_scopes (bound \<union> {cte_name cte}) rest"

definition insert_values :: "'v insert_src option \<Rightarrow> 'v node list" where
  "insert_values source = (case source of
       Some (InsertValuesSourceNode values) \<Rightarrow> map snd values
     | Some (InsertRowsSourceNode rows) \<Rightarrow> concat (map (map snd) rows)
     | _ \<Rightarrow> [])"

fun expressions :: "'v query \<Rightarrow> 'v node list" where
  "expressions (SelectQ s) =
     selections s @ join_predicates s @ group_by s @ order_expressions s
     @ present [where_node s, having_node s]"
| "expressions (DmlQ (InsertDml i)) =
     insert_values (insert_source i)
     @ (case insert_conflict i of None \<Rightarrow> [] | Some c \<Rightarrow> map snd (conflict_update_values c))
     @ insert_returning i"
| "expressions (DmlQ (UpdateDml u)) =
     map snd (update_values u) @ present [update_where u] @ update_returning u"
| "expressions (DmlQ (DeleteDml d)) = present [delete_where d] @ delete_returning d"

definition derived_scopes :: "'v select_node \<Rightarrow> string set \<Rightarrow> ('v query \<times> string set) list" where
  "derived_scopes s bound = List.map_filter
     (\<lambda>source. case source of DerivedSourceNode q alias \<Rightarrow> Some (SelectQ q, bound) | _ \<Rightarrow> None)
     (select_sources s)"

definition bound_ctes :: "'v query \<Rightarrow> string set \<Rightarrow> string set" where
  "bound_ctes node visible = (case node of
       SelectQ s \<Rightarrow> visible \<union> set (map cte_name (ctes s))
     | DmlQ _ \<Rightarrow> visible)"

text \<open>
  The scopes the statement's clauses open, in the order the \<open>match\<close> of \<open>_child_scopes\<close> yields them,
  and then the subqueries of its expressions.
\<close>

definition clause_scopes :: "'v query \<Rightarrow> string set \<Rightarrow> ('v query \<times> string set) list" where
  "clause_scopes node visible = (let bound = bound_ctes node visible in
     case node of
       SelectQ s \<Rightarrow>
         cte_scopes visible (ctes s) @ derived_scopes s bound
         @ map (\<lambda>c. (SelectQ (compound_query c), bound)) (compounds s)
     | DmlQ (InsertDml i) \<Rightarrow>
         (case insert_source i of
            Some (InsertSelectSourceNode q columns) \<Rightarrow> [(SelectQ q, bound)]
          | _ \<Rightarrow> [])
     | DmlQ _ \<Rightarrow> [])"

definition subquery_scopes :: "'v query \<Rightarrow> string set \<Rightarrow> ('v query \<times> string set) list" where
  "subquery_scopes node bound =
     concat (map (\<lambda>e. map (\<lambda>q. (SelectQ q, bound)) (subqueries e)) (expressions node))"

definition child_scopes :: "'v query \<Rightarrow> string set \<Rightarrow> ('v query \<times> string set) list" where
  "child_scopes node visible =
     clause_scopes node visible @ subquery_scopes node (bound_ctes node visible)"

lemma cte_scopes_mem: "(q, v) \<in> set (cte_scopes bound cs) \<Longrightarrow> \<exists>c \<in> set cs. q = cte_query c"
  by (induction cs arbitrary: bound) auto

lemma insert_values_smaller:
  "e \<in> set (insert_values src) \<Longrightarrow> size e < size_option (size_insert_source size size) src"
proof (cases src)
  case (Some a)
  then show "e \<in> set (insert_values src) \<Longrightarrow> ?thesis"
  proof (cases a)
    case (InsertRowsSourceNode rows)
    assume "e \<in> set (insert_values src)"
    with Some InsertRowsSourceNode obtain row where row: "row \<in> set rows" and e: "e \<in> snd ` set row"
      by (auto simp: insert_values_def)
    from row have "size_list (size_prod (\<lambda>_. 0) size) row
        < size_list (size_list (size_prod (\<lambda>_. 0) size)) rows"
      by (rule elem_lt_size_list)
    moreover from e have "size e < size_list (size_prod (\<lambda>_. 0) size) row"
      using snd_lt_size_list [of _ row size "\<lambda>_. 0"] by auto
    ultimately show ?thesis
      using Some InsertRowsSourceNode by simp
  qed (auto simp: insert_values_def dest: snd_lt_size_list [where f = "\<lambda>_. 0" and g = size])
qed (simp add: insert_values_def)

lemma conflict_part_smaller:
  assumes "e \<in> snd ` set (conflict_update_values c) \<union> set_option (conflict_target_where c)
     \<union> set_option (conflict_update_where c)"
  shows "size e < size_conflict_node size c"
  using assms snd_lt_size_list [where f = "\<lambda>_. 0" and g = size] by (cases c) (fastforce simp: elem_set)

lemma expression_smaller: "e \<in> set (expressions node) \<Longrightarrow> size e < query_size node"
proof (cases node rule: expressions.cases)
  case (1 s)
  then show "e \<in> set (expressions node) \<Longrightarrow> ?thesis"
    using select_expression_smaller [of e s] by (auto simp: elem_set)
next
  case (2 i)
  assume "e \<in> set (expressions node)"
  with 2 show ?thesis
    using insert_values_smaller [of e "insert_source i"] conflict_part_smaller [of e]
      elem_lt_size_list [of e "insert_returning i" size]
    by (cases i) (fastforce split: option.splits)
next
  case (3 u)
  assume "e \<in> set (expressions node)"
  with 3 show ?thesis
    using snd_lt_size_list [of _ "update_values u" size "\<lambda>_. 0"]
      elem_lt_size_list [of e "update_returning u" size]
    by (cases u) (fastforce simp: elem_set)
next
  case (4 d)
  assume "e \<in> set (expressions node)"
  with 4 show ?thesis
    using elem_lt_size_list [of e "delete_returning d" size]
    by (cases d) (fastforce simp: elem_set)
qed

lemma derived_scopes_mem:
  "(q, v) \<in> set (derived_scopes s b) \<longleftrightarrow>
     v = b \<and> (\<exists>p a. DerivedSourceNode p a \<in> set (select_sources s) \<and> q = SelectQ p)"
  by (auto simp: derived_scopes_def map_filter_def split: source_node.splits)

lemma subquery_scopes_mem:
  "(q, v) \<in> set (subquery_scopes node bound) \<longleftrightarrow>
     v = bound \<and> (\<exists>e \<in> set (expressions node). \<exists>p \<in> set (subqueries e). q = SelectQ p)"
  by (auto simp: subquery_scopes_def)

text \<open>The places a query can be nested in a statement.\<close>

lemma clause_scope_cases:
  assumes "(q, v) \<in> set (clause_scopes node visible)"
  obtains
      (ctes) s c where "node = SelectQ s" "c \<in> set (ctes s)" "q = cte_query c"
    | (derived) s p a where "node = SelectQ s" "DerivedSourceNode p a \<in> set (select_sources s)" "q = SelectQ p"
    | (compound) s c where "node = SelectQ s" "c \<in> set (compounds s)" "q = SelectQ (compound_query c)"
    | (insert) i p cols where "node = DmlQ (InsertDml i)"
        "insert_source i = Some (InsertSelectSourceNode p cols)" "q = SelectQ p"
proof (cases node)
  case (SelectQ s)
  with assms show ?thesis
    using ctes [of s] derived [of s] compound [of s]
    by (auto simp: clause_scopes_def Let_def derived_scopes_mem dest: cte_scopes_mem)
next
  case (DmlQ d)
  with assms show ?thesis
    using insert
    by (cases d) (auto simp: clause_scopes_def Let_def dest!: sym [of "Some _"]
        split: option.splits insert_source.splits)
qed

lemma child_scope_smaller:
  assumes "(q, v) \<in> set (child_scopes node visible)"
  shows "query_size q < query_size node"
proof (cases "(q, v) \<in> set (clause_scopes node visible)")
  case True
  then show ?thesis
  proof (cases rule: clause_scope_cases)
    case (insert i p cols)
    then show ?thesis by (cases i) simp
  qed (auto dest: cte_query_smaller derived_smaller compound_query_smaller simp: less_SucI)
next
  case False
  with assms obtain e p where "e \<in> set (expressions node)" "p \<in> set (subqueries e)" "q = SelectQ p"
    by (auto simp: child_scopes_def subquery_scopes_mem)
  then show ?thesis
    using subqueries_smaller [of p e] expression_smaller [of e node] by simp
qed

function nested_scopes :: "'v query \<Rightarrow> string set \<Rightarrow> ('v query \<times> string set) list" where
  "nested_scopes node visible =
     concat (map (\<lambda>(child, scope). (child, scope) # nested_scopes child scope) (child_scopes node visible))"
  by pat_completeness auto
termination
  by (relation "measure (\<lambda>(node, _). query_size node)") (auto dest: child_scope_smaller)

declare nested_scopes.simps [simp del]

definition nested_queries :: "'v query \<Rightarrow> 'v query list" where
  "nested_queries node = map fst (nested_scopes node {})"

section \<open>CTE references\<close>

text \<open>
  The SELECTs \<open>visit_select\<close> recurses into: derived tables, subqueries of its own expressions, and
  compound arms.  The code's accumulating set is the union of what each visit adds.  As in the code,
  the SELECT's own \<open>WITH\<close> bodies are not visited.
\<close>

definition visited_expressions :: "'v select_node \<Rightarrow> 'v node list" where
  "visited_expressions s = join_predicates s @ selections s @ present [where_node s] @ group_by s
     @ present [having_node s] @ order_expressions s"

function cte_references :: "'v select_node \<Rightarrow> string set" where
  "cte_references s =
     \<Union> (set (map (\<lambda>source. case source of
              CteSourceNode name \<Rightarrow> {name}
            | DerivedSourceNode q alias \<Rightarrow> cte_references q
            | TableSource t \<Rightarrow> {}) (select_sources s)))
     \<union> \<Union> (set (map (\<lambda>e. \<Union> (set (map cte_references (subqueries e)))) (visited_expressions s)))
     \<union> \<Union> (set (map (\<lambda>c. cte_references (compound_query c)) (compounds s)))"
  by pat_completeness auto
termination
proof (relation "measure size")
  fix s q :: "'a select_node" and e :: "'a node"
  assume "e \<in> set (visited_expressions s)" and q: "q \<in> set (subqueries e)"
  then have "size e < size s"
    using select_expression_smaller [of e s] by (auto simp: visited_expressions_def elem_set)
  with subqueries_smaller [OF q] show "(q, s) \<in> measure size"
    by simp
qed (auto dest: derived_smaller compound_query_smaller)

declare cte_references.simps [simp del]

section \<open>Outer joins\<close>

text \<open>The loop of \<open>null_extended_sources\<close> over the joins, with its two accumulators.\<close>

fun null_extend :: "'v join list \<Rightarrow> string set \<Rightarrow> string set \<Rightarrow> string set result" where
  "null_extend [] visible nullable = Inr nullable"
| "null_extend (j # js) visible nullable = (let r = reference (join_source j) in
     if join_kind j = ''left'' then null_extend js (insert r visible) (insert r nullable)
     else if join_kind j = ''right'' then null_extend js (insert r visible) (nullable \<union> visible)
     else if join_kind j = ''full'' then null_extend js (insert r visible) (insert r (nullable \<union> visible))
     else if join_kind j = ''inner'' \<or> join_kind j = ''cross''
       then null_extend js (insert r visible) nullable
     else Inl (ValueError ''unsupported join kind'' [join_kind j]))"

definition null_extended_sources :: "'v select_node \<Rightarrow> string set result" where
  "null_extended_sources s = (case from_source s of
       None \<Rightarrow> Inr {}
     | Some f \<Rightarrow> null_extend (joins s) {reference f} {})"

section \<open>Properties of the analyses\<close>

text \<open>
  The nested scopes are a depth-first walk over pairs of a query and the names it sees, so the laws
  of \<open>walker\<close> apply to them.
\<close>

definition scope_children :: "'v query \<times> string set \<Rightarrow> ('v query \<times> string set) list" where
  "scope_children p = child_scopes (fst p) (snd p)"

definition scope_walk :: "'v query \<times> string set \<Rightarrow> ('v query \<times> string set) list" where
  "scope_walk p = p # nested_scopes (fst p) (snd p)"

lemma nested_scopes_walk:
  "nested_scopes node visible = concat (map scope_walk (child_scopes node visible))"
  by (subst nested_scopes.simps) (simp add: scope_walk_def [abs_def] case_prod_unfold)

interpretation scopes: walker scope_children scope_walk "\<lambda>p. query_size (fst p)"
proof
  fix p :: "'a query \<times> string set"
  show "scope_walk p = p # concat (map scope_walk (scope_children p))"
    by (simp add: scope_walk_def [of p] nested_scopes_walk scope_children_def)
next
  fix k p :: "'a query \<times> string set"
  assume "k \<in> set (scope_children p)"
  then show "query_size (fst k) < query_size (fst p)"
    using child_scope_smaller [of "fst k" "snd k" "fst p" "snd p"] by (simp add: scope_children_def)
qed

lemmas scopes_eval [py_eval] = select_part_defs subqueries_def map_filter_def
  nested_scopes.simps [of "SelectQ (SelectNode a1 a2 a3 a4 a5 a6 a7 a8 a9 a10 a11 a12 a13)"
    for a1 a2 a3 a4 a5 a6 a7 a8 a9 a10 a11 a12 a13]
  nested_scopes.simps [of "DmlQ m" for m] nested_queries_def
  cte_references.simps [of "SelectNode a1 a2 a3 a4 a5 a6 a7 a8 a9 a10 a11 a12 a13"
    for a1 a2 a3 a4 a5 a6 a7 a8 a9 a10 a11 a12 a13]
  visited_expressions_def child_scopes_def clause_scopes_def bound_ctes_def derived_scopes_def
  subquery_scopes_def insert_values_def

text \<open>
  \<open>nested_scopes\<close> enumerates exactly the queries strictly inside a statement, each with the
  names in scope there: one child-scope step or more away.
\<close>

theorem nested_scopes_exact:
  "set (nested_scopes node visible) =
     {p. (\<lambda>a b. b \<in> set (scope_children a))\<^sup>+\<^sup>+ (node, visible) p}"
proof -
  have "set (nested_scopes node visible) = (\<Union>k \<in> set (scope_children (node, visible)). set (scope_walk k))"
    by (simp add: nested_scopes_walk scope_children_def)
  also have "\<dots> = {p. (\<lambda>a b. b \<in> set (scope_children a))\<^sup>+\<^sup>+ (node, visible) p}"
    by (auto simp: scopes.visit_reaches tranclp_unfold_left relcompp_apply)
  finally show ?thesis .
qed

lemma length_cte_scopes [simp]: "length (cte_scopes bound cs) = length cs"
  by (induction cs arbitrary: bound) auto

text \<open>
  A \<open>WITH\<close> clause binds its names in declaration order: the body of entry \<open>i\<close> sees the
  enclosing names and the entries before it, and its own name only when it is recursive.
\<close>

theorem cte_scopes_declaration_order:
  assumes "i < length cs"
  shows "cte_scopes bound cs ! i =
     (cte_query (cs ! i),
      bound \<union> set (map cte_name (take i cs)) \<union> (if cte_recursive (cs ! i) then {cte_name (cs ! i)} else {}))"
  using assms
proof (induction cs arbitrary: bound i)
  case (Cons c cs)
  then show ?case by (cases i) auto
qed simp

theorem cte_scopes_declaration_order_witness:
  "cte_scopes {''x''}
     [CteNode ''a'' (SelectQ (new_select [StarNode])) False False,
      CteNode ''b'' (SelectQ (new_select [ColumnNode ''b'' ''id'' :: py_value node])) True False] ! 1
   = (SelectQ (new_select [ColumnNode ''b'' ''id'']), {''x'', ''a'', ''b''})"
  by (subst cte_scopes_declaration_order) auto

text \<open>
  What SQL's joins do to the rows, as a specification.  An environment gives each relation visible
  so far its row, or \<open>None\<close> where an outer join manufactured a NULL row for it.
\<close>

type_synonym 'r env = "string \<Rightarrow> 'r option"

definition matched_rows :: "('r env \<Rightarrow> bool) \<Rightarrow> string \<Rightarrow> 'r list \<Rightarrow> 'r env list \<Rightarrow> 'r env list" where
  "matched_rows on r right left =
     filter on (concat (map (\<lambda>l. map (\<lambda>x. l(r \<mapsto> x)) right) left))"

definition unmatched_left :: "('r env \<Rightarrow> bool) \<Rightarrow> string \<Rightarrow> 'r list \<Rightarrow> 'r env list \<Rightarrow> 'r env list" where
  "unmatched_left on r right left =
     map (\<lambda>l. l(r := None)) (filter (\<lambda>l. \<forall>x \<in> set right. \<not> on (l(r \<mapsto> x))) left)"

definition unmatched_right :: "('r env \<Rightarrow> bool) \<Rightarrow> string \<Rightarrow> 'r list \<Rightarrow> 'r env list \<Rightarrow> 'r env list" where
  "unmatched_right on r right left =
     map (\<lambda>x. [r \<mapsto> x]) (filter (\<lambda>x. \<forall>l \<in> set left. \<not> on (l(r \<mapsto> x))) right)"

definition join_rows ::
  "string \<Rightarrow> ('r env \<Rightarrow> bool) \<Rightarrow> string \<Rightarrow> 'r list \<Rightarrow> 'r env list \<Rightarrow> 'r env list" where
  "join_rows kind on r right left =
     (if kind = ''cross'' then matched_rows (\<lambda>_. True) r right left
      else matched_rows on r right left
        @ (if kind \<in> {''left'', ''full''} then unmatched_left on r right left else [])
        @ (if kind \<in> {''right'', ''full''} then unmatched_right on r right left else []))"

fun joined_rows ::
  "(string \<Rightarrow> 'r list) \<Rightarrow> ('v join \<Rightarrow> 'r env \<Rightarrow> bool) \<Rightarrow> 'v join list \<Rightarrow> 'r env list \<Rightarrow> 'r env list" where
  "joined_rows data on [] rows = rows"
| "joined_rows data on (j # js) rows = (let r = reference (join_source j) in
     joined_rows data on js (join_rows (join_kind j) (on j) r (data r) rows))"

definition from_rows ::
  "(string \<Rightarrow> 'r list) \<Rightarrow> ('v join \<Rightarrow> 'r env \<Rightarrow> bool) \<Rightarrow> 'v select_node \<Rightarrow> 'r env list" where
  "from_rows data on s = (case from_source s of
       None \<Rightarrow> [Map.empty]
     | Some f \<Rightarrow> joined_rows data on (joins s) (map (\<lambda>x. [reference f \<mapsto> x]) (data (reference f))))"

lemma matched_rows_mem:
  "e \<in> set (matched_rows on r right left) \<longleftrightarrow>
     (\<exists>l \<in> set left. \<exists>x \<in> set right. on e \<and> e = l(r \<mapsto> x))"
  by (auto simp: matched_rows_def)

lemma unmatched_left_mem:
  "e \<in> set (unmatched_left on r right left) \<longleftrightarrow>
     (\<exists>l \<in> set left. (\<forall>x \<in> set right. \<not> on (l(r \<mapsto> x))) \<and> e = l(r := None))"
  by (auto simp: unmatched_left_def)

lemma unmatched_right_mem:
  "e \<in> set (unmatched_right on r right left) \<longleftrightarrow>
     (\<exists>x \<in> set right. (\<forall>l \<in> set left. \<not> on (l(r \<mapsto> x))) \<and> e = [r \<mapsto> x])"
  by (auto simp: unmatched_right_def)

lemmas join_parts_mem = matched_rows_mem unmatched_left_mem unmatched_right_mem

lemma join_rows_cases:
  assumes "e \<in> set (join_rows kind on r right left)"
  obtains
      (matched) l x where "l \<in> set left" "x \<in> set right" "e = l(r \<mapsto> x)"
    | (left) l where "kind \<in> {''left'', ''full''}" "l \<in> set left" "e = l(r := None)"
    | (right) x where "kind \<in> {''right'', ''full''}" "x \<in> set right" "e = [r \<mapsto> x]"
proof (cases "e \<in> set (matched_rows on r right left) \<or> e \<in> set (matched_rows (\<lambda>_. True) r right left)")
  case True
  then show ?thesis using matched unfolding matched_rows_mem by blast
next
  case False
  with assms have "(kind \<in> {''left'', ''full''} \<and> e \<in> set (unmatched_left on r right left))
      \<or> (kind \<in> {''right'', ''full''} \<and> e \<in> set (unmatched_right on r right left))"
    by (auto simp: join_rows_def split: if_splits)
  then show ?thesis using left right unfolding join_parts_mem by blast
qed

lemma join_rows_None:
  assumes "e \<in> set (join_rows kind on r right left)" "e src = None"
  shows "(src \<noteq> r \<and> (\<exists>l \<in> set left. l src = None))
    \<or> (src = r \<and> kind \<in> {''left'', ''full''}) \<or> (src \<noteq> r \<and> kind \<in> {''right'', ''full''})"
  using assms(1)
proof (cases rule: join_rows_cases)
  case (matched l x)
  with assms(2) show ?thesis by (cases "src = r") auto
next
  case (left l)
  with assms(2) show ?thesis by (cases "src = r") auto
next
  case (right x)
  with assms(2) show ?thesis by (cases "src = r") auto
qed

text \<open>Soundness, for the loop: what is NULL in a row was visible before and is recorded.\<close>

lemma null_extend_sound:
  assumes "null_extend js visible nullable = Inr N"
    and "\<And>l s. l \<in> set rows \<Longrightarrow> s \<in> visible \<Longrightarrow> l s = None \<Longrightarrow> s \<in> nullable"
    and "e \<in> set (joined_rows data on js rows)"
    and "src \<in> visible \<union> reference ` join_source ` set js" "e src = None"
  shows "src \<in> N"
  using assms
proof (induction js arbitrary: visible nullable rows)
  case (Cons j js)
  let ?r = "reference (join_source j)"
  let ?rows = "join_rows (join_kind j) (on j) ?r (data ?r) rows"
  obtain nullable' where step: "null_extend js (insert ?r visible) nullable' = Inr N"
    and null: "nullable' = nullable
      \<union> (if join_kind j \<in> {''right'', ''full''} then visible else {})
      \<union> (if join_kind j \<in> {''left'', ''full''} then {?r} else {})"
    using Cons.prems(1) by (auto simp: Let_def Un_ac split: if_splits)
  have inv: "s \<in> nullable'" if "l \<in> set ?rows" "s \<in> insert ?r visible" "l s = None" for l s
    using join_rows_None [OF that(1,3)] that(2) Cons.prems(2) by (auto simp: null)
  have "e \<in> set (joined_rows data on js ?rows)"
    and "src \<in> insert ?r visible \<union> reference ` join_source ` set js"
    using Cons.prems(3,4) by (simp_all add: Let_def)
  from Cons.IH [OF step inv this Cons.prems(5)] show ?case .
qed auto

lemma null_extend_subset:
  "null_extend js visible nullable = Inr N \<Longrightarrow> N \<subseteq> nullable \<union> visible \<union> reference ` join_source ` set js"
proof (induction js arbitrary: visible nullable)
  case (Cons j js)
  then show ?case by (fastforce simp: Let_def split: if_splits)
qed auto

text \<open>
  Tightness: with one row in every relation and one join predicate that never holds (the others
  always do), the join that records a relation manufactures a NULL row for it, and the later joins
  keep that row.
\<close>

lemma joined_rows_keep_None:
  assumes "e \<in> set rows" "e src = None" "src \<notin> reference ` join_source ` set js" "t \<notin> set js"
  shows "\<exists>e' \<in> set (joined_rows (\<lambda>_. [()]) (\<lambda>j _. j \<noteq> t) js rows). e' src = None"
  using assms
proof (induction js arbitrary: rows e)
  case (Cons j js)
  let ?r = "reference (join_source j)"
  have "e(?r \<mapsto> ()) \<in> set (join_rows (join_kind j) (\<lambda>_. j \<noteq> t) ?r [()] rows)"
    using Cons.prems(1,4) by (auto simp: join_rows_def matched_rows_mem)
  moreover have "(e(?r \<mapsto> ())) src = None"
    using Cons.prems(2,3) by auto
  moreover have "src \<notin> reference ` join_source ` set js" "t \<notin> set js"
    using Cons.prems(3,4) by simp_all
  ultimately have "\<exists>e' \<in> set (joined_rows (\<lambda>_. [()]) (\<lambda>j _. j \<noteq> t) js
      (join_rows (join_kind j) (\<lambda>_. j \<noteq> t) ?r [()] rows)). e' src = None"
    by (rule Cons.IH)
  then show ?case by (simp add: Let_def)
qed auto

lemma join_rows_nonempty:
  "rows \<noteq> [] \<Longrightarrow> join_rows kind (\<lambda>_. True) r [()] rows \<noteq> []"
  by (auto simp: join_rows_def matched_rows_def)

lemma null_extend_tight:
  assumes "null_extend js visible nullable = Inr N" "src \<in> N" "src \<notin> nullable" "rows \<noteq> []"
    and "distinct (map (reference \<circ> join_source) js)"
    and "visible \<inter> reference ` join_source ` set js = {}"
  shows "\<exists>t \<in> set js. \<exists>e \<in> set (joined_rows (\<lambda>_. [()]) (\<lambda>j _. j \<noteq> t) js rows). e src = None"
  using assms
proof (induction js arbitrary: visible nullable rows)
  case (Cons j js)
  let ?r = "reference (join_source j)"
  let ?rows = "\<lambda>b. join_rows (join_kind j) (\<lambda>_. b) ?r [()] rows"
  have fresh: "j \<notin> set js" "?r \<notin> visible" "?r \<notin> reference ` join_source ` set js"
    using Cons.prems(5,6) by auto
  obtain nullable' where step: "null_extend js (insert ?r visible) nullable' = Inr N"
    and null: "nullable' = nullable
      \<union> (if join_kind j \<in> {''right'', ''full''} then visible else {})
      \<union> (if join_kind j \<in> {''left'', ''full''} then {?r} else {})"
    using Cons.prems(1) by (auto simp: Let_def Un_ac split: if_splits)
  show ?case
  proof (cases "src \<in> nullable'")
    case True
    obtain l where l: "l \<in> set rows" using Cons.prems(4) by (cases rows) auto
    have "\<exists>e \<in> set (?rows False). e src = None"
    proof (cases "src = ?r")
      case True
      then have "join_kind j \<in> {''left'', ''full''}"
        using \<open>src \<in> nullable'\<close> Cons.prems(3) fresh by (auto simp: null split: if_splits)
      then have "l(?r := None) \<in> set (?rows False)"
        using l by (auto simp: join_rows_def unmatched_left_mem)
      then show ?thesis using True by (intro bexI [of _ "l(?r := None)"]) simp_all
    next
      case False
      then have "join_kind j \<in> {''right'', ''full''}"
        using \<open>src \<in> nullable'\<close> Cons.prems(3) by (auto simp: null split: if_splits)
      then have "[?r \<mapsto> ()] \<in> set (?rows False)"
        by (auto simp: join_rows_def unmatched_right_mem)
      then show ?thesis using False by (intro bexI [of _ "[?r \<mapsto> ()]"]) simp_all
    qed
    moreover have "src \<notin> reference ` join_source ` set js"
      using \<open>src \<in> nullable'\<close> Cons.prems(3,6) fresh by (auto simp: null image_iff split: if_splits)
    ultimately have "\<exists>e \<in> set (joined_rows (\<lambda>_. [()]) (\<lambda>k _. k \<noteq> j) js (?rows False)). e src = None"
      using joined_rows_keep_None fresh(1) by blast
    then show ?thesis by (intro bexI [of _ j]) (simp_all add: Let_def)
  next
    case False
    have disj: "insert ?r visible \<inter> reference ` join_source ` set js = {}"
      using Cons.prems(6) fresh by auto
    have dist: "distinct (map (reference \<circ> join_source) js)"
      using Cons.prems(5) by (simp add: comp_def)
    have "?rows True \<noteq> []"
      using Cons.prems(4) by (rule join_rows_nonempty)
    from Cons.IH [OF step Cons.prems(2) False this dist disj]
    obtain t where t: "t \<in> set js"
      "\<exists>e \<in> set (joined_rows (\<lambda>_. [()]) (\<lambda>k _. k \<noteq> t) js (?rows True)). e src = None"
      by blast
    with fresh(1) have "j \<noteq> t" by auto
    with t show ?thesis by (intro bexI [of _ t]) (simp_all add: Let_def)
  qed
qed auto

text \<open>
  C5.  The recorded relations are exactly those that some data and some join predicates make NULL in
  a row of the joined relation.
\<close>

theorem null_extended_sources_exact:
  assumes "null_extended_sources s = Inr N"
    and "from_source s = Some f"
    and "distinct (map reference (select_sources s))"
  shows "src \<in> N \<longleftrightarrow> src \<in> reference ` set (select_sources s) \<and>
     (\<exists>data on. \<exists>e \<in> set (from_rows data on s :: unit env list). e src = None)"
proof -
  note Some = assms(2)
  have N: "null_extend (joins s) {reference f} {} = Inr N"
    using assms(1) Some by (simp add: null_extended_sources_def)
  have dist: "distinct (map (reference \<circ> join_source) (joins s))"
    "{reference f} \<inter> reference ` join_source ` set (joins s) = {}"
    using assms(3) Some by (auto simp: select_sources_def image_iff)
  have refs: "reference ` set (select_sources s) = insert (reference f) (reference ` join_source ` set (joins s))"
    using Some by (auto simp: select_sources_def)
  show ?thesis
  proof (rule iffI)
    assume src: "src \<in> N"
    from null_extend_tight [OF N src _ _ dist, of "[[reference f \<mapsto> ()]]"]
    obtain t where "\<exists>e \<in> set (from_rows (\<lambda>_. [()]) (\<lambda>k _. k \<noteq> t) s). e src = None"
      using Some by (auto simp: from_rows_def)
    then have "\<exists>data on. \<exists>e \<in> set (from_rows data on s :: unit env list). e src = None"
      by blast
    moreover have "src \<in> reference ` set (select_sources s)"
      using null_extend_subset [OF N] src refs by auto
    ultimately show "src \<in> reference ` set (select_sources s) \<and>
       (\<exists>data on. \<exists>e \<in> set (from_rows data on s :: unit env list). e src = None)" by blast
  next
    assume "src \<in> reference ` set (select_sources s) \<and>
       (\<exists>data on. \<exists>e \<in> set (from_rows data on s :: unit env list). e src = None)"
    then obtain data on e where e: "e \<in> set (joined_rows data on (joins s)
        (map (\<lambda>x. [reference f \<mapsto> x]) (data (reference f))))" "(e :: unit env) src = None"
      and src: "src \<in> {reference f} \<union> reference ` join_source ` set (joins s)"
      using Some refs by (auto simp: from_rows_def)
    have "l x \<noteq> None" if "l \<in> set (map (\<lambda>x. [reference f \<mapsto> x]) (data (reference f)))"
      "x \<in> {reference f}" for l :: "unit env" and x
      using that by auto
    then show "src \<in> N"
      using null_extend_sound [OF N _ e(1) src e(2)] by blast
  qed
qed

theorem null_extended_sources_exact_witness:
  "''c'' \<in> {''b'', ''a'', ''c''}
   \<and> null_extended_sources (SelectNode [ColumnNode ''a'' ''x''] (Some (CteSourceNode ''a''))
       [JoinNode (CteSourceNode ''b'') (ValueNode PyNone) ''left'', JoinNode (CteSourceNode ''c'') StarNode ''full'']
       None [] None [] None None False [] [] []) = Inr {''b'', ''a'', ''c''}
   \<and> (\<exists>data on. \<exists>e \<in> set (from_rows data on (SelectNode [ColumnNode ''a'' ''x''] (Some (CteSourceNode ''a''))
       [JoinNode (CteSourceNode ''b'') (ValueNode PyNone) ''left'', JoinNode (CteSourceNode ''c'') StarNode ''full'']
       None [] None [] None None False [] [] []) :: unit env list). e ''c'' = None)"
proof -
  let ?s = "SelectNode [ColumnNode ''a'' ''x''] (Some (CteSourceNode ''a''))
       [JoinNode (CteSourceNode ''b'') (ValueNode PyNone) ''left'', JoinNode (CteSourceNode ''c'') StarNode ''full'']
       None [] None [] None None False [] [] []"
  have N: "null_extended_sources ?s = Inr {''b'', ''a'', ''c''}"
    by (simp add: null_extended_sources_def Let_def insert_commute)
  have "distinct (map reference (select_sources ?s))"
    by (simp add: select_sources_def)
  from null_extended_sources_exact [OF N _ this, of _ "''c''"] N show ?thesis by simp
qed

end
