(* ===== verification/Render.thy ===== *)
theory Render
  imports Dialect Scopes
begin

text \<open>
  \<open>relq/_compiler/_render.py\<close>: SQL rendering.  A renderer is a function of the parameter list built so
  far, the Python list \<open>parameters\<close> that every \<open>_compile_*\<close> call appends to; it returns the rendered
  text with the extended list, or the exception it raised.  Pieces of an f-string or a join are
  rendered from left to right; where the source renders a piece before the text that precedes it,
  the model does too (\<open>bind_sql\<close>).
\<close>

section \<open>Renderers\<close>

type_synonym sql_renderer = "py_value list \<Rightarrow> (string \<times> py_value list) result"

definition lit :: "string \<Rightarrow> sql_renderer" where
  "lit s = (\<lambda>ps. Inr (s, ps))"

definition raise_sql :: "exn \<Rightarrow> sql_renderer" where
  "raise_sql e = (\<lambda>ps. Inl e)"

definition bind_sql :: "sql_renderer \<Rightarrow> (string \<Rightarrow> sql_renderer) \<Rightarrow> sql_renderer" where
  "bind_sql m f = (\<lambda>ps. case m ps of Inl e \<Rightarrow> Inl e | Inr (s, ps') \<Rightarrow> f s ps')"

definition lift_sql :: "string result \<Rightarrow> sql_renderer" where
  "lift_sql r = (case r of Inl e \<Rightarrow> raise_sql e | Inr s \<Rightarrow> lit s)"

text \<open>Rendering a sequence, collecting the texts in order.\<close>

fun collect :: "sql_renderer list \<Rightarrow> py_value list \<Rightarrow> (string list \<times> py_value list) result" where
  "collect [] ps = Inr ([], ps)"
| "collect (m # ms) ps = (case m ps of
       Inl e \<Rightarrow> Inl e
     | Inr (s, ps') \<Rightarrow> (case collect ms ps' of
           Inl e \<Rightarrow> Inl e
         | Inr (ss, ps'') \<Rightarrow> Inr (s # ss, ps'')))"

definition cat :: "sql_renderer list \<Rightarrow> sql_renderer" where
  "cat ms = (\<lambda>ps. map_sum id (\<lambda>(ss, ps'). (concat ss, ps')) (collect ms ps))"

definition join_sql :: "string \<Rightarrow> sql_renderer list \<Rightarrow> sql_renderer" where
  "join_sql sep ms = (\<lambda>ps. map_sum id (\<lambda>(ss, ps'). (join_with sep ss, ps')) (collect ms ps))"

section \<open>Quoting\<close>

definition sql_identifier :: "string \<Rightarrow> string" where
  "sql_identifier value = ''\"'' @ replace_char (CHR ''\"'') (''\"\"'') value @ ''\"''"

definition single_quote :: char where "single_quote = CHR 0x27"
definition backslash :: char where "backslash = CHR 0x5C"

definition sql_literal :: "string \<Rightarrow> string" where
  "sql_literal value =
     [single_quote] @ replace_char single_quote [single_quote, single_quote] value @ [single_quote]"

fun sql_constant :: "py_value \<Rightarrow> string result" where
  "sql_constant PyNone = Inr ''null''"
| "sql_constant (PyBool b) = Inr (if b then ''true'' else ''false'')"
| "sql_constant (PyInt i) = Inr (str_of_int i)"
| "sql_constant (PyStr value) =
     (if CHR 0x00 \<in> set value
      then Inl (ValueError ''a conflict-target predicate text constant cannot contain NUL'' [])
      else Inr (CHR ''E'' # single_quote #
        replace_char single_quote [single_quote, single_quote]
          (replace_char backslash [backslash, backslash] value) @ [single_quote]))"
| "sql_constant _ = Inl (ValueError
     ''a conflict-target predicate constant must be text, an integer, a boolean, or None'' [])"

definition qualified_column :: "string \<Rightarrow> string \<Rightarrow> string" where
  "qualified_column source name = sql_identifier source @ ''.'' @ sql_identifier name"

section \<open>The conflict arbiter's predicate\<close>

definition index_predicate_binary :: "string set" where
  "index_predicate_binary = {''='', ''<>'', ''<'', ''<='', ''>'', ''>='', ''and'', ''or''}"

definition index_predicate_unary :: "string set" where
  "index_predicate_unary =
     {''is null'', ''is not null'', ''is true'', ''is false'', ''is not true'', ''is not false''}"

definition unsupported_index_predicate :: exn where
  "unsupported_index_predicate = ValueError
     ''a conflict-target predicate must repeat a partial index predicate using only columns, text/integer/boolean/NULL constants, comparisons, IN, BETWEEN, IS checks, AND, and OR'' []"

fun compile_index_predicate :: "py_value node \<Rightarrow> string result" where
  "compile_index_predicate (ColumnNode source name) = Inr (qualified_column source name)"
| "compile_index_predicate (ValueNode value) = sql_constant value"
| "compile_index_predicate (BinaryNode left operator right) =
     (if operator \<in> index_predicate_binary
      then and_then (compile_index_predicate left) (\<lambda>l.
           and_then (compile_index_predicate right) (\<lambda>r.
             Inr (''('' @ l @ '' '' @ operator @ '' '' @ r @ '')'')))
      else Inl unsupported_index_predicate)"
| "compile_index_predicate (UnaryNode operator operand) =
     (if operator \<in> index_predicate_unary
      then and_then (compile_index_predicate operand) (\<lambda>x. Inr (''('' @ x @ '' '' @ operator @ '')''))
      else Inl unsupported_index_predicate)"
| "compile_index_predicate (InNode expression (InList values) negated) =
     and_then (map_results compile_index_predicate values) (\<lambda>items.
     and_then (compile_index_predicate expression) (\<lambda>x.
       Inr (''('' @ x @ '' '' @ (if negated then ''not in'' else ''in'') @ '' (''
            @ join_with '', '' items @ ''))'')))"
| "compile_index_predicate (BetweenNode expression lower upper negated) =
     and_then (compile_index_predicate expression) (\<lambda>x.
     and_then (compile_index_predicate lower) (\<lambda>l.
     and_then (compile_index_predicate upper) (\<lambda>u.
       Inr (''('' @ x @ '' '' @ (if negated then ''not between'' else ''between'') @ '' '' @ l @ '' and ''
            @ u @ '')''))))"
| "compile_index_predicate _ = Inl unsupported_index_predicate"

section \<open>Window frames\<close>

definition frame_has_offset :: "window_frame \<Rightarrow> bool" where
  "frame_has_offset frame \<longleftrightarrow>
     boundary_amount (frame_start frame) \<noteq> None \<or> boundary_amount (frame_end frame) \<noteq> None"

definition compile_frame_boundary :: "frame_boundary \<Rightarrow> string" where
  "compile_frame_boundary b = (case boundary_amount b of
       None \<Rightarrow> boundary_kind b
     | Some amount \<Rightarrow> str_of_int amount @ '' '' @ boundary_kind b)"

definition compile_window_frame ::
  "window_frame \<Rightarrow> 'v order list \<Rightarrow> string option \<Rightarrow> string result" where
  "compile_window_frame frame orders exclusion =
     (if frame_kind frame = ''range'' \<and> frame_has_offset frame \<and> length orders \<noteq> 1
      then Inl (ValueError
        ''RANGE frames with an offset require exactly one window order_by expression'' [])
      else let text = frame_kind frame @ '' between '' @ compile_frame_boundary (frame_start frame)
             @ '' and '' @ compile_frame_boundary (frame_end frame)
        in (case exclusion of
             None \<Rightarrow> Inr text
           | Some x \<Rightarrow>
               if x \<notin> {''no others'', ''current row'', ''group'', ''ties''}
               then Inl (ValueError ''unsupported window exclusion'' [x])
               else Inr (text @ '' exclude '' @ x)))"

section \<open>Clause helpers\<close>

definition compile_table :: "table_source \<Rightarrow> dialect \<Rightarrow> string result" where
  "compile_table t d = and_then
     (case table_schema t of
        None \<Rightarrow> Inr (sql_identifier (table_name t))
      | Some schema \<Rightarrow>
          if supports_schema_qualified_tables d
          then Inr (sql_identifier schema @ ''.'' @ sql_identifier (table_name t))
          else Inl (ValueError ''does not support schema-qualified tables''
                     [dialect_name d, schema, table_name t]))
     (\<lambda>text. Inr (case table_alias t of None \<Rightarrow> text | Some a \<Rightarrow> text @ '' as '' @ sql_identifier a))"

definition require_postgres_expression :: "dialect \<Rightarrow> string \<Rightarrow> sql_renderer \<Rightarrow> sql_renderer" where
  "require_postgres_expression d name m =
     (if supports_postgres_expressions d then m
      else raise_sql (ValueError ''does not support the PostgreSQL-only expression'' [dialect_name d, name]))"

definition compile_call :: "string \<Rightarrow> sql_renderer list \<Rightarrow> sql_renderer" where
  "compile_call name arguments = cat [lit (name @ ''(''), join_sql '', '' arguments, lit '')'']"

text \<open>Rendering a bound value: append it, then name its position or print the placeholder.\<close>

definition compile_value :: "py_value \<Rightarrow> dialect \<Rightarrow> sql_renderer" where
  "compile_value value d = (\<lambda>ps. let ps' = ps @ [value] in
     Inr (if placeholder d = ''?'' then ''?'' else ''$'' @ str_of_nat (length ps'), ps'))"

definition clock_sql :: "string \<Rightarrow> string" where
  "clock_sql kind =
     (if kind = ''current_date'' then ''current_date''
      else if kind = ''current_time'' then ''current_time''
      else if kind = ''local_time'' then ''localtime''
      else if kind = ''local_timestamp'' then ''localtimestamp''
      else kind @ ''()'')"

definition interval_cast :: "'v node \<Rightarrow> string" where
  "interval_cast n = (case n of ValueNode _ \<Rightarrow> ''::interval'' | _ \<Rightarrow> '''')"

text \<open>A keyword and a comma-separated list, left out when the list is empty.\<close>

definition clause :: "string \<Rightarrow> sql_renderer list \<Rightarrow> sql_renderer" where
  "clause keyword items =
     (case items of [] \<Rightarrow> lit '''' | _ \<Rightarrow> cat [lit keyword, join_sql '', '' items])"

definition optional_clause :: "string \<Rightarrow> sql_renderer option \<Rightarrow> sql_renderer" where
  "optional_clause keyword item = (case item of None \<Rightarrow> lit '''' | Some m \<Rightarrow> cat [lit keyword, m])"

definition limit_sql :: "'v select_node \<Rightarrow> dialect \<Rightarrow> string" where
  "limit_sql s d =
     (case limit_count s of
        Some n \<Rightarrow> '' limit '' @ str_of_int n
      | None \<Rightarrow> if offset_count s \<noteq> None \<and> offset_requires_limit d then '' limit -1'' else '''')
     @ (case offset_count s of None \<Rightarrow> '''' | Some n \<Rightarrow> '' offset '' @ str_of_int n)"

definition lock_sql :: "lock_clause \<Rightarrow> string" where
  "lock_sql l = '' for '' @ lock_strength l
     @ (if lock_of l = [] then ''''
        else '' of '' @ join_with '', '' (map (sql_identifier \<circ> table_reference) (lock_of l)))
     @ (case lock_wait l of None \<Rightarrow> '''' | Some w \<Rightarrow> '' '' @ w)"

text \<open>Each CTE of a \<open>WITH\<close> clause with the names its body is rendered or validated under.\<close>

fun cte_bindings :: "string set \<Rightarrow> string set \<Rightarrow> 'v cte list \<Rightarrow> ('v cte \<times> string set) list" where
  "cte_bindings outer prior [] = []"
| "cte_bindings outer prior (cte # rest) =
     (cte, outer \<union> prior \<union> (if cte_recursive cte then {cte_name cte} else {}))
     # cte_bindings outer (prior \<union> {cte_name cte}) rest"

lemma cte_bindings_mem: "(c, v) \<in> set (cte_bindings outer prior cs) \<Longrightarrow> c \<in> set cs"
  by (induction cs arbitrary: prior) auto

lemma map_fst_cte_bindings [simp]: "map fst (cte_bindings outer prior cs) = cs"
  by (induction cs arbitrary: prior) auto

lemma cte_binding_smaller:
  "(c, v) \<in> set (cte_bindings outer prior (ctes s)) \<Longrightarrow> query_size (cte_query c) < size s"
  by (intro cte_query_smaller) (rule cte_bindings_mem)

section \<open>Statements and expressions\<close>

text \<open>The order in which the renderers call each other: the size of what they render.\<close>

definition render_weight where
  "render_weight = case_sum
     (case_sum
       (case_sum (\<lambda>(s, _). 2 * size s)
         (case_sum (\<lambda>(q, _). 2 * query_size q) (\<lambda>(m, _). 2 * dml_size m)))
       (case_sum (\<lambda>(i, _). 2 * size_insert_node size size i)
         (case_sum (\<lambda>(c, _). 2 * size_conflict_node size c) (\<lambda>(u, _). 2 * size_update_node size u))))
     (case_sum
       (case_sum (\<lambda>(e, _). 2 * size_delete_node size e)
         (case_sum (\<lambda>(ns, _). 2 * size_list size ns) (\<lambda>(src, _). 2 * size_source_node size src)))
       (case_sum (\<lambda>(ord, _). 2 * size_order_node size ord)
         (case_sum (\<lambda>(t, _). 2 * size_temporal_node size t + 1) (\<lambda>(n, _). 2 * size n))))"

text \<open>
  The recursive renderers.  \<open>scope\<close> and \<open>outer\<close> are the source's \<open>outer_sources\<close>, which every
  renderer passes on.
\<close>

function compile_select :: "py_value select_node \<Rightarrow> dialect \<Rightarrow> string set \<Rightarrow> sql_renderer"
  and compile_cte_body :: "py_value query \<Rightarrow> dialect \<Rightarrow> string set \<Rightarrow> sql_renderer"
  and compile_dml :: "py_value dml \<Rightarrow> dialect \<Rightarrow> sql_renderer"
  and compile_insert :: "py_value insert \<Rightarrow> dialect \<Rightarrow> sql_renderer"
  and compile_conflict :: "py_value node conflict_node \<Rightarrow> dialect \<Rightarrow> sql_renderer"
  and compile_update :: "py_value update \<Rightarrow> dialect \<Rightarrow> sql_renderer"
  and compile_delete :: "py_value delete \<Rightarrow> dialect \<Rightarrow> sql_renderer"
  and compile_returning :: "py_value node list \<Rightarrow> dialect \<Rightarrow> sql_renderer"
  and compile_source :: "py_value source \<Rightarrow> dialect \<Rightarrow> string set \<Rightarrow> sql_renderer"
  and compile_order :: "py_value order \<Rightarrow> dialect \<Rightarrow> string set \<Rightarrow> sql_renderer"
  and compile_temporal :: "py_value node temporal_node \<Rightarrow> dialect \<Rightarrow> string set \<Rightarrow> sql_renderer"
  and compile_node :: "py_value node \<Rightarrow> dialect \<Rightarrow> string set \<Rightarrow> sql_renderer"
where
  "compile_select s d outer = (case from_source s of
     None \<Rightarrow> raise_sql (AssertionError ''attempted to render an unvalidated SELECT'')
   | Some f \<Rightarrow> (let
       cte_names = set (map cte_name (ctes s));
       scope = outer \<union> cte_names \<union> set (map reference (select_sources s));
       compiled_ctes = map (\<lambda>(cte, cte_sources). cat
           [lit (sql_identifier (cte_name cte) @ '' as''
                 @ (if cte_materialized cte then '' materialized'' else '''') @ '' (''),
            compile_cte_body (cte_query cte) d cte_sources, lit '')''])
         (cte_bindings outer {} (ctes s))
     in cat
       [if ctes s = [] then lit ''''
        else cat [lit (if \<exists>cte \<in> set (ctes s). cte_recursive cte then ''with recursive '' else ''with ''),
                  join_sql '', '' compiled_ctes, lit '' ''],
        lit (''select '' @ (if is_distinct s then ''distinct '' else '''')),
        join_sql '', '' (map (\<lambda>x. compile_node x d scope) (selections s)),
        lit '' from '', compile_source f d outer,
        cat (map (\<lambda>j. cat
          [lit ('' '' @ join_kind j @ '' join ''), compile_source (join_source j) d outer,
           if join_kind j = ''cross'' then lit ''''
           else cat [lit '' on '', compile_node (join_predicate j) d scope]]) (joins s)),
        optional_clause '' where '' (map_option (\<lambda>x. compile_node x d scope) (where_node s)),
        clause '' group by '' (map (\<lambda>x. compile_node x d scope) (group_by s)),
        optional_clause '' having '' (map_option (\<lambda>x. compile_node x d scope) (having_node s)),
        clause '' order by '' (map (\<lambda>x. compile_order x d scope) (order_by s)),
        lit (limit_sql s d),
        lit (concat (map lock_sql (locks s))),
        cat (map (\<lambda>c. cat [lit ('' '' @ compound_operator c @ '' ''),
               compile_select (compound_query c) d (outer \<union> cte_names)]) (compounds s))]))"
| "compile_cte_body (SelectQ q) d outer = compile_select q d outer"
| "compile_cte_body (DmlQ q) d outer =
     (if \<not> supports_data_modifying_ctes d
      then raise_sql (ValueError ''does not support data-modifying common table expressions'' [dialect_name d])
      else compile_dml q d)"
| "compile_dml (InsertDml i) d = compile_insert i d"
| "compile_dml (UpdateDml u) d = compile_update u d"
| "compile_dml (DeleteDml e) d = compile_delete e d"
| "compile_insert (InsertNode table source conflict returning) d = (let
     finish = (\<lambda>columns body. cat
       [lit ''insert into '', lift_sql (compile_table table d),
        lit ('' ('' @ join_with '', '' (map sql_identifier columns) @ '') '' @ body),
        case conflict of None \<Rightarrow> lit '''' | Some c \<Rightarrow> compile_conflict c d,
        compile_returning returning d])
     in case source of
          None \<Rightarrow> raise_sql (AssertionError ''attempted to render an INSERT without a source'')
        | Some (InsertValuesSourceNode values) \<Rightarrow>
            bind_sql (cat [lit ''values ('',
                join_sql '', '' (map (\<lambda>(column, value). compile_node value d {}) values), lit '')''])
              (finish (map fst values))
        | Some (InsertRowsSourceNode rows) \<Rightarrow> (case rows of
              [] \<Rightarrow> raise_sql (IndexError ''tuple index out of range'')
            | first # _ \<Rightarrow>
                bind_sql (cat [lit ''values '', join_sql '', '' (map (\<lambda>row. cat [lit ''('',
                    join_sql '', '' (map (\<lambda>(column, value). compile_node value d {}) row),
                    lit '')'']) rows)])
                  (finish (map fst first)))
        | Some (InsertSelectSourceNode query columns) \<Rightarrow>
            bind_sql (compile_select query d {}) (finish columns)
        | Some DefaultValuesSourceNode \<Rightarrow>
            cat [lit ''insert into '', lift_sql (compile_table table d), lit '' default values'',
                 compile_returning returning d])"
| "compile_conflict (ConflictNode columns action assignments arbiter_where action_where) d =
     bind_sql (cat
       [lit (if columns = [] then ''''
             else '' ('' @ join_with '', '' (map sql_identifier columns) @ '')''),
        case arbiter_where of
          None \<Rightarrow> lit ''''
        | Some predicate \<Rightarrow>
            if columns = []
            then raise_sql (AssertionError ''a conflict arbiter predicate requires target columns'')
            else cat [lit '' where '', lift_sql (compile_index_predicate predicate)]])
       (\<lambda>target.
         if action = ''nothing'' then
           (if action_where \<noteq> None
            then raise_sql (AssertionError ''ON CONFLICT DO NOTHING cannot carry an update predicate'')
            else lit ('' on conflict'' @ target @ '' do nothing''))
         else if action = ''update'' then
           (if assignments = []
            then raise_sql (ValueError ''ON CONFLICT DO UPDATE requires at least one assignment'' [])
            else cat [lit ('' on conflict'' @ target @ '' do update set ''),
              join_sql '', '' (map (\<lambda>(column, value).
                cat [lit (sql_identifier column @ '' = ''), compile_node value d {}]) assignments),
              optional_clause '' where '' (map_option (\<lambda>x. compile_node x d {}) action_where)])
         else raise_sql (ValueError ''unsupported conflict action'' [action]))"
| "compile_update (UpdateNode table values where_opt bounded returning) d =
     bind_sql (join_sql '', '' (map (\<lambda>(column, value).
         cat [lit (sql_identifier column @ '' = ''), compile_node value d {}]) values))
       (\<lambda>assigned. cat
         [lit ''update '', lift_sql (compile_table table d), lit ('' set '' @ assigned),
          optional_clause '' where '' (map_option (\<lambda>x. compile_node x d {}) where_opt),
          compile_returning returning d])"
| "compile_delete (DeleteNode table where_opt bounded returning) d = cat
     [lit ''delete from '', lift_sql (compile_table table d),
      optional_clause '' where '' (map_option (\<lambda>x. compile_node x d {}) where_opt),
      compile_returning returning d]"
| "compile_returning nodes d =
     (if nodes = [] then lit ''''
      else if \<not> supports_returning d
      then raise_sql (ValueError ''does not support RETURNING'' [dialect_name d])
      else cat [lit '' returning '', join_sql '', '' (map (\<lambda>x. compile_node x d {}) nodes)])"
| "compile_source (TableSource t) d outer = lift_sql (compile_table t d)"
| "compile_source (CteSourceNode name) d outer = lit (sql_identifier name)"
| "compile_source (DerivedSourceNode query alias) d outer =
     cat [lit ''('', compile_select query d outer, lit ('') as '' @ sql_identifier alias)]"
| "compile_order (OrderNode expression direction nulls) d scope =
     cat [compile_node expression d scope, lit ('' '' @ direction),
      case nulls of
        None \<Rightarrow> lit ''''
      | Some n \<Rightarrow> if n \<notin> {''first'', ''last''} then raise_sql (ValueError ''unsupported NULL placement'' [n])
                  else lit ('' nulls '' @ n)]"
| "compile_temporal (TemporalClockNode kind) d scope = lit (clock_sql kind)"
| "compile_temporal (TemporalMakeDateNode year month day) d scope =
     compile_call ''make_date'' (map (\<lambda>x. compile_node x d scope) [year, month, day])"
| "compile_temporal (TemporalMakeTimeNode hour minute second) d scope =
     compile_call ''make_time'' (map (\<lambda>x. compile_node x d scope) [hour, minute, second])"
| "compile_temporal (TemporalMakeTimestampNode year month day hour minute second) d scope =
     compile_call ''make_timestamp''
       (map (\<lambda>x. compile_node x d scope) [year, month, day, hour, minute, second])"
| "compile_temporal (TemporalMakeTimestamptzNode year month day hour minute second zone) d scope =
     compile_call ''make_timestamptz'' (map (\<lambda>x. compile_node x d scope)
       ([year, month, day, hour, minute, second] @ (case zone of None \<Rightarrow> [] | Some z \<Rightarrow> [z])))"
| "compile_temporal (TemporalMakeIntervalNode components) d scope =
     compile_call ''make_interval'' (map (\<lambda>(name, value).
       cat [lit (name @ '' => ''), compile_node value d scope]) components)"
| "compile_temporal (TemporalEpochNode seconds) d scope =
     compile_call ''to_timestamp'' [compile_node seconds d scope]"
| "compile_temporal (TemporalArithmeticNode timestamp operator interval) d scope =
     bind_sql (compile_node interval d scope) (\<lambda>interval_sql.
       cat [lit ''('', compile_node timestamp d scope,
            lit ('' '' @ operator @ '' '' @ interval_sql @ interval_cast interval @ '')'')])"
| "compile_temporal (TemporalDifferenceNode left right) d scope =
     cat [lit ''('', compile_node left d scope, lit '' - '', compile_node right d scope, lit '')'']"
| "compile_temporal (TemporalIntervalUnaryNode interval) d scope =
     cat [lit ''(-'', compile_node interval d scope, lit '')'']"
| "compile_temporal (TemporalIntervalScaleNode interval operator factor) d scope =
     cat [lit ''('', compile_node interval d scope, lit ('' '' @ operator @ '' ''),
          compile_node factor d scope, lit '')'']"
| "compile_temporal (TemporalTimezoneNode expression zone) d scope =
     cat [lit ''('', compile_node expression d scope, lit '' at time zone '',
          compile_node zone d scope, lit '')'']"
| "compile_temporal (TemporalExtractNode field expression) d scope =
     cat [lit (''extract('' @ sql_literal field @ '' from ''), compile_node expression d scope, lit '')'']"
| "compile_temporal (TemporalTruncNode unit_name expression) d scope =
     compile_call ''date_trunc'' [lit (sql_literal unit_name), compile_node expression d scope]"
| "compile_temporal (TemporalTruncTimestamptzNode unit_name expression zone) d scope =
     compile_call ''date_trunc''
       [lit (sql_literal unit_name), compile_node expression d scope, compile_node zone d scope]"
| "compile_temporal (TemporalBinNode stride expression origin) d scope =
     compile_call ''date_bin''
       [cat [compile_node stride d scope, lit (interval_cast stride)],
        compile_node expression d scope, compile_node origin d scope]"
| "compile_temporal (TemporalAgeNode left right) d scope =
     compile_call ''age'' [compile_node left d scope, compile_node right d scope]"
| "compile_temporal (TemporalOverlapsNode left_start left_end right_start right_end) d scope =
     cat [lit ''(('', compile_node left_start d scope, lit '', '', compile_node left_end d scope,
          lit '') overlaps ('', compile_node right_start d scope, lit '', '',
          compile_node right_end d scope, lit ''))'']"
| "compile_temporal (TemporalJustifyNode kind interval) d scope =
     compile_call kind [compile_node interval d scope]"
| "compile_node (ColumnNode source name) d scope = lit (qualified_column source name)"
| "compile_node (ValueNode value) d scope = compile_value value d"
| "compile_node (TemporalNode t) d scope = compile_temporal t d scope"
| "compile_node (BinaryNode left operator right) d scope =
     cat [lit ''('', compile_node left d scope, lit ('' '' @ operator @ '' ''),
          compile_node right d scope, lit '')'']"
| "compile_node (UnaryNode operator operand) d scope =
     cat [lit ''('', compile_node operand d scope, lit ('' '' @ operator @ '')'')]"
| "compile_node (FunctionNode name arguments) d scope =
     compile_call name (map (\<lambda>x. compile_node x d scope) arguments)"
| "compile_node (CaseNode branches otherwise) d scope =
     cat [lit ''case '', join_sql '' '' (map (\<lambda>(condition, value).
            cat [lit ''when '', compile_node condition d scope, lit '' then '',
                 compile_node value d scope]) branches),
          lit '' else '', compile_node otherwise d scope, lit '' end'']"
| "compile_node (AggregateNode name arguments filter_node) d scope =
     cat [compile_call name (map (\<lambda>x. compile_node x d scope) arguments),
          case filter_node of
            None \<Rightarrow> lit ''''
          | Some f \<Rightarrow> cat [lit '' filter (where '', compile_node f d scope, lit '')'']]"
| "compile_node (WindowNode expression partition_by orders frame exclusion) d scope =
     (if exclusion \<noteq> None \<and> frame = None
      then raise_sql (ValueError ''window exclusions require an explicit frame'' [])
      else bind_sql (join_sql '' ''
          ((if partition_by = [] then []
            else [cat [lit ''partition by '',
                       join_sql '', '' (map (\<lambda>x. compile_node x d scope) partition_by)]])
           @ (if orders = [] then []
              else [cat [lit ''order by '',
                         join_sql '', '' (map (\<lambda>x. compile_order x d scope) orders)]])
           @ (case frame of None \<Rightarrow> [] | Some fr \<Rightarrow> [lift_sql (compile_window_frame fr orders exclusion)])))
        (\<lambda>clauses. cat [compile_node expression d scope, lit ('' over ('' @ clauses @ '')'')]))"
| "compile_node (AliasNode expression alias) d scope =
     cat [compile_node expression d scope, lit ('' as '' @ sql_identifier alias)]"
| "compile_node (NullableResultNode expression) d scope = compile_node expression d scope"
| "compile_node StarNode d scope = lit ''*''"
| "compile_node (InNode expression (InSelect query) negated) d scope =
     cat [lit ''('', compile_node expression d scope, lit (if negated then '' not in ('' else '' in (''),
          compile_select query d scope, lit ''))'']"
| "compile_node (InNode expression (InList values) negated) d scope =
     cat [lit ''('', compile_node expression d scope, lit (if negated then '' not in ('' else '' in (''),
          join_sql '', '' (map (\<lambda>x. compile_node x d scope) values), lit ''))'']"
| "compile_node (BetweenNode expression lower upper negated) d scope =
     cat [lit ''('', compile_node expression d scope,
          lit (if negated then '' not between '' else '' between ''),
          compile_node lower d scope, lit '' and '', compile_node upper d scope, lit '')'']"
| "compile_node (ScalarSubqueryNode query) d scope =
     cat [lit ''('', compile_select query d scope, lit '')'']"
| "compile_node (ExistsNode query negated) d scope =
     cat [lit (if negated then ''not exists ('' else ''exists (''),
          compile_select query d scope, lit '')'']"
| "compile_node (ExcludedNode source name) d scope = lit (''excluded.'' @ sql_identifier name)"
| "compile_node (JsonTextNode value key) d scope =
     require_postgres_expression d ''json_text()''
       (cat [lit ''('', compile_node value d scope, lit '' ->> '', compile_node key d scope, lit '')''])"
| "compile_node (RegexMatchNode value pattern insensitive) d scope =
     require_postgres_expression d ''regex_match()''
       (cat [lit ''('', compile_node value d scope, lit (if insensitive then '' ~* '' else '' ~ ''),
             compile_node pattern d scope, lit '')''])"
| "compile_node (UuidCastNode value) d scope =
     require_postgres_expression d ''cast_uuid()''
       (cat [lit ''cast('', compile_node value d scope, lit '' as uuid)''])"
  by pat_completeness auto

termination
  apply (relation "measure render_weight")
                      apply (simp_all add: render_weight_def select_parts_smaller size_node_list
                        elem_lt_size_list)
                apply (auto dest: pair_smaller row_smaller cte_binding_smaller size_node_list
                  elem_lt_size_list [where f = "size_order_node size"])
  done

declare compile_select.simps [simp del] compile_returning.simps [simp del]

section \<open>Entry points\<close>

fun render_statement :: "py_value query \<Rightarrow> dialect \<Rightarrow> sql_renderer" where
  "render_statement (SelectQ s) d = compile_select s d {}"
| "render_statement (DmlQ m) d = compile_dml m d"

definition render_query :: "py_value query \<Rightarrow> dialect \<Rightarrow> compiled_query result" where
  "render_query q d = and_then (render_statement q d []) (\<lambda>(text, ps).
     case max_parameters d of
       Some limit \<Rightarrow>
         if length ps > limit
         then Inl (ValueError ''supports at most this many parameters per statement''
                [dialect_name d, str_of_nat limit, str_of_nat (length ps)])
         else Inr \<lparr>sql = text, parameters = ps\<rparr>
     | None \<Rightarrow> Inr \<lparr>sql = text, parameters = ps\<rparr>)"

definition count_parameters :: "py_value node + py_value query \<Rightarrow> dialect \<Rightarrow> nat result" where
  "count_parameters node d = and_then
     (case node of Inl n \<Rightarrow> compile_node n d {} [] | Inr q \<Rightarrow> render_statement q d [])
     (\<lambda>(text, ps). Inr (length ps))"

text \<open>The equations that run the renderer on a concrete statement.\<close>

lemmas render_eval [py_eval] = lit_def raise_sql_def bind_sql_def lift_sql_def cat_def join_sql_def
  sql_identifier_def single_quote_def backslash_def sql_literal_def qualified_column_def
  compile_table_def require_postgres_expression_def compile_call_def compile_value_def clock_sql_def
  interval_cast_def clause_def optional_clause_def limit_sql_def lock_sql_def
  compile_window_frame_def compile_frame_boundary_def frame_has_offset_def
  compile_select.simps [of "SelectNode a1 a2 a3 a4 a5 a6 a7 a8 a9 a10 a11 a12 a13"
    for a1 a2 a3 a4 a5 a6 a7 a8 a9 a10 a11 a12 a13]
  compile_returning.simps [of "[]"] compile_returning.simps [of "n # ns" for n ns]
  render_query_def count_parameters_def

end
