(* ===== verification/Grouping.thy ===== *)
theory Grouping
  imports Scopes
begin

text \<open>
  \<open>relq/_compiler/grouping.py\<close>: the placement of aggregates and windows, and the rule that a grouped
  query uses a local column outside an aggregate only when its \<open>GROUP BY\<close> determines it.
\<close>

section \<open>Aggregates and windows in an expression\<close>

fun is_aggregate :: "'v node \<Rightarrow> bool" where
  "is_aggregate (AggregateNode name arguments filter_node) = True"
| "is_aggregate _ = False"

fun is_window :: "'v node \<Rightarrow> bool" where
  "is_window (WindowNode expression partition_by orders frame exclusion) = True"
| "is_window _ = False"

function contains_analytic :: "bool \<Rightarrow> bool \<Rightarrow> 'v node \<Rightarrow> bool" where
  "contains_analytic aggregate window n =
     (if is_aggregate n \<and> aggregate then True
      else if is_window n then window
      else (\<exists>child \<in> set (children n). contains_analytic aggregate window child))"
  by pat_completeness auto
termination
  by (relation "measure (\<lambda>(_, _, n). size n)") (simp_all add: children_smaller)

declare contains_analytic.simps [simp del]

definition contains_aggregate :: "'v node \<Rightarrow> bool" where
  "contains_aggregate = contains_analytic True False"

definition contains_window :: "'v node option \<Rightarrow> bool" where
  "contains_window n = (case n of None \<Rightarrow> False | Some e \<Rightarrow> contains_analytic False True e)"

definition contains_aggregate_or_window :: "'v node option \<Rightarrow> bool" where
  "contains_aggregate_or_window n = (case n of None \<Rightarrow> False | Some e \<Rightarrow> contains_analytic True True e)"

function visit_nesting :: "bool \<Rightarrow> 'v node \<Rightarrow> unit result" where
  "visit_nesting inside_aggregate current =
     (if is_aggregate current then
        (if inside_aggregate
         then Inl (ValueError ''aggregate expressions cannot contain another aggregate'' [])
         else checks (map (visit_nesting True) (children current)))
      else if is_window current then
        (if inside_aggregate
         then Inl (ValueError ''aggregate expressions cannot contain window expressions'' [])
         else checks (map (visit_nesting False) (children current)))
      else checks (map (visit_nesting inside_aggregate) (children current)))"
  by pat_completeness auto
termination
  by (relation "measure (\<lambda>(_, n). size n)") (simp_all add: children_smaller)

declare visit_nesting.simps [simp del]

definition validate_aggregate_nesting :: "'v node \<Rightarrow> unit result" where
  "validate_aggregate_nesting n = visit_nesting False n"

definition validate_analytic_clauses :: "'v select_node \<Rightarrow> unit result" where
  "validate_analytic_clauses s = checks (
     [raise_if (contains_aggregate_or_window (where_node s)) (ValueError
        ''WHERE cannot contain aggregate or window expressions; use HAVING or a subquery'' [])]
     @ map (\<lambda>expression. case expression of
         AliasNode e alias \<Rightarrow> Inl (TypeError
           ''GROUP BY expressions cannot be aliased; group the underlying expression'' [])
       | _ \<Rightarrow> raise_if (contains_aggregate_or_window (Some expression)) (ValueError
           ''GROUP BY cannot contain aggregate or window expressions'' [])) (group_by s)
     @ [raise_if (contains_window (having_node s)) (ValueError
          ''HAVING cannot contain window expressions; use a derived query'' [])]
     @ map validate_aggregate_nesting (selections s @ present [having_node s])
     @ map validate_aggregate_nesting (order_expressions s))"

section \<open>Grouped queries\<close>

text \<open>
  \<open>frozenset(node.group_by)\<close> and \<open>node in grouped\<close> hash their nodes.  A frozen dataclass hashes all of
  its fields, so a list bound anywhere below a node makes hashing it raise \<open>TypeError\<close>; and its
  equality is that of the fields, Python's equality at the bound values.
\<close>

definition node_hashable :: "py_value node \<Rightarrow> bool" where
  "node_hashable n \<longleftrightarrow> (\<forall>v \<in> set_node n. py_hashable v)"

definition node_eq :: "py_value node \<Rightarrow> py_value node \<Rightarrow> bool" where
  "node_eq a b \<longleftrightarrow> map_node py_canon a = map_node py_canon b"

definition unhashable_list :: exn where
  "unhashable_list = TypeError ''unhashable type'' [''list'']"

definition local_sources :: "'v select_node \<Rightarrow> string set" where
  "local_sources s = (case from_source s of
       None \<Rightarrow> {}
     | Some f \<Rightarrow> {reference f} \<union> set (map (reference \<circ> join_source) (joins s)))"

definition grouped_expressions :: "'v select_node \<Rightarrow> (string \<times> 'v node) list" where
  "grouped_expressions s =
     map (Pair ''SELECT'') (selections s)
     @ (case having_node s of None \<Rightarrow> [] | Some h \<Rightarrow> [(''HAVING'', h)])
     @ map (Pair ''ORDER BY'') (order_expressions s)"

fun column_of :: "'v node \<Rightarrow> (string \<times> string) option" where
  "column_of (ColumnNode source name) = Some (source, name)"
| "column_of _ = None"

function ungrouped_local_columns ::
  "py_value node \<Rightarrow> py_value node list \<Rightarrow> string set \<Rightarrow> (string \<times> string) set result" where
  "ungrouped_local_columns n grouped locals =
     (if \<not> node_hashable n then Inl unhashable_list
      else if list_ex (node_eq n) grouped then Inr {}
      else case column_of n of
          Some column \<Rightarrow> Inr (if fst column \<in> locals then {column} else {})
        | None \<Rightarrow>
            if is_aggregate n then Inr {}
            else and_then
              (map_results (\<lambda>child. ungrouped_local_columns child grouped locals) (children n))
              (\<lambda>columns. Inr (\<Union> (set columns))))"
  by pat_completeness auto
termination
  by (relation "measure (\<lambda>(n, _). size n)") (simp_all add: children_smaller)

declare ungrouped_local_columns.simps [simp del]

definition has_aggregate :: "'v select_node \<Rightarrow> bool" where
  "has_aggregate s \<longleftrightarrow>
     (\<exists>e \<in> set (selections s @ present [having_node s] @ order_expressions s). contains_aggregate e)"

definition validate_grouping :: "py_value select_node \<Rightarrow> unit result" where
  "validate_grouping s =
     (if having_node s \<noteq> None \<and> group_by s = [] \<and> \<not> has_aggregate s
      then Inl (ValueError ''HAVING requires GROUP BY or an aggregate expression'' [])
      else if group_by s = [] \<and> \<not> has_aggregate s then Inr ()
      else checks (
        raise_if (\<exists>e \<in> set (group_by s). \<not> node_hashable e) unhashable_list
        # map (\<lambda>(clause, expression).
            and_then (ungrouped_local_columns expression (group_by s) (local_sources s))
              (\<lambda>ungrouped. raise_if (ungrouped \<noteq> {}) (ValueError
                 ''references ungrouped local column(s)''
                 (clause # map (\<lambda>(source, name). source @ ''.'' @ name) (sorted_list_of_set ungrouped)))))
          (grouped_expressions s)))"

text \<open>The equations of the recursive checks at each variant, for evaluation.\<close>

lemmas contains_analytic_eval [py_eval] =
  contains_analytic.simps [of _ _ "ColumnNode a1 a2" for a1 a2]
  contains_analytic.simps [of _ _ "ValueNode a1" for a1]
  contains_analytic.simps [of _ _ "TemporalNode a1" for a1]
  contains_analytic.simps [of _ _ "BinaryNode a1 a2 a3" for a1 a2 a3]
  contains_analytic.simps [of _ _ "UnaryNode a1 a2" for a1 a2]
  contains_analytic.simps [of _ _ "FunctionNode a1 a2" for a1 a2]
  contains_analytic.simps [of _ _ "CaseNode a1 a2" for a1 a2]
  contains_analytic.simps [of _ _ "AggregateNode a1 a2 a3" for a1 a2 a3]
  contains_analytic.simps [of _ _ "WindowNode a1 a2 a3 a4 a5" for a1 a2 a3 a4 a5]
  contains_analytic.simps [of _ _ "AliasNode a1 a2" for a1 a2]
  contains_analytic.simps [of _ _ "NullableResultNode a1" for a1]
  contains_analytic.simps [of _ _ "StarNode"]
  contains_analytic.simps [of _ _ "InNode a1 a2 a3" for a1 a2 a3]
  contains_analytic.simps [of _ _ "BetweenNode a1 a2 a3 a4" for a1 a2 a3 a4]
  contains_analytic.simps [of _ _ "ScalarSubqueryNode a1" for a1]
  contains_analytic.simps [of _ _ "ExistsNode a1 a2" for a1 a2]
  contains_analytic.simps [of _ _ "ExcludedNode a1 a2" for a1 a2]
  contains_analytic.simps [of _ _ "JsonTextNode a1 a2" for a1 a2]
  contains_analytic.simps [of _ _ "RegexMatchNode a1 a2 a3" for a1 a2 a3]
  contains_analytic.simps [of _ _ "UuidCastNode a1" for a1]

lemmas visit_nesting_eval [py_eval] =
  visit_nesting.simps [of _ "ColumnNode a1 a2" for a1 a2]
  visit_nesting.simps [of _ "ValueNode a1" for a1] visit_nesting.simps [of _ "TemporalNode a1" for a1]
  visit_nesting.simps [of _ "BinaryNode a1 a2 a3" for a1 a2 a3]
  visit_nesting.simps [of _ "UnaryNode a1 a2" for a1 a2]
  visit_nesting.simps [of _ "FunctionNode a1 a2" for a1 a2]
  visit_nesting.simps [of _ "CaseNode a1 a2" for a1 a2]
  visit_nesting.simps [of _ "AggregateNode a1 a2 a3" for a1 a2 a3]
  visit_nesting.simps [of _ "WindowNode a1 a2 a3 a4 a5" for a1 a2 a3 a4 a5]
  visit_nesting.simps [of _ "AliasNode a1 a2" for a1 a2]
  visit_nesting.simps [of _ "NullableResultNode a1" for a1] visit_nesting.simps [of _ "StarNode"]
  visit_nesting.simps [of _ "InNode a1 a2 a3" for a1 a2 a3]
  visit_nesting.simps [of _ "BetweenNode a1 a2 a3 a4" for a1 a2 a3 a4]
  visit_nesting.simps [of _ "ScalarSubqueryNode a1" for a1]
  visit_nesting.simps [of _ "ExistsNode a1 a2" for a1 a2]
  visit_nesting.simps [of _ "ExcludedNode a1 a2" for a1 a2]
  visit_nesting.simps [of _ "JsonTextNode a1 a2" for a1 a2]
  visit_nesting.simps [of _ "RegexMatchNode a1 a2 a3" for a1 a2 a3]
  visit_nesting.simps [of _ "UuidCastNode a1" for a1]

lemmas ungrouped_eval [py_eval] =
  ungrouped_local_columns.simps [of "ColumnNode a1 a2" for a1 a2]
  ungrouped_local_columns.simps [of "ValueNode a1" for a1]
  ungrouped_local_columns.simps [of "TemporalNode a1" for a1]
  ungrouped_local_columns.simps [of "BinaryNode a1 a2 a3" for a1 a2 a3]
  ungrouped_local_columns.simps [of "UnaryNode a1 a2" for a1 a2]
  ungrouped_local_columns.simps [of "FunctionNode a1 a2" for a1 a2]
  ungrouped_local_columns.simps [of "CaseNode a1 a2" for a1 a2]
  ungrouped_local_columns.simps [of "AggregateNode a1 a2 a3" for a1 a2 a3]
  ungrouped_local_columns.simps [of "WindowNode a1 a2 a3 a4 a5" for a1 a2 a3 a4 a5]
  ungrouped_local_columns.simps [of "AliasNode a1 a2" for a1 a2]
  ungrouped_local_columns.simps [of "NullableResultNode a1" for a1]
  ungrouped_local_columns.simps [of "StarNode"]
  ungrouped_local_columns.simps [of "InNode a1 a2 a3" for a1 a2 a3]
  ungrouped_local_columns.simps [of "BetweenNode a1 a2 a3 a4" for a1 a2 a3 a4]
  ungrouped_local_columns.simps [of "ScalarSubqueryNode a1" for a1]
  ungrouped_local_columns.simps [of "ExistsNode a1 a2" for a1 a2]
  ungrouped_local_columns.simps [of "ExcludedNode a1 a2" for a1 a2]
  ungrouped_local_columns.simps [of "JsonTextNode a1 a2" for a1 a2]
  ungrouped_local_columns.simps [of "RegexMatchNode a1 a2 a3" for a1 a2 a3]
  ungrouped_local_columns.simps [of "UuidCastNode a1" for a1]

lemmas grouping_eval [py_eval] = contains_aggregate_def contains_window_def
  contains_aggregate_or_window_def validate_aggregate_nesting_def validate_analytic_clauses_def
  node_hashable_def node_eq_def local_sources_def grouped_expressions_def has_aggregate_def
  validate_grouping_def

section \<open>What the placement checks mean\<close>

text \<open>
  The analytic nodes the two checks look for are exactly those the walk of the expression visits: an
  analytic node below another one does not change the answer.
\<close>

lemma contains_aggregate_or_window_iff:
  "contains_analytic True True n \<longleftrightarrow> (\<exists>m \<in> set (walk n). is_aggregate m \<or> is_window m)"
proof (induction n rule: ast.kids_induct)
  case (1 n)
  then show ?case
    by (simp add: contains_analytic.simps [of _ _ n] ast.ex_visit [of n])
qed

lemma contains_window_iff:
  "contains_analytic False True n \<longleftrightarrow> (\<exists>m \<in> set (walk n). is_window m)"
proof (induction n rule: ast.kids_induct)
  case (1 n)
  then show ?case
    by (simp add: contains_analytic.simps [of _ _ n] ast.ex_visit [of n])
qed

lemma visit_nesting_inside:
  "visit_nesting True n = Inr () \<longleftrightarrow> (\<forall>m \<in> set (walk n). \<not> is_aggregate m \<and> \<not> is_window m)"
proof (induction n rule: ast.kids_induct)
  case (1 n)
  then show ?case
    by (simp add: visit_nesting.simps [of _ n] ast.all_visit [of n] checks_ok)
qed

lemma visit_nesting_outside:
  "visit_nesting False n = Inr () \<longleftrightarrow>
     (\<forall>m \<in> set (walk n). is_aggregate m \<longrightarrow>
        (\<forall>c \<in> set (children m). \<forall>k \<in> set (walk c). \<not> is_aggregate k \<and> \<not> is_window k))"
proof (induction n rule: ast.kids_induct)
  case (1 n)
  show ?case
  proof (cases "is_aggregate n")
    case True
    have "\<forall>c \<in> set (children n). \<forall>m \<in> set (walk c). \<not> is_aggregate m"
      if "\<forall>c \<in> set (children n). \<forall>k \<in> set (walk c). \<not> is_aggregate k \<and> \<not> is_window k"
      using that by blast
    with True show ?thesis
      by (auto simp: visit_nesting.simps [of _ n] ast.set_visit [of n] checks_ok visit_nesting_inside)
  next
    case False
    with 1 show ?thesis
      by (auto simp: visit_nesting.simps [of _ n] ast.all_visit [of n] checks_ok)
  qed
qed



section \<open>Grouping is sound\<close>

text \<open>Equality of nodes up to Python's equality of their values, and what it preserves.\<close>

lemma children_map_node: "children (map_node f n) = map (map_node f) (children n)"
proof (cases n)
  case (TemporalNode t)
  then show ?thesis by (cases t) (auto split: option.splits)
next
  case (InNode e vs neg)
  then show ?thesis by (cases vs) auto
next
  case (WindowNode e ps os fr ex)
  have "order_expression (map_order_node (map_node f) ord) = map_node f (order_expression ord)" for ord
    by (cases ord) simp
  with WindowNode show ?thesis by simp
qed (auto split: option.splits simp: map_concat comp_def case_prod_unfold)

lemma py_canon_idem [simp]: "py_canon (py_canon v) = py_canon v"
  by (induction v rule: py_canon.induct) simp_all

lemma canon_idem [simp]: "map_node py_canon (map_node py_canon n) = map_node py_canon n"
  by (simp add: node.map_comp comp_def)

lemma node_kind_map [simp]:
  "column_of (map_node f n) = column_of n" "is_aggregate (map_node f n) = is_aggregate n"
  "direct_subquery (map_node f n) = map_option (map_select_node f) (direct_subquery n)"
proof -
  show "column_of (map_node f n) = column_of n" "is_aggregate (map_node f n) = is_aggregate n"
    by (cases n; simp)+
  show "direct_subquery (map_node f n) = map_option (map_select_node f) (direct_subquery n)"
    by (cases n rule: direct_subquery.cases) simp_all
qed
text \<open>
  The value of an expression in one row of a group.  The operators (\<open>op\<close>), the aggregates of the group
  (\<open>agg\<close>) and the embedded subqueries (\<open>sub\<close>, which may read the row) are arbitrary functions; they
  cannot tell equal values apart.
\<close>

function group_value ::
  "(py_value node \<Rightarrow> 'a list \<Rightarrow> 'a) \<Rightarrow> (py_value node \<Rightarrow> 'a)
     \<Rightarrow> (py_value node \<Rightarrow> (string \<times> string \<Rightarrow> 'a) \<Rightarrow> 'a)
     \<Rightarrow> (string \<times> string \<Rightarrow> 'a) \<Rightarrow> py_value node \<Rightarrow> 'a" where
  "group_value op agg sub row n =
     (case column_of n of
        Some column \<Rightarrow> row column
      | None \<Rightarrow>
          if is_aggregate n then agg (map_node py_canon n)
          else if direct_subquery n \<noteq> None then sub (map_node py_canon n) row
          else op (map_node py_canon n) (map (group_value op agg sub row) (children n)))"
  by pat_completeness auto
termination
  by (relation "measure (\<lambda>(_, _, _, _, n). size n)") (simp_all add: children_smaller)

declare group_value.simps [simp del]

lemma group_value_canon:
  "group_value op agg sub row (map_node py_canon n) = group_value op agg sub row n"
proof (induction n rule: ast.kids_induct)
  case (1 n)
  then show ?case
    by (auto simp: group_value.simps [of _ _ _ _ n]
        group_value.simps [of _ _ _ _ "map_node py_canon n"] children_map_node
        cong: map_cong split: option.splits)
qed

lemma group_value_eq: "node_eq a b \<Longrightarrow> group_value op agg sub row a = group_value op agg sub row b"
  unfolding node_eq_def by (metis group_value_canon)

lemma ungrouped_columns_sound:
  assumes "ungrouped_local_columns n grouped locals = Inr {}"
    and "\<And>g. g \<in> set grouped \<Longrightarrow> group_value op agg sub row g = group_value op agg sub row' g"
    and "\<And>src c. src \<notin> locals \<Longrightarrow> row (src, c) = row' (src, c)"
    and "\<And>m. m \<in> set (walk n) \<Longrightarrow> direct_subquery m = None"
  shows "group_value op agg sub row n = group_value op agg sub row' n"
  using assms
proof (induction n rule: ast.kids_induct)
  case (1 n)
  consider (grouped) g where "g \<in> set grouped" "node_eq n g"
    | (column) src c where "column_of n = Some (src, c)" "src \<notin> locals"
    | (aggregate) "column_of n = None" "is_aggregate n"
    | (operator) "column_of n = None" "\<not> is_aggregate n"
        "\<forall>k \<in> set (children n). ungrouped_local_columns k grouped locals = Inr {}"
    using 1(2) unfolding ungrouped_local_columns.simps [of n]
    by (fastforce simp: list_ex_iff and_then_ok map_results_ok list_all2_conv_all_nth set_conv_nth
        split: if_splits option.splits)
  then show ?case
  proof cases
    case grouped
    then show ?thesis using 1(3) group_value_eq by metis
  next
    case column
    then show ?thesis using 1(4) by (simp add: group_value.simps [of _ _ _ _ n])
  next
    case aggregate
    then show ?thesis by (simp add: group_value.simps [of _ _ _ _ n])
  next
    case operator
    have "\<forall>k \<in> set (children n). group_value op agg sub row k = group_value op agg sub row' k"
      using 1(1) [OF _ _ 1(3,4)] operator(3) 1(5) by (auto simp: ast.set_visit [of n])
    moreover have "direct_subquery n = None"
      using 1(5) ast.visit_root by blast
    ultimately show ?thesis
      using operator by (simp add: group_value.simps [of _ _ _ _ n] cong: map_cong)
  qed
qed



end
