(* ===== verification/Validation.thy ===== *)
theory Validation
  imports Render Grouping
begin

text \<open>
  \<open>relq/_compiler/validation.py\<close>: what a statement must satisfy before it is rendered.  A check is a
  value of \<open>unit result\<close>; a function of the source that runs checks in sequence is \<open>checks\<close> of their
  list, in the source's order, so that the first failing check decides the exception.
\<close>

section \<open>Sources and the scope of a SELECT\<close>

definition undeclared_cte :: "string \<Rightarrow> exn" where
  "undeclared_cte name = ValueError ''query references CTE before it is declared'' [name]"

fun cte_source_name :: "'v source \<Rightarrow> string option" where
  "cte_source_name (CteSourceNode name) = Some name"
| "cte_source_name _ = None"

definition check_cte_source :: "string set \<Rightarrow> 'v source \<Rightarrow> unit result" where
  "check_cte_source visible source = (case cte_source_name source of
       None \<Rightarrow> Inr ()
     | Some name \<Rightarrow> raise_if (name \<notin> visible) (undeclared_cte name))"

definition add_source :: "string \<Rightarrow> string set \<times> string set \<Rightarrow> (string set \<times> string set) result" where
  "add_source ref scope = (case scope of (available, local) \<Rightarrow>
     if ref \<in> local
     then Inl (ValueError ''each FROM/JOIN source needs a distinct table name or alias'' [])
     else Inr (insert ref available, insert ref local))"

text \<open>The join loop of \<open>validate_sources\<close>, from the scope built so far to the one after the last join.\<close>

fun add_joins :: "'v join list \<Rightarrow> string set \<times> string set \<Rightarrow> (string set \<times> string set) result" where
  "add_joins [] scope = Inr scope"
| "add_joins (j # js) scope = and_then (add_source (reference (join_source j)) scope) (\<lambda>scope'.
     let missing = referenced_sources (Some (join_predicate j)) - fst scope' in
       if missing \<noteq> {}
       then Inl (ValueError ''join predicate references source(s) not visible at this join''
              (sorted_names missing))
       else add_joins js scope')"

definition clause_references :: "'v select_node \<Rightarrow> string set" where
  "clause_references s =
     \<Union> (set (map (referenced_sources \<circ> Some) (selections s)))
     \<union> referenced_sources (where_node s)
     \<union> \<Union> (set (map (referenced_sources \<circ> Some) (group_by s)))
     \<union> referenced_sources (having_node s)
     \<union> \<Union> (set (map (referenced_sources \<circ> Some) (order_expressions s)))"

section \<open>Projected nullability\<close>

text \<open>
  The operands whose NULL makes a temporal expression NULL: every operand, except that a clock has
  none and \<open>overlaps()\<close> is optional whatever its operands are.
\<close>

fun nullable_operands :: "'v node temporal_node \<Rightarrow> 'v node list" where
  "nullable_operands (TemporalClockNode kind) = []"
| "nullable_operands (TemporalOverlapsNode left_start left_end right_start right_end) = []"
| "nullable_operands t = temporal_children t"

lemma nullable_operands_subset: "set (nullable_operands t) \<subseteq> set (temporal_children t)"
  by (cases t) auto

lemma nullable_operand_smaller [termination_simp]:
  "e \<in> set (nullable_operands t) \<Longrightarrow> size e < Suc (size_temporal_node size t)"
  using nullable_operands_subset [of t] size_temporal_children [of e t] by auto

fun nullable_result_sources :: "'v node \<Rightarrow> string set" where
  "nullable_result_sources (ColumnNode source name) = {source}"
| "nullable_result_sources (NullableResultNode expression) = {}"
| "nullable_result_sources (AliasNode expression alias) = nullable_result_sources expression"
| "nullable_result_sources (UuidCastNode expression) = nullable_result_sources expression"
| "nullable_result_sources (BinaryNode left operator right) =
     (if operator \<in> {''+'', ''-'', ''*'', ''/''}
      then nullable_result_sources left \<union> nullable_result_sources right else {})"
| "nullable_result_sources (TemporalNode t) =
     \<Union> (set (map nullable_result_sources (nullable_operands t)))"
| "nullable_result_sources (CaseNode branches otherwise) =
     nullable_result_sources otherwise
     \<union> \<Union> (set (map (\<lambda>(condition, result). nullable_result_sources result) branches))"
| "nullable_result_sources _ = {}"

definition validate_selection_nullability :: "string set \<Rightarrow> 'v node \<Rightarrow> unit result" where
  "validate_selection_nullability nullable_sources n =
     (let sources = nullable_result_sources n \<inter> nullable_sources in
      raise_if (sources \<noteq> {}) (ValueError
        ''outer join can NULL-extend selected expression; call .nullable() to acknowledge its optional result type''
        (sorted_names sources)))"

definition validate_projected_nullability :: "'v select_node \<Rightarrow> unit result" where
  "validate_projected_nullability s = and_then (null_extended_sources s) (\<lambda>nullable_sources.
     if nullable_sources = {} then Inr ()
     else checks (map (validate_selection_nullability nullable_sources) (selections s)))"

definition validate_sources :: "'v select_node \<Rightarrow> string set \<Rightarrow> unit result" where
  "validate_sources s outer = (case from_source s of
     None \<Rightarrow> Inl (ValueError ''SELECT queries must have from_() before compilation'' [])
   | Some f \<Rightarrow> checks (
       map (check_cte_source outer) (select_sources s)
       @ [and_then (add_source (reference f) (outer, {})) (\<lambda>scope.
            and_then (add_joins (joins s) scope) (\<lambda>(available, local).
              let missing = clause_references s - available in
              raise_if (missing \<noteq> {}) (ValueError
                ''query references source(s) not present in from_() or join()''
                (sorted_names missing)))),
          validate_projected_nullability s]))"

section \<open>Row locks\<close>

fun table_source_of :: "'v source \<Rightarrow> table_source option" where
  "table_source_of (TableSource t) = Some t"
| "table_source_of _ = None"

definition direct_tables :: "'v select_node \<Rightarrow> table_source set" where
  "direct_tables s = set (List.map_filter table_source_of (select_sources s))"

definition is_analytic :: "'v node \<Rightarrow> bool" where
  "is_analytic n \<longleftrightarrow> is_aggregate n \<or> is_window n"

definition validate_locks :: "'v select_node \<Rightarrow> unit result" where
  "validate_locks s = (if locks s = [] then Inr () else checks
     [raise_if (is_distinct s) (ValueError ''row locking cannot be combined with DISTINCT'' []),
      raise_if (group_by s \<noteq> [] \<or> having_node s \<noteq> None)
        (ValueError ''row locking cannot be combined with GROUP BY or HAVING'' []),
      raise_if (compounds s \<noteq> [])
        (ValueError ''row locking cannot be combined with UNION, INTERSECT, or EXCEPT'' []),
      raise_if (\<exists>e \<in> set (selections s @ present [where_node s] @ group_by s @ present [having_node s]
                 @ order_expressions s). \<exists>m \<in> set (walk e). is_analytic m)
        (ValueError ''row locking cannot be combined with aggregate or window expressions'' []),
      and_then (null_extended_sources s) (\<lambda>nullable. checks (map (\<lambda>lock.
        let targets = (if lock_of lock = [] then direct_tables s else set (lock_of lock)) in checks
          [raise_if (\<not> targets \<subseteq> direct_tables s)
             (ValueError ''lock OF must reference direct tables in from_() or join()'' []),
           raise_if (nullable \<inter> table_reference ` targets \<noteq> {})
             (ValueError ''row locking cannot lock a nullable outer-join side'' [])]) (locks s)))])"

section \<open>Dialect support of expressions\<close>

fun validate_temporal_node :: "py_value node temporal_node \<Rightarrow> unit result" where
  "validate_temporal_node (TemporalClockNode kind) =
     raise_if (kind \<notin> {''transaction_timestamp'', ''statement_timestamp'', ''clock_timestamp'',
        ''current_date'', ''current_time'', ''local_time'', ''local_timestamp''})
       (ValueError ''unsupported temporal clock'' [kind])"
| "validate_temporal_node (TemporalMakeIntervalNode components) = checks
     [raise_if (\<exists>name \<in> set (map fst components).
          name \<notin> {''years'', ''months'', ''weeks'', ''days'', ''hours'', ''mins'', ''secs''})
        (ValueError ''unsupported make_interval component'' []),
      raise_if (length components \<noteq> card (set (map fst components)))
        (ValueError ''make_interval components must be unique'' [])]"
| "validate_temporal_node (TemporalExtractNode field expression) =
     raise_if (field \<notin> set extract_field_values) (ValueError ''unsupported extract field'' [field])"
| "validate_temporal_node (TemporalTruncNode unit_name expression) =
     raise_if (unit_name \<notin> set trunc_unit_values) (ValueError ''unsupported date_trunc unit'' [unit_name])"
| "validate_temporal_node (TemporalTruncTimestamptzNode unit_name expression zone) =
     raise_if (unit_name \<notin> set trunc_unit_values) (ValueError ''unsupported date_trunc unit'' [unit_name])"
| "validate_temporal_node (TemporalBinNode (ValueNode (PyInterval months days microseconds)) expression origin) =
     raise_if (months \<noteq> 0 \<or> days * 86400000000 + microseconds \<le> 0) (ValueError
       ''date_bin stride must be positive and cannot contain month-or-larger units'' [])"
| "validate_temporal_node (TemporalArithmeticNode timestamp operator interval) =
     raise_if (operator \<notin> {''+'', ''-''}) (ValueError ''unsupported temporal arithmetic operator'' [operator])"
| "validate_temporal_node (TemporalIntervalScaleNode interval operator factor) =
     raise_if (operator \<notin> {''*'', ''/''}) (ValueError ''unsupported interval scale operator'' [operator])"
| "validate_temporal_node (TemporalJustifyNode kind interval) =
     raise_if (kind \<notin> {''justify_days'', ''justify_hours'', ''justify_interval''})
       (ValueError ''unsupported interval justification'' [kind])"
| "validate_temporal_node _ = Inr ()"

definition validate_expression_dialect :: "dialect \<Rightarrow> py_value node \<Rightarrow> unit result" where
  "validate_expression_dialect d expression = checks (map (\<lambda>item. case item of
       TemporalNode t \<Rightarrow> checks
         [raise_if (\<not> supports_temporal_arithmetic d) (ValueError
            ''does not support PostgreSQL temporal expressions'' [dialect_name d]),
          validate_temporal_node t]
     | _ \<Rightarrow> Inr ()) (walk expression))"

definition validate_dialect_nodes :: "py_value select_node \<Rightarrow> dialect \<Rightarrow> unit result" where
  "validate_dialect_nodes s d = checks (
     map (validate_expression_dialect d)
       (selections s @ present [where_node s] @ join_predicates s @ group_by s
        @ present [having_node s] @ order_expressions s)
     @ [raise_if (locks s \<noteq> [] \<and> \<not> supports_row_locking d)
          (ValueError ''does not support PostgreSQL row locking'' [dialect_name d])])"

definition reject_aggregates_and_windows :: "'v node list \<Rightarrow> string \<Rightarrow> unit result" where
  "reject_aggregates_and_windows es statement =
     raise_if (\<exists>e \<in> set es. \<exists>m \<in> set (walk e). is_analytic m)
       (ValueError ''cannot contain aggregate or window expressions'' [statement])"

section \<open>Compound queries and recursive CTEs\<close>

definition has_ordering :: "'v select_node \<Rightarrow> bool" where
  "has_ordering s \<longleftrightarrow> order_by s \<noteq> [] \<or> limit_count s \<noteq> None \<or> offset_count s \<noteq> None"

definition validate_compound_shape :: "'v select_node \<Rightarrow> unit result" where
  "validate_compound_shape s = (if compounds s = [] then Inr () else checks (
     raise_if (has_ordering s) (ValueError
       ''compound queries cannot have ORDER BY, LIMIT, or OFFSET; bind the compound with as_() to a declared DerivedTable and modify the outer query'' [])
     # map (\<lambda>arm. let q = compound_query arm in checks
         [raise_if (length (selections s) \<noteq> length (selections q)) (ValueError
            ''compound queries require equal projection widths''
            [str_of_nat (length (selections s)), str_of_nat (length (selections q))]),
          raise_if (ctes q \<noteq> []) (ValueError ''a compound arm cannot declare CTEs'' []),
          raise_if (compounds q \<noteq> []) (ValueError ''a compound arm cannot itself be compound'' []),
          raise_if (has_ordering q) (ValueError
            ''compound arms cannot have ORDER BY, LIMIT, or OFFSET'' [])]) (compounds s)))"

text \<open>\<open>replace(node, compounds=())\<close>.\<close>

fun without_compounds :: "'v select_node \<Rightarrow> 'v select_node" where
  "without_compounds (SelectNode sels src js w g h ords lim off dist cs arms ls) =
     SelectNode sels src js w g h ords lim off dist cs [] ls"

definition validate_recursive_cte :: "'v select_node \<Rightarrow> string \<Rightarrow> unit result" where
  "validate_recursive_cte s name = checks (
     [raise_if (name \<in> cte_references (without_compounds s)) (ValueError
        ''a recursive CTE's seed query cannot reference itself'' []),
      raise_if (compounds s = []) (ValueError
        ''recursive CTE requires a non-recursive seed and a UNION ALL recursive arm'' [])]
     @ map (\<lambda>(index, arm). checks
         [raise_if (compound_operator arm \<noteq> ''union all'') (ValueError
            ''recursive CTE arms must be combined with union_all()'' []),
          raise_if (name \<notin> cte_references (compound_query arm)) (ValueError
            ''recursive CTE arm must reference its own CTE source'' [str_of_nat index])])
       (zip [1..<Suc (length (compounds s))] (compounds s)))"

section \<open>Statements that modify data\<close>

definition validate_dml_sources ::
  "table_source \<Rightarrow> 'v node option list \<Rightarrow> (string \<times> 'v node) list \<Rightarrow> 'v node list \<Rightarrow> unit result" where
  "validate_dml_sources table predicates assigned returning =
     (let references = \<Union> (set (map referenced_sources predicates))
        \<union> \<Union> (set (map (referenced_sources \<circ> Some \<circ> snd) assigned))
        \<union> \<Union> (set (map (referenced_sources \<circ> Some) returning));
       missing = references - {table_reference table}
      in raise_if (missing \<noteq> {}) (ValueError
        ''DML query references source(s) outside its target table'' (sorted_names missing)))"

fun excluded_source :: "'v node \<Rightarrow> string option" where
  "excluded_source (ExcludedNode source name) = Some source"
| "excluded_source _ = None"

definition excluded_sources :: "'v node \<Rightarrow> string set" where
  "excluded_sources n = set (List.map_filter excluded_source (walk n))"

text \<open>The \<open>(column, value)\<close> pairs \<open>validate_insert\<close> collects from the source.\<close>

definition source_assignments :: "'v insert_src option \<Rightarrow> (string \<times> 'v node) list" where
  "source_assignments source = (case source of
       Some (InsertValuesSourceNode assigned) \<Rightarrow> assigned
     | Some (InsertRowsSourceNode rows) \<Rightarrow> concat rows
     | _ \<Rightarrow> [])"

definition validate_insert :: "'v insert \<Rightarrow> unit result" where
  "validate_insert i = (let
     conflict = insert_conflict i;
     arbiter_where = Option.bind conflict conflict_target_where;
     action_where = Option.bind conflict conflict_update_where;
     assigned = source_assignments (insert_source i)
       @ (case conflict of None \<Rightarrow> [] | Some c \<Rightarrow> conflict_update_values c);
     excluded = \<Union> (set (map (excluded_sources \<circ> snd) assigned))
       \<union> (case action_where of None \<Rightarrow> {} | Some e \<Rightarrow> excluded_sources e);
     is_update = (case conflict of None \<Rightarrow> False | Some c \<Rightarrow> conflict_action c = ''update'')
   in checks
     [case conflict of
        None \<Rightarrow> Inr ()
      | Some c \<Rightarrow> checks
         [raise_if (arbiter_where \<noteq> None \<and> conflict_columns c = []) (ValueError
            ''ON CONFLICT ... WHERE requires at least one conflict target column'' []),
          raise_if (action_where \<noteq> None \<and> \<not> is_update) (ValueError
            ''a conflict action predicate requires ON CONFLICT DO UPDATE'' [])],
      validate_dml_sources (insert_table i) [arbiter_where, action_where] assigned (insert_returning i),
      raise_if (\<exists>e \<in> set_option arbiter_where. excluded_sources e \<noteq> {}) (ValueError
        ''excluded() cannot appear in a conflict-target predicate; the arbiter matches a unique index over stored rows, not the proposed row'' []),
      if excluded = {} then Inr () else checks
        [raise_if (\<not> is_update) (ValueError
           ''excluded() can only be used in ON CONFLICT DO UPDATE assignments'' []),
         raise_if (excluded \<noteq> {table_reference (insert_table i)}) (ValueError
           ''excluded() columns must belong to the INSERT table''
           (sorted_names (excluded - {table_reference (insert_table i)})))]])"

definition conflict_predicates :: "'v node conflict_node \<Rightarrow> 'v node list" where
  "conflict_predicates c = present [conflict_target_where c, conflict_update_where c]"

text \<open>The expressions of an INSERT, UPDATE or DELETE that are checked one by one.\<close>

definition insert_expressions :: "'v insert \<Rightarrow> 'v node list" where
  "insert_expressions i = insert_returning i @ insert_values (insert_source i)
     @ (case insert_conflict i of
          None \<Rightarrow> []
        | Some c \<Rightarrow> map snd (conflict_update_values c) @ conflict_predicates c)"

fun changing_expressions :: "'v update + 'v delete \<Rightarrow> 'v node list" where
  "changing_expressions (Inl u) =
     present [update_where u] @ map snd (update_values u) @ update_returning u"
| "changing_expressions (Inr e) = present [delete_where e] @ delete_returning e"

fun changing_table :: "'v update + 'v delete \<Rightarrow> table_source" where
  "changing_table (Inl u) = update_table u"
| "changing_table (Inr e) = delete_table e"

lemma insert_expression_smaller:
  "e \<in> set (insert_expressions i) \<Longrightarrow> size e < size_insert_node size size i"
proof -
  assume "e \<in> set (insert_expressions i)"
  then show ?thesis
    using insert_values_smaller [of e "insert_source i"] conflict_part_smaller [of e]
      elem_lt_size_list [of e "insert_returning i" size]
    by (cases i) (fastforce simp: insert_expressions_def conflict_predicates_def elem_set
      split: option.splits)
qed

abbreviation changing_query :: "'v update + 'v delete \<Rightarrow> 'v query" where
  "changing_query m \<equiv> (case m of Inl u \<Rightarrow> DmlQ (UpdateDml u) | Inr e \<Rightarrow> DmlQ (DeleteDml e))"

lemma changing_expression_smaller:
  "e \<in> set (changing_expressions m) \<Longrightarrow> size e < query_size (changing_query m)"
  by (rule expression_smaller) (cases m; auto simp: elem_set)

lemma insert_select_smaller:
  "insert_source i = Some (InsertSelectSourceNode q columns) \<Longrightarrow> size q < size_insert_node size size i"
  by (cases i) simp

section \<open>Statements\<close>

text \<open>Each CTE of a \<open>WITH\<close> clause with the names declared before it.\<close>

fun declared_before :: "string set \<Rightarrow> 'v cte list \<Rightarrow> ('v cte \<times> string set) list" where
  "declared_before prior [] = []"
| "declared_before prior (cte # rest) = (cte, prior) # declared_before (insert (cte_name cte) prior) rest"

lemma declared_before_mem: "(c, v) \<in> set (declared_before prior cs) \<Longrightarrow> c \<in> set cs"
  by (induction cs arbitrary: prior) auto

lemma declared_cte_smaller:
  "(c, v) \<in> set (declared_before prior (ctes s)) \<Longrightarrow> query_size (cte_query c) < size s"
  by (intro cte_query_smaller) (rule declared_before_mem)

definition clause_expressions :: "'v select_node \<Rightarrow> 'v node list" where
  "clause_expressions s = selections s @ join_predicates s @ present [where_node s] @ group_by s
     @ present [having_node s] @ order_expressions s"

lemma clause_expression_smaller: "e \<in> set (clause_expressions s) \<Longrightarrow> size e < size s"
  using select_expression_smaller [of e s] by (auto simp: clause_expressions_def elem_set)

text \<open>The order in which the checks call each other: the size of what they check.\<close>

definition check_weight where
  "check_weight = case_sum
     (case_sum (\<lambda>(q, _). 3 * query_size q + 1)
       (case_sum (\<lambda>(s, _). 3 * size s) (\<lambda>(_, m, _). 3 * query_size (DmlQ m) + 2)))
     (case_sum
       (case_sum (\<lambda>(i, _). 3 * size_insert_node size size i + 1)
         (\<lambda>(i, _). 3 * size_insert_node size size i))
       (case_sum (\<lambda>(m, _). 3 * query_size (changing_query m)) (\<lambda>(e, _). 3 * size e)))"

function validate_statement :: "py_value query \<Rightarrow> dialect \<Rightarrow> string set \<Rightarrow> unit result"
  and validate_select :: "py_value select_node \<Rightarrow> dialect \<Rightarrow> string set \<Rightarrow> unit result"
  and validate_data_modifying_cte ::
    "py_value cte \<Rightarrow> py_value dml \<Rightarrow> dialect \<Rightarrow> string set \<Rightarrow> unit result"
  and validate_insert_statement :: "py_value insert \<Rightarrow> dialect \<Rightarrow> string set \<Rightarrow> unit result"
  and validate_insert_dialect :: "py_value insert \<Rightarrow> dialect \<Rightarrow> string set \<Rightarrow> unit result"
  and validate_dml_dialect ::
    "py_value update + py_value delete \<Rightarrow> dialect \<Rightarrow> string set \<Rightarrow> unit result"
  and validate_nested_selects :: "py_value node \<Rightarrow> dialect \<Rightarrow> string set \<Rightarrow> unit result"
where
  "validate_statement (SelectQ s) d outer = validate_select s d outer"
| "validate_statement (DmlQ (InsertDml i)) d outer = validate_insert_statement i d outer"
| "validate_statement (DmlQ (UpdateDml u)) d outer = checks
     [raise_if (update_values u = []) (ValueError ''UPDATE requires at least one value'' []),
      raise_if (\<not> update_bounded u) (ValueError ''UPDATE requires where() or explicit all_rows()'' []),
      validate_dml_sources (update_table u) [update_where u] (update_values u) (update_returning u),
      validate_dml_dialect (Inl u) d outer]"
| "validate_statement (DmlQ (DeleteDml e)) d outer = checks
     [raise_if (\<not> delete_bounded e) (ValueError ''DELETE requires where() or explicit all_rows()'' []),
      validate_dml_sources (delete_table e) [delete_where e] [] (delete_returning e),
      validate_dml_dialect (Inr e) d outer]"
| "validate_select s d outer = (let visible = outer \<union> set (map cte_name (ctes s)) in checks (
     [validate_compound_shape s]
     @ map (\<lambda>(cte, prior). checks
         [raise_if (cte_name cte \<in> prior) (ValueError ''CTE is declared more than once'' [cte_name cte]),
          case cte_query cte of
            SelectQ q \<Rightarrow> checks
              [if cte_recursive cte then validate_recursive_cte q (cte_name cte) else Inr (),
               validate_select q d
                 (prior \<union> outer \<union> (if cte_recursive cte then {cte_name cte} else {}))]
          | DmlQ m \<Rightarrow> validate_data_modifying_cte cte m d (prior \<union> outer)])
       (declared_before {} (ctes s))
     @ [validate_sources s visible, validate_locks s, validate_dialect_nodes s d,
        validate_analytic_clauses s, validate_grouping s]
     @ map (\<lambda>c. checks
         [raise_if (locks (compound_query c) \<noteq> []) (ValueError
            ''row locking cannot be combined with UNION, INTERSECT, or EXCEPT'' []),
          validate_select (compound_query c) d visible]) (compounds s)
     @ [raise_if (from_source s = None) (AssertionError ''validated SELECT has no source'')]
     @ map (\<lambda>source. case source of
           DerivedSourceNode q alias \<Rightarrow> validate_select q d visible
         | _ \<Rightarrow> Inr ()) (select_sources s)
     @ map (\<lambda>e. validate_nested_selects e d (visible \<union> local_sources s)) (clause_expressions s)))"
| "validate_data_modifying_cte cte m d outer = checks
     [raise_if (cte_recursive cte) (ValueError ''recursive CTE requires a SELECT query'' [cte_name cte]),
      raise_if ((case m of InsertDml i \<Rightarrow> insert_returning i | UpdateDml u \<Rightarrow> update_returning u
                 | DeleteDml e \<Rightarrow> delete_returning e) = []) (ValueError
        ''data-modifying CTE requires returning() to declare its output relation'' [cte_name cte]),
      validate_statement (DmlQ m) d outer]"
| "validate_insert_statement i d outer = checks
     [case insert_source i of
        None \<Rightarrow> Inl (ValueError ''INSERT requires values(), from_select(), or default_values()'' [])
      | Some (InsertSelectSourceNode query columns) \<Rightarrow> checks
         [raise_if (columns = []) (ValueError ''insert-from-select requires target columns'' []),
          raise_if (length (selections query) \<noteq> length columns) (ValueError
            ''insert-from-select projection width changed after construction'' []),
          validate_select query d outer]
      | Some (InsertRowsSourceNode rows) \<Rightarrow> (case rows of
            [] \<Rightarrow> Inl (IndexError ''tuple index out of range'')
          | first # rest \<Rightarrow> raise_if (\<exists>row \<in> set rest. map fst row \<noteq> map fst first) (ValueError
              ''every INSERT VALUES row must contain the same columns in the same order'' []))
      | Some (InsertValuesSourceNode assigned) \<Rightarrow> Inr ()
      | Some DefaultValuesSourceNode \<Rightarrow> Inr (),
      raise_if (insert_source i = Some DefaultValuesSourceNode \<and> insert_conflict i \<noteq> None)
        (ValueError ''INSERT DEFAULT VALUES cannot use ON CONFLICT'' []),
      validate_insert i,
      validate_insert_dialect i d outer]"
| "validate_insert_dialect i d outer = checks (
     [raise_if (\<exists>c \<in> set_option (insert_conflict i). conflict_predicates c \<noteq> []
                  \<and> \<not> supports_conflict_predicates d)
        (ValueError ''does not support ON CONFLICT predicates'' [dialect_name d]),
      reject_aggregates_and_windows (insert_expressions i) ''INSERT'']
     @ map (\<lambda>e. checks [validate_expression_dialect d e,
         validate_nested_selects e d (outer \<union> {table_reference (insert_table i)})])
       (insert_expressions i))"
| "validate_dml_dialect m d outer = checks (
     [reject_aggregates_and_windows (changing_expressions m)
        (case m of Inl u \<Rightarrow> ''UPDATE'' | Inr e \<Rightarrow> ''DELETE'')]
     @ map (\<lambda>e. checks [validate_expression_dialect d e,
         validate_nested_selects e d (outer \<union> {table_reference (changing_table m)})])
       (changing_expressions m))"
| "validate_nested_selects e d outer =
     checks (map (\<lambda>q. validate_select q d outer) (subqueries e))"
  by pat_completeness auto

termination
  apply (relation "measure check_weight")
          apply (simp_all add: check_weight_def)
         apply (auto dest!: declared_cte_smaller compound_query_smaller derived_smaller
      clause_expression_smaller insert_select_smaller insert_expression_smaller
      changing_expression_smaller subqueries_smaller)
  done

declare validate_select.simps [simp del] validate_insert_statement.simps [simp del]
  validate_insert_dialect.simps [simp del] validate_dml_dialect.simps [simp del]
  validate_nested_selects.simps [simp del] validate_data_modifying_cte.simps [simp del]

definition validate_nested_cte_visibility :: "py_value query \<Rightarrow> unit result" where
  "validate_nested_cte_visibility q = checks (map (\<lambda>(nested, visible). case nested of
       SelectQ s \<Rightarrow>
         checks (map (check_cte_source (visible \<union> set (map cte_name (ctes s)))) (select_sources s))
     | DmlQ _ \<Rightarrow> Inr ()) (nested_scopes q {}))"

definition data_modifying_cte_names :: "'v query \<Rightarrow> string list" where
  "data_modifying_cte_names q = (case q of
       SelectQ s \<Rightarrow> map cte_name (filter (\<lambda>cte. case cte_query cte of SelectQ _ \<Rightarrow> False | DmlQ _ \<Rightarrow> True) (ctes s))
     | DmlQ _ \<Rightarrow> [])"

definition validate_data_modifying_cte_placement :: "'v query \<Rightarrow> unit result" where
  "validate_data_modifying_cte_placement q =
     (let nested_names = sort (concat (map data_modifying_cte_names (nested_queries q))) in
      raise_if (nested_names \<noteq> []) (ValueError
        ''data-modifying CTE(s) must be declared on the outermost query'' nested_names))"

definition validate_query :: "py_value query \<Rightarrow> dialect \<Rightarrow> unit result" where
  "validate_query q d = checks
     [validate_data_modifying_cte_placement q, validate_nested_cte_visibility q,
      validate_statement q d {}]"

text \<open>The equations that run validation on a concrete statement.\<close>

lemmas validate_eval [py_eval] = check_cte_source_def add_source_def clause_references_def
  null_extended_sources_def validate_selection_nullability_def validate_projected_nullability_def
  validate_sources_def direct_tables_def is_analytic_def validate_locks_def
  validate_expression_dialect_def validate_dialect_nodes_def reject_aggregates_and_windows_def
  has_ordering_def validate_compound_shape_def validate_recursive_cte_def validate_dml_sources_def
  excluded_sources_def source_assignments_def validate_insert_def conflict_predicates_def
  insert_expressions_def clause_expressions_def validate_insert_statement.simps
  validate_insert_dialect.simps validate_dml_dialect.simps validate_nested_selects.simps
  validate_data_modifying_cte.simps data_modifying_cte_names_def
  validate_data_modifying_cte_placement_def validate_nested_cte_visibility_def validate_query_def
  validate_select.simps [of "SelectNode a1 a2 a3 a4 a5 a6 a7 a8 a9 a10 a11 a12 a13"
    for a1 a2 a3 a4 a5 a6 a7 a8 a9 a10 a11 a12 a13]

end
