(* ===== verification/Checked.thy ===== *)
theory Checked
  imports Validation
begin

text \<open>
  What a statement that passed validation is known to satisfy at every place the renderer reaches:
  the premises of the theorems about rendering.  \<open>ok_select d s\<close> says that some enclosing scope accepts
  \<open>s\<close>; a part of an accepted statement is accepted in the scope the code computes for it.
\<close>


definition ok_select :: "dialect \<Rightarrow> py_value select_node \<Rightarrow> bool" where
  "ok_select d s \<longleftrightarrow> (\<exists>outer. validate_select s d outer = Inr ())"

definition ok_statement :: "dialect \<Rightarrow> py_value query \<Rightarrow> bool" where
  "ok_statement d q \<longleftrightarrow> (\<exists>outer. validate_statement q d outer = Inr ())"

definition ok_expression :: "dialect \<Rightarrow> py_value node \<Rightarrow> bool" where
  "ok_expression d e \<longleftrightarrow> (\<forall>q \<in> set (subqueries e). ok_select d q)"

fun ok_source :: "dialect \<Rightarrow> py_value source \<Rightarrow> bool" where
  "ok_source d (DerivedSourceNode q alias) = ok_select d q"
| "ok_source d _ = True"

definition ok_conflict :: "dialect \<Rightarrow> py_value node conflict_node \<Rightarrow> bool" where
  "ok_conflict d c \<longleftrightarrow>
     (conflict_target_where c \<noteq> None \<longrightarrow> conflict_columns c \<noteq> [] \<and> supports_conflict_predicates d)
     \<and> (conflict_update_where c \<noteq> None \<longrightarrow> conflict_action c = ''update'')
     \<and> (\<forall>e \<in> snd ` set (conflict_update_values c) \<union> set_option (conflict_update_where c). ok_expression d e)"

lemma ok_expression_child: "ok_expression d n \<Longrightarrow> c \<in> set (children n) \<Longrightarrow> ok_expression d c"
  by (auto simp: ok_expression_def set_subqueries ast.set_visit [of n])

lemma ok_expression_subquery: "ok_expression d n \<Longrightarrow> direct_subquery n = Some q \<Longrightarrow> ok_select d q"
  using ast.visit_root [of n] by (auto simp: ok_expression_def set_subqueries)

lemma ok_expressionI: "validate_nested_selects e d outer = Inr () \<Longrightarrow> ok_expression d e"
  by (auto simp: validate_nested_selects.simps [of e] checks_ok ok_expression_def ok_select_def)

definition check_cte :: "dialect \<Rightarrow> string set \<Rightarrow> py_value cte \<Rightarrow> string set \<Rightarrow> bool" where
  "check_cte d outer c prior \<longleftrightarrow> cte_name c \<notin> prior \<and> (case cte_query c of
       SelectQ q \<Rightarrow> (cte_recursive c \<longrightarrow> validate_recursive_cte q (cte_name c) = Inr ())
         \<and> validate_select q d (prior \<union> outer \<union> (if cte_recursive c then {cte_name c} else {})) = Inr ()
     | DmlQ m \<Rightarrow> validate_data_modifying_cte c m d (prior \<union> outer) = Inr ())"

lemma validate_select_ok:
  "validate_select s d outer = Inr () \<longleftrightarrow> (let visible = outer \<union> set (map cte_name (ctes s)) in
     validate_compound_shape s = Inr ()
     \<and> (\<forall>(c, prior) \<in> set (declared_before {} (ctes s)). check_cte d outer c prior)
     \<and> validate_sources s visible = Inr () \<and> validate_locks s = Inr ()
     \<and> validate_dialect_nodes s d = Inr () \<and> validate_analytic_clauses s = Inr ()
     \<and> validate_grouping s = Inr ()
     \<and> (\<forall>c \<in> set (compounds s). locks (compound_query c) = []
          \<and> validate_select (compound_query c) d visible = Inr ())
     \<and> from_source s \<noteq> None
     \<and> (\<forall>q alias. DerivedSourceNode q alias \<in> set (select_sources s) \<longrightarrow> validate_select q d visible = Inr ())
     \<and> (\<forall>e \<in> set (clause_expressions s).
          validate_nested_selects e d (visible \<union> local_sources s) = Inr ()))"
proof -
  have cte: "checks [raise_if (cte_name c \<in> prior) err,
          case cte_query c of
            SelectQ q \<Rightarrow> checks
              [if cte_recursive c then validate_recursive_cte q (cte_name c) else Inr (),
               validate_select q d (prior \<union> outer \<union> (if cte_recursive c then {cte_name c} else {}))]
          | DmlQ m \<Rightarrow> validate_data_modifying_cte c m d (prior \<union> outer)] = Inr ()
      \<longleftrightarrow> check_cte d outer c prior" for c prior err
    unfolding check_cte_def by (auto simp: checks_ok split: query_node.splits)
  have derived: "(\<forall>source \<in> set (select_sources s). (case source of
        DerivedSourceNode q alias \<Rightarrow> validate_select q d v | _ \<Rightarrow> Inr ()) = Inr ()) \<longleftrightarrow>
      (\<forall>q alias. DerivedSourceNode q alias \<in> set (select_sources s) \<longrightarrow> validate_select q d v = Inr ())" for v
    by (fastforce split: source_node.splits)
  show ?thesis
    unfolding validate_select.simps [of s] Let_def checks_ok set_append set_map ball_Un ball_simps
    unfolding derived prod.case_distrib [of "\<lambda>r. r = Inr ()"] cte
    by (simp add: checks_ok conj_ac)
qed


lemma declared_before_exists: "c \<in> set cs \<Longrightarrow> \<exists>v. (c, v) \<in> set (declared_before prior cs)"
  by (induction cs arbitrary: prior) auto

lemma ok_select_parts:
  assumes "ok_select d s"
  shows "from_source s \<noteq> None"
    and "\<And>c. c \<in> set (ctes s) \<Longrightarrow> ok_statement d (cte_query c)"
    and "\<And>e. e \<in> set (clause_expressions s) \<Longrightarrow> ok_expression d e"
    and "\<And>c. c \<in> set (compounds s) \<Longrightarrow> ok_select d (compound_query c)"
    and "\<And>src. src \<in> set (select_sources s) \<Longrightarrow> ok_source d src"
proof -
  obtain outer where valid: "validate_select s d outer = Inr ()"
    using assms by (auto simp: ok_select_def)
  note parts = validate_select_ok [THEN iffD1, OF valid, unfolded Let_def]
  show "from_source s \<noteq> None" using parts by blast
  show "ok_statement d (cte_query c)" if c: "c \<in> set (ctes s)" for c
  proof -
    obtain v where "check_cte d outer c v" using declared_before_exists [OF c] parts by fast
    then show ?thesis
      by (auto simp: check_cte_def ok_statement_def checks_ok validate_data_modifying_cte.simps [of c]
        split: query_node.splits)
  qed
  show "ok_expression d e" if "e \<in> set (clause_expressions s)" for e
    using parts that by (blast intro: ok_expressionI)
  show "ok_select d (compound_query c)" if "c \<in> set (compounds s)" for c
    using parts that unfolding ok_select_def by blast
  show "ok_source d src" if "src \<in> set (select_sources s)" for src
    using parts that by (cases src) (auto simp: ok_select_def)
qed

lemma ok_insert:
  assumes "ok_statement d (DmlQ (InsertDml i))"
  shows "insert_source i \<noteq> None" "insert_source i \<noteq> Some (InsertRowsSourceNode [])"
    and "\<And>q columns. insert_source i = Some (InsertSelectSourceNode q columns) \<Longrightarrow> ok_select d q"
    and "\<And>e. e \<in> set (insert_returning i) \<union> set (insert_values (insert_source i)) \<Longrightarrow> ok_expression d e"
    and "\<And>c. insert_conflict i = Some c \<Longrightarrow> ok_conflict d c"
proof -
  obtain outer where valid: "validate_insert_statement i d outer = Inr ()"
    using assms by (auto simp: ok_statement_def)
  note parts = valid [unfolded validate_insert_statement.simps [of i] checks_ok]
  show "insert_source i \<noteq> None" "insert_source i \<noteq> Some (InsertRowsSourceNode [])"
  proof -
    show "insert_source i \<noteq> None"
      using parts by (cases "insert_source i") simp_all
    show "insert_source i \<noteq> Some (InsertRowsSourceNode [])"
      using parts by (cases "insert_source i = Some (InsertRowsSourceNode [])") simp_all
  qed
  show "ok_select d q" if "insert_source i = Some (InsertSelectSourceNode q columns)" for q columns
    using parts that by (auto simp: ok_select_def checks_ok)
  have dialect: "validate_insert_dialect i d outer = Inr ()" and insert: "validate_insert i = Inr ()"
    using parts by auto
  have expr: "ok_expression d e" if "e \<in> set (insert_expressions i)" for e
    using dialect that unfolding validate_insert_dialect.simps [of i] checks_ok
    by (auto simp: checks_ok intro: ok_expressionI)
  show "ok_expression d e" if "e \<in> set (insert_returning i) \<union> set (insert_values (insert_source i))" for e
    using that by (intro expr) (auto simp: insert_expressions_def)
  show "ok_conflict d c" if c: "insert_conflict i = Some c" for c
  proof -
    have "conflict_target_where c \<noteq> None \<longrightarrow> supports_conflict_predicates d"
      using dialect c unfolding validate_insert_dialect.simps [of i] checks_ok
      by (auto simp: conflict_predicates_def)
    moreover have "ok_expression d e"
      if "e \<in> snd ` set (conflict_update_values c) \<union> set_option (conflict_update_where c)" for e
      using that c by (intro expr) (auto simp: insert_expressions_def conflict_predicates_def elem_set)
    moreover have "(conflict_target_where c \<noteq> None \<longrightarrow> conflict_columns c \<noteq> [])
        \<and> (conflict_update_where c \<noteq> None \<longrightarrow> conflict_action c = ''update'')"
      using insert c by (auto simp: validate_insert_def Let_def checks_ok)
    ultimately show ?thesis unfolding ok_conflict_def by blast
  qed
qed

lemma ok_changing:
  assumes "ok_statement d (changing_query m)" "e \<in> set (changing_expressions m)"
  shows "ok_expression d e"
proof -
  obtain outer where "validate_dml_dialect m d outer = Inr ()"
    using assms(1) by (cases m) (auto simp: ok_statement_def checks_ok)
  with assms(2) show ?thesis
    unfolding validate_dml_dialect.simps [of m] checks_ok by (auto simp: checks_ok intro: ok_expressionI)
qed

end
