(* ===== verification/Accepted.thy ===== *)
theory Accepted
  imports Checked
begin

text \<open>
  What acceptance means at every depth of a statement: each query strictly inside an accepted
  statement is accepted itself, so the temporal, DML, scoping, outer-join, locking and CTE rules of
  \<open>validation.py\<close> hold of all of them.
\<close>

section \<open>Acceptance at every depth\<close>


lemma visited_expression: "e \<in> set (expressions (SelectQ s)) \<longleftrightarrow> e \<in> set (clause_expressions s)"
  by (auto simp: clause_expressions_def elem_set)

text \<open>What is accepted is accepted at every depth.\<close>

lemma ok_child_scope:
  assumes "ok_statement d node" "(q, v) \<in> set (child_scopes node visible)"
  shows "ok_statement d q"
proof (cases "(q, v) \<in> set (clause_scopes node visible)")
  case True
  then show ?thesis
  proof (cases rule: clause_scope_cases)
    case (ctes s c)
    then have "ok_select d s" using assms(1) by (auto simp: ok_statement_def ok_select_def)
    from ok_select_parts(2) [OF this ctes(2)] ctes(3) show ?thesis by simp
  next
    case (derived s p a)
    then have "ok_select d s" using assms(1) by (auto simp: ok_statement_def ok_select_def)
    from ok_select_parts(5) [OF this derived(2)] derived(3) show ?thesis
      by (auto simp: ok_statement_def ok_select_def)
  next
    case (compound s c)
    then have "ok_select d s" using assms(1) by (auto simp: ok_statement_def ok_select_def)
    from ok_select_parts(4) [OF this compound(2)] compound(3) show ?thesis
      by (auto simp: ok_statement_def ok_select_def)
  next
    case (insert i p cols)
    with ok_insert(3) [of d i p cols] assms(1) show ?thesis
      by (auto simp: ok_statement_def ok_select_def)
  qed
next
  case False
  with assms(2) obtain e p where e: "e \<in> set (expressions node)" "p \<in> set (subqueries e)" "q = SelectQ p"
    by (auto simp: child_scopes_def subquery_scopes_mem)
  have "ok_expression d e"
  proof (cases node rule: expressions.cases)
    case (1 s)
    then have "ok_select d s" using assms(1) by (auto simp: ok_statement_def ok_select_def)
    from ok_select_parts(3) [OF this] e(1) show ?thesis unfolding 1 visited_expression by blast
  next
    case (2 i)
    note ok = ok_insert [OF assms(1) [unfolded 2]]
    from e(1) consider "e \<in> set (insert_returning i) \<union> set (insert_values (insert_source i))"
      | c where "insert_conflict i = Some c" "e \<in> snd ` set (conflict_update_values c)"
      unfolding 2 by (auto split: option.splits dest!: sym [of "Some _"])
    then show ?thesis
      using ok(4) ok(5) by cases (auto simp: ok_conflict_def)
  next
    case (3 u)
    with ok_changing [of d "Inl u" e] assms(1) e(1) show ?thesis by (auto simp: elem_set)
  next
    case (4 x)
    with ok_changing [of d "Inr x" e] assms(1) e(1) show ?thesis by (auto simp: elem_set)
  qed
  with e show ?thesis by (auto simp: ok_expression_def ok_statement_def ok_select_def)
qed

lemma ok_nested: "ok_statement d q \<Longrightarrow> (p, v) \<in> set (nested_scopes q visible) \<Longrightarrow> ok_statement d p"
proof (induction q visible rule: nested_scopes.induct)
  case (1 node visible)
  from 1(3) obtain c w where c: "(c, w) \<in> set (child_scopes node visible)"
    "(p, v) = (c, w) \<or> (p, v) \<in> set (nested_scopes c w)"
    by (auto simp: nested_scopes.simps [of node])
  have "ok_statement d c" using ok_child_scope 1(2) c(1) by blast
  with c 1(1) [OF c(1) refl] show ?case by auto
qed

text \<open>A statement and the queries strictly inside it.\<close>

definition embedded_queries :: "py_value query \<Rightarrow> py_value query list" where
  "embedded_queries q = q # nested_queries q"

lemma validated_ok: "validate_query q d = Inr () \<Longrightarrow> ok_statement d q"
  by (auto simp: validate_query_def checks_ok ok_statement_def)

lemma ok_embedded: "validate_query q d = Inr () \<Longrightarrow> p \<in> set (embedded_queries q) \<Longrightarrow> ok_statement d p"
proof -
  assume q: "validate_query q d = Inr ()" and p: "p \<in> set (embedded_queries q)"
  show "ok_statement d p"
  proof (cases "p = q")
    case False
    with p obtain v where "(p, v) \<in> set (nested_scopes q {})"
      by (auto simp: embedded_queries_def nested_queries_def)
    with validated_ok [OF q] show ?thesis by (rule ok_nested)
  qed (use validated_ok [OF q] in simp)
qed

lemma select_checks:
  assumes "validate_select s d outer = Inr ()"
  shows "validate_compound_shape s = Inr ()" "validate_locks s = Inr ()"
    "validate_dialect_nodes s d = Inr ()" "validate_analytic_clauses s = Inr ()"
    "validate_grouping s = Inr ()" "validate_sources s (outer \<union> set (map cte_name (ctes s))) = Inr ()"
  using validate_select_ok [THEN iffD1, OF assms] unfolding Let_def by blast+


lemma changing_checks:
  assumes "validate_dml_dialect m d outer = Inr ()" "e \<in> set (changing_expressions m)"
  shows "validate_expression_dialect d e = Inr ()" "\<forall>n \<in> set (walk e). \<not> is_analytic n"
  using assms unfolding validate_dml_dialect.simps [of m] checks_ok
  by (auto simp: checks_ok reject_aggregates_and_windows_def)

lemma insert_checks:
  assumes "validate_insert_dialect i d outer = Inr ()" "e \<in> set (insert_expressions i)"
  shows "validate_expression_dialect d e = Inr ()" "\<forall>n \<in> set (walk e). \<not> is_analytic n"
  using assms unfolding validate_insert_dialect.simps [of i] checks_ok
  by (auto simp: checks_ok reject_aggregates_and_windows_def)

lemma dml_sources_local:
  assumes "validate_dml_sources table predicates assigned returning = Inr ()"
    and "Some e \<in> set predicates \<or> e \<in> snd ` set assigned \<or> e \<in> set returning"
    and "ColumnNode src c \<in> set (walk e)"
  shows "src = table_reference table"
proof -
  have "src \<in> referenced_sources (Some e)"
    using assms(3) by (auto simp: referenced_sources_Some)
  with assms(1,2) show ?thesis
    unfolding validate_dml_sources_def Let_def raise_if_ok by force
qed

section \<open>Dialect and DML rules\<close>

text \<open>
  In a statement that passes validation, a temporal expression at any depth (inside CTEs, derived
  tables, subqueries, INSERT sources) is one the dialect supports, and its closed vocabulary was
  checked.  On SQLite there is none.
\<close>

theorem temporal_expressions_checked:
  assumes "validate_query q d = Inr ()" "p \<in> set (embedded_queries q)"
    and "e \<in> set (expressions p)" "TemporalNode t \<in> set (walk e)"
  shows "supports_temporal_arithmetic d \<and> validate_temporal_node t = Inr ()"
proof -
  have "ok_statement d p" using assms(1,2) by (rule ok_embedded)
  then obtain outer where valid: "validate_statement p d outer = Inr ()" by (auto simp: ok_statement_def)
  have "validate_expression_dialect d e = Inr ()"
  proof (cases p rule: expressions.cases)
    case (1 s)
    from valid 1 have "validate_dialect_nodes s d = Inr ()" using select_checks(3) by simp
    with assms(3) 1 show ?thesis
      unfolding validate_dialect_nodes_def checks_ok by (auto simp: elem_set)
  next
    case (2 i)
    with valid have "validate_insert_dialect i d outer = Inr ()"
      by (simp add: validate_insert_statement.simps [of i] checks_ok)
    moreover have "e \<in> set (insert_expressions i)"
      using assms(3) 2 by (auto simp: insert_expressions_def split: option.splits)
    ultimately show ?thesis by (rule insert_checks)
  next
    case (3 u)
    with valid assms(3) show ?thesis
      by (intro changing_checks(1) [of "Inl u" d outer]) (auto simp: checks_ok elem_set)
  next
    case (4 x)
    with valid assms(3) show ?thesis
      by (intro changing_checks(1) [of "Inr x" d outer]) (auto simp: checks_ok elem_set)
  qed
  with assms(4) show ?thesis
    unfolding validate_expression_dialect_def checks_ok by (force simp: checks_ok)
qed



section \<open>Scopes\<close>

lemma add_joins_ok:
  "(\<exists>local'. add_joins js (available, local) = Inr (available', local')) \<longleftrightarrow>
     distinct (map (reference \<circ> join_source) js) \<and> set (map (reference \<circ> join_source) js) \<inter> local = {}
     \<and> (\<forall>i < length js. referenced_sources (Some (join_predicate (js ! i)))
          \<subseteq> available \<union> set (map (reference \<circ> join_source) (take (Suc i) js)))
     \<and> available' = available \<union> set (map (reference \<circ> join_source) js)"
proof (induction js arbitrary: available "local")
  case (Cons j js)
  have split: "(\<forall>i < length (j # js). P i) \<longleftrightarrow> P 0 \<and> (\<forall>i < length js. P (Suc i))" for P
    by (auto simp: less_Suc_eq_0_disj)
  have "(\<exists>local'. add_joins (j # js) (available, local) = Inr (available', local')) \<longleftrightarrow>
      reference (join_source j) \<notin> local
      \<and> referenced_sources (Some (join_predicate j)) \<subseteq> insert (reference (join_source j)) available
      \<and> (\<exists>local'. add_joins js (insert (reference (join_source j)) available,
            insert (reference (join_source j)) local) = Inr (available', local'))"
    by (auto simp: add_source_def and_then_ok Let_def split: if_splits)
  then show ?case
    unfolding Cons.IH split by (auto simp: insert_commute comp_def)
qed auto

lemma columns_of: "referenced_sources (Some e) \<subseteq> A \<longleftrightarrow>
    (\<forall>src c. ColumnNode src c \<in> set (walk e) \<longrightarrow> src \<in> A)"
  by (auto simp: referenced_sources_Some)

lemma clause_references_subset: "clause_references s \<subseteq> A \<longleftrightarrow>
    (\<forall>e \<in> set (selections s) \<union> set_option (where_node s) \<union> set (group_by s)
        \<union> set_option (having_node s) \<union> set (order_expressions s).
      \<forall>src c. ColumnNode src c \<in> set (walk e) \<longrightarrow> src \<in> A)"
  unfolding columns_of [symmetric] clause_references_def
  by (cases "where_node s"; cases "having_node s") (auto simp: ball_Un UN_subset_iff)

lemma check_cte_source_ok: "check_cte_source visible src = Inr () \<longleftrightarrow>
    (\<forall>name. src = CteSourceNode name \<longrightarrow> name \<in> visible)"
  by (cases src) (auto simp: check_cte_source_def)



section \<open>Outer joins\<close>

text \<open>Every relation that is NULL in some joined row is one the analysis recorded.\<close>

lemma null_extended_sources_sound:
  assumes "null_extended_sources s = Inr N" "from_source s \<noteq> None" "row \<in> set (from_rows data on s)"
    and "src \<in> reference ` set (select_sources s)" "row src = None"
  shows "src \<in> N"
proof -
  obtain f where Some: "from_source s = Some f" using assms(2) by blast
  have N: "null_extend (joins s) {reference f} {} = Inr N"
    using assms(1) Some by (simp add: null_extended_sources_def)
  let ?rows = "map (\<lambda>x. [reference f \<mapsto> x]) (data (reference f))"
  have joined: "row \<in> set (joined_rows data on (joins s) ?rows)"
    using assms(3) Some by (simp add: from_rows_def)
  have src: "src \<in> {reference f} \<union> reference ` join_source ` set (joins s)"
    using assms(4) Some by (auto simp: select_sources_def)
  show ?thesis
    by (rule null_extend_sound [OF N _ joined src assms(5)]) auto
qed


text \<open>
  C13.  Row locks that pass validation only name tables of the FROM clause, and lock only rows that
  exist: no data makes a locked relation NULL in a joined row.
\<close>

theorem locked_rows_exist:
  assumes "validate_locks s = Inr ()" "l \<in> set (locks s)"
    and "t \<in> (if lock_of l = [] then direct_tables s else set (lock_of l))"
    and "from_source s \<noteq> None" "row \<in> set (from_rows data on s)"
  shows "TableSource t \<in> set (select_sources s) \<and> row (table_reference t) \<noteq> None"
proof -
  obtain N where N: "null_extended_sources s = Inr N"
    and targets: "(if lock_of l = [] then direct_tables s else set (lock_of l)) \<subseteq> direct_tables s"
      "N \<inter> table_reference ` (if lock_of l = [] then direct_tables s else set (lock_of l)) = {}"
    using assms(1,2) by (auto simp: validate_locks_def checks_ok and_then_ok Let_def split: if_splits)
  have t: "TableSource t \<in> set (select_sources s)"
  proof -
    have "direct_tables s \<subseteq> {t. TableSource t \<in> set (select_sources s)}"
      by (auto simp: direct_tables_def map_filter_def) (metis table_source_of.elims option.distinct(1) option.sel)
    with targets(1) assms(3) show ?thesis by blast
  qed
  moreover have "table_reference t \<in> reference ` set (select_sources s)"
    using t by force
  ultimately show ?thesis
    using null_extended_sources_sound [OF N assms(4,5)] targets(2) assms(3) by blast
qed



theorem temporal_expressions_checked_witness:
  "supports_temporal_arithmetic postgres
   \<and> validate_temporal_node (TemporalExtractNode ''year'' (ColumnNode ''t'' ''at'')) = Inr ()"
proof -
  let ?e = "TemporalNode (TemporalExtractNode ''year'' (ColumnNode ''t'' ''at'')) :: py_value node"
  let ?t = "TableSource (TableSourceNode ''t'' None None)"
  let ?inner = "SelectNode [ColumnNode ''t'' ''at''] (Some ?t) [] (Some (BinaryNode ?e ''='' (ValueNode (PyInt 2024))))
      [] None [] None None False [] [] []"
  let ?q = "SelectQ (SelectNode [ColumnNode ''u'' ''a''] (Some (TableSource (TableSourceNode ''u'' None None))) []
      (Some (ExistsNode ?inner False)) [] None [] None None False [] [] [])"
  have valid: "validate_query ?q postgres = Inr ()"
    by (simp add: py_eval extract_field_values_def)
  have mem: "SelectQ ?inner \<in> set (embedded_queries ?q)" by (simp add: embedded_queries_def py_eval)
  show ?thesis
    by (rule temporal_expressions_checked [OF valid mem, of "BinaryNode ?e ''='' (ValueNode (PyInt 2024))"])
       (simp_all add: py_eval)
qed




theorem locked_rows_exist_witness:
  "TableSource (TableSourceNode ''a'' None None) \<in>
      set (select_sources (SelectNode [ColumnNode ''a'' ''x''] (Some (TableSource (TableSourceNode ''a'' None None)))
        [] None [] None [] None None False [] [] [LockClauseNode ''update'' [] None] :: py_value select_node))
   \<and> ([''a'' \<mapsto> ()] :: unit env) (table_reference (TableSourceNode ''a'' None None)) \<noteq> None"
  by (rule locked_rows_exist [of _ "LockClauseNode ''update'' [] None" _ _ "\<lambda>_. [()]" "\<lambda>_ _. True"])
     (simp_all add: py_eval from_rows_def fun_eq_iff)


end
