(* ===== verification/Render_Laws.thy ===== *)
theory Render_Laws
  imports Accepted
begin

text \<open>
  What holds of the SQL renderer of \<open>_render.py\<close> on statements that passed validation.  The renderers
  are rewritten as sequential compositions, the locale \<open>renderer_relation\<close> lifts a relation between
  primitive renderers to whole statements, and its interpretations give the theorems: no exception
  but \<open>ValueError\<close>, the same SQL text whatever the bound values are, and parameters that do not
  depend on where the statement is embedded.
\<close>

section \<open>A calculus of renderers\<close>

lemma collect_append: "collect (xs @ ys) ps = (case collect xs ps of
    Inl e \<Rightarrow> Inl e
  | Inr (ss, ps') \<Rightarrow> (case collect ys ps' of Inl e \<Rightarrow> Inl e | Inr (ts, qs) \<Rightarrow> Inr (ss @ ts, qs)))"
  by (induction xs arbitrary: ps) (auto split: sum.splits)

lemma cat_Nil: "cat [] = lit []"
  by (simp add: cat_def lit_def fun_eq_iff)

lemma cat_Cons: "cat (m # ms) = bind_sql m (\<lambda>s. bind_sql (cat ms) (\<lambda>t. lit (s @ t)))"
  by (auto simp: cat_def lit_def bind_sql_def fun_eq_iff split: sum.splits)

lemma join_Nil: "join_sql sep [] = lit []"
  by (simp add: join_sql_def lit_def fun_eq_iff)

lemma join_single: "join_sql sep [m] = bind_sql m lit"
  by (auto simp: join_sql_def lit_def bind_sql_def fun_eq_iff split: sum.splits)

lemma join_Cons2:
  "join_sql sep (m # n # ms) = bind_sql m (\<lambda>s. bind_sql (join_sql sep (n # ms)) (\<lambda>t. lit (s @ sep @ t)))"
proof -
  have "collect (n # ms) ps = Inr (ss, qs) \<Longrightarrow> ss \<noteq> []" for ps ss qs
    by (auto split: sum.splits)
  then have "collect (n # ms) ps = Inr (ss, qs) \<Longrightarrow> join_with sep (s # ss) = s @ sep @ join_with sep ss" for s ps ss qs
    by (metis join_with.simps(3) list.exhaust)
  then show ?thesis
    by (auto simp: join_sql_def lit_def bind_sql_def fun_eq_iff simp del: collect.simps(2)
        simp: collect.simps(2) [of m "n # ms"] split: sum.splits)
qed

section \<open>Renaming the bound values\<close>

lemma reference_map [simp]: "reference (map_source_node f src) = reference src"
  by (cases src) simp_all

lemma select_sources_map: "select_sources (map_select_node g s)
    = map (map_source_node (map_select_node g)) (select_sources s)"
  by (cases s) (auto simp: select_sources_def join_node.map_sel split: option.splits)

lemma cte_bindings_map: "cte_bindings outer prior (map (map_cte_node f h) cs)
    = map (\<lambda>(c, v). (map_cte_node f h c, v)) (cte_bindings outer prior cs)"
  by (induction cs arbitrary: prior) (simp_all add: cte_node.map_sel)

lemma limit_sql_map [simp]: "limit_sql (map_select_node g s) d = limit_sql s d"
  by (cases s) (auto simp: limit_sql_def split: option.splits)

lemma interval_cast_map [simp]: "interval_cast (map_node g n) = interval_cast n"
  by (cases n) (simp_all add: interval_cast_def)

lemma compile_window_frame_map [simp]:
  "compile_window_frame frame (map f orders) exclusion = compile_window_frame frame orders exclusion"
  by (simp add: compile_window_frame_def)

lemma ok_expression_iff: "ok_expression d n \<longleftrightarrow> (\<forall>c \<in> set (children n). ok_expression d c)
    \<and> (\<forall>q. direct_subquery n = Some q \<longrightarrow> ok_select d q)"
  by (auto simp: ok_expression_def set_subqueries ast.set_visit [of n])

lemmas ok_expression_simps =
  ok_expression_iff [of d "TemporalNode t" for d t]
  ok_expression_iff [of d "BinaryNode l x r" for d l x r]
  ok_expression_iff [of d "UnaryNode x l" for d l x]
  ok_expression_iff [of d "FunctionNode x ls" for d x ls]
  ok_expression_iff [of d "CaseNode bs e" for d bs e]
  ok_expression_iff [of d "AggregateNode x ls f" for d x ls f]
  ok_expression_iff [of d "WindowNode e ps os f x" for d e ps os f x]
  ok_expression_iff [of d "AliasNode e x" for d e x]
  ok_expression_iff [of d "NullableResultNode e" for d e]
  ok_expression_iff [of d "InNode e vs x" for d e vs x]
  ok_expression_iff [of d "BetweenNode e l u x" for d e l u x]
  ok_expression_iff [of d "ScalarSubqueryNode q" for d q]
  ok_expression_iff [of d "ExistsNode q x" for d q x]
  ok_expression_iff [of d "JsonTextNode e k" for d e k]
  ok_expression_iff [of d "RegexMatchNode e k x" for d e k x]
  ok_expression_iff [of d "UuidCastNode e" for d e]

lemma insert_values_cases:
  assumes "e \<in> set (insert_values source)"
  obtains (assigned) xs c where "source = Some (InsertValuesSourceNode xs)" "(c, e) \<in> set xs"
    | (rows) row rest r c where "source = Some (InsertRowsSourceNode (row # rest))"
        "r \<in> set (row # rest)" "(c, e) \<in> set r"
proof (cases source)
  case (Some src)
  show ?thesis
  proof (cases src)
    case (InsertValuesSourceNode xs)
    with assms Some assigned show ?thesis by (auto simp: insert_values_def)
  next
    case (InsertRowsSourceNode xss)
    with assms Some obtain r c where r: "r \<in> set xss" "(c, e) \<in> set r"
      by (auto simp: insert_values_def)
    then obtain row rest where "xss = row # rest" by (cases xss) auto
    with r Some InsertRowsSourceNode show ?thesis by (intro rows) simp_all
  qed (use assms Some in \<open>simp_all add: insert_values_def\<close>)
qed (use assms in \<open>simp add: insert_values_def\<close>)

definition value_error :: "exn \<Rightarrow> bool" where
  "value_error e \<longleftrightarrow> (\<exists>message arguments. e = ValueError message arguments)"

lemma value_errorI [simp]: "value_error (ValueError message arguments)"
  by (simp add: value_error_def)

lemma compile_window_frame_error: "compile_window_frame frame orders exclusion = Inl e \<Longrightarrow> value_error e"
  by (auto simp: compile_window_frame_def Let_def split: if_splits option.splits)

lemma compile_table_error: "compile_table t d = Inl e \<Longrightarrow> value_error e"
  by (auto simp: compile_table_def and_then_Inl split: if_splits option.splits)

lemma sql_constant_error: "sql_constant v = Inl e \<Longrightarrow> value_error e"
  by (cases v) (auto split: if_splits)

lemma map_results_Inl: "map_results f xs = Inl e \<Longrightarrow> \<exists>x \<in> set xs. f x = Inl e"
  by (induction xs) (auto simp: and_then_Inl)

lemma compile_index_predicate_error: "compile_index_predicate n = Inl e \<Longrightarrow> value_error e"
proof (induction n arbitrary: e rule: compile_index_predicate.induct)
  case (5 expression vs negated)
  then show ?case by (auto simp: and_then_Inl dest!: map_results_Inl)
qed (auto simp: and_then_Inl unsupported_index_predicate_def intro: sql_constant_error split: if_splits)

lemma map_results_map: "map_results f (map h xs) = map_results (f \<circ> h) xs"
  by (induction xs) auto

lemma compile_index_predicate_map:
  assumes "\<And>v. sql_constant (g v) = sql_constant v"
  shows "compile_index_predicate (map_node g n) = compile_index_predicate n"
proof (induction n rule: compile_index_predicate.induct)
  case (5 expression vs negated)
  have "map_results (compile_index_predicate \<circ> map_node g) vs = map_results compile_index_predicate vs"
    using 5(1) by (intro map_results_cong) auto
  with 5 show ?case by (simp add: map_results_map cong: and_then_cong)
qed (simp_all add: assms cong: and_then_cong)

text \<open>
  A relation between the renderers of two statements of the same shape.  \<open>T\<close> relates their texts,
  \<open>g\<close> maps the values one binds to the values the other binds, and \<open>E\<close> holds of the exceptions a
  renderer may raise.  A client supplies the laws for the primitive renderers; the locale lifts them
  to every statement that passed validation.
\<close>

locale renderer_relation =
  fixes R :: "sql_renderer \<Rightarrow> sql_renderer \<Rightarrow> bool"
    and T :: "string \<Rightarrow> string \<Rightarrow> bool"
    and g :: "py_value \<Rightarrow> py_value"
    and chk :: dialect
    and d :: dialect
    and E :: "exn \<Rightarrow> bool"
  assumes T_refl: "T s s"
    and T_append: "T s s' \<Longrightarrow> T t t' \<Longrightarrow> T (s @ t) (s' @ t')"
    and R_lit: "T s s' \<Longrightarrow> R (lit s) (lit s')"
    and R_bind: "R m m' \<Longrightarrow> (\<And>s s'. T s s' \<Longrightarrow> R (k s) (k' s')) \<Longrightarrow> R (bind_sql m k) (bind_sql m' k')"
    and R_raise: "E e \<Longrightarrow> R (raise_sql e) (raise_sql e)"
    and R_value: "R (compile_value v d) (compile_value (g v) d)"
    and E_value: "E (ValueError message arguments)"
    and arbiter_constants: "supports_conflict_predicates chk \<Longrightarrow> sql_constant (g v) = sql_constant v"
begin

lemma R_text [intro]: "R (lit s) (lit s)"
  by (rule R_lit) (rule T_refl)

lemma T_Cons: "T s s' \<Longrightarrow> T (c # s) (c # s')"
  using T_append [OF T_refl [of "[c]"]] by simp

lemma R_cat: "list_all2 R ms ms' \<Longrightarrow> R (cat ms) (cat ms')"
  by (induction rule: list_all2_induct)
     (auto simp: cat_Nil cat_Cons intro!: R_bind R_lit T_append T_refl)

lemma R_join: "list_all2 R ms ms' \<Longrightarrow> R (join_sql sep ms) (join_sql sep ms')"
proof (induction rule: list_all2_induct)
  case (Cons m ms m' ms')
  then show ?case
    by (cases ms; cases ms')
       (auto simp: join_single join_Cons2 intro!: R_bind R_lit T_append intro: T_refl)
qed (auto simp: join_Nil)

lemma R_map: "(\<And>x. x \<in> set xs \<Longrightarrow> R (f x) (f' (h x))) \<Longrightarrow> list_all2 R (map f xs) (map f' (map h xs))"
  by (induction xs) auto

lemma R_join_map:
  "(\<And>x. x \<in> set xs \<Longrightarrow> R (f x) (f' (h x))) \<Longrightarrow> R (join_sql sep (map f xs)) (join_sql sep (map f' (map h xs)))"
  by (intro R_join R_map)

lemma R_cat_map:
  "(\<And>x. x \<in> set xs \<Longrightarrow> R (f x) (f' (h x))) \<Longrightarrow> R (cat (map f xs)) (cat (map f' (map h xs)))"
  by (intro R_cat R_map)

lemma R_raise_value [intro]: "R (raise_sql (ValueError message arguments)) (raise_sql (ValueError message arguments))"
  by (intro R_raise E_value)

lemma R_lift: "(\<And>e. r = Inl e \<Longrightarrow> E e) \<Longrightarrow> R (lift_sql r) (lift_sql r)"
  by (cases r) (auto simp: lift_sql_def intro: R_raise)

lemma R_frame: "R (lift_sql (compile_window_frame frame orders exclusion))
    (lift_sql (compile_window_frame frame orders exclusion))"
  by (rule R_lift) (auto dest!: compile_window_frame_error simp: value_error_def intro: E_value)

lemma R_table: "R (lift_sql (compile_table t d)) (lift_sql (compile_table t d))"
  by (rule R_lift) (auto dest!: compile_table_error simp: value_error_def intro: E_value)

lemma R_arbiter:
  assumes "supports_conflict_predicates chk"
  shows "R (lift_sql (compile_index_predicate p)) (lift_sql (compile_index_predicate (map_node g p)))"
proof -
  have "compile_index_predicate (map_node g p) = compile_index_predicate p"
    using arbiter_constants [OF assms] by (rule compile_index_predicate_map)
  then show ?thesis
    by (auto intro!: R_lift dest!: compile_index_predicate_error simp: value_error_def intro: E_value)
qed

lemma R_clause: "list_all2 R ms ms' \<Longrightarrow> R (clause keyword ms) (clause keyword ms')"
  by (cases ms; cases ms') (auto simp: clause_def intro!: R_cat R_join)

lemma R_optional: "rel_option R m m' \<Longrightarrow> R (optional_clause keyword m) (optional_clause keyword m')"
  by (cases m; cases m') (auto simp: optional_clause_def intro!: R_cat)

lemma R_call: "list_all2 R ms ms' \<Longrightarrow> R (compile_call name ms) (compile_call name ms')"
  by (auto simp: compile_call_def intro!: R_cat R_join)

lemma R_require: "R m m' \<Longrightarrow> R (require_postgres_expression d name m) (require_postgres_expression d name m')"
  by (auto simp: require_postgres_expression_def)


lemma R_if: "(c \<Longrightarrow> R a a') \<Longrightarrow> (\<not> c \<Longrightarrow> R b b') \<Longrightarrow> R (if c then a else b) (if c then a' else b')"
  by simp

lemma R_map_option:
  "(\<And>x. x \<in> set_option xs \<Longrightarrow> R (f x) (f' (h x))) \<Longrightarrow> rel_option R (map_option f xs) (map_option f' (map_option h xs))"
  by (cases xs) auto

lemma R_map_comp: "(\<And>x. x \<in> set xs \<Longrightarrow> R (f x) (f' (h x))) \<Longrightarrow> list_all2 R (map f xs) (map (f' \<circ> h) xs)"
  by (induction xs) auto

lemma R_map_option_comp:
  "(\<And>x. x \<in> set_option xs \<Longrightarrow> R (f x) (f' (h x))) \<Longrightarrow> rel_option R (map_option f xs) (map_option (f' \<circ> h) xs)"
  by (cases xs) auto

lemmas R_intros = R_frame R_table R_map_comp R_map_option_comp R_cat R_join R_clause R_optional R_call R_text R_if R_map R_map_option list.rel_intros

lemma R_case_option:
  "(xs = None \<Longrightarrow> R a a') \<Longrightarrow> (\<And>x. xs = Some x \<Longrightarrow> R (f x) (f' (h x))) \<Longrightarrow>
     R (case xs of None \<Rightarrow> a | Some x \<Rightarrow> f x) (case map_option h xs of None \<Rightarrow> a' | Some x \<Rightarrow> f' x)"
  by (cases xs) auto

lemma R_select:
  fixes s ou
  defines "sc \<equiv> ou \<union> set (map cte_name (ctes s)) \<union> set (map reference (select_sources s))"
  assumes f: "from_source s = Some f"
    and body: "\<And>c v. (c, v) \<in> set (cte_bindings ou {} (ctes s)) \<Longrightarrow> R (compile_cte_body (cte_query c) d v)
          (compile_cte_body (map_query_node (map_node g) (map_select_node g) (cte_query c)) d v)"
    and expr: "\<And>e. e \<in> set (selections s) \<union> set (group_by s) \<union> set_option (where_node s) \<union> set_option (having_node s)
          \<Longrightarrow> R (compile_node e d sc) (compile_node (map_node g e) d sc)"
    and join: "\<And>j. j \<in> set (joins s) \<Longrightarrow> join_kind j \<noteq> ''cross''
          \<Longrightarrow> R (compile_node (join_predicate j) d sc) (compile_node (map_node g (join_predicate j)) d sc)"
    and ords: "\<And>x. x \<in> set (order_by s)
          \<Longrightarrow> R (compile_order x d sc) (compile_order (map_order_node (map_node g) x) d sc)"
    and sources: "\<And>src. src \<in> set (select_sources s)
          \<Longrightarrow> R (compile_source src d ou) (compile_source (map_source_node (map_select_node g) src) d ou)"
    and arms: "\<And>c. c \<in> set (compounds s) \<Longrightarrow> R (compile_select (compound_query c) d (ou \<union> set (map cte_name (ctes s))))
          (compile_select (map_select_node g (compound_query c)) d (ou \<union> set (map cte_name (ctes s))))"
  shows "R (compile_select s d ou) (compile_select (map_select_node g s) d ou)"
proof -
  let ?s = "map_select_node g s"
  have names: "map cte_name (ctes ?s) = map cte_name (ctes s)"
    by (simp add: select_node.map_sel cte_node.map_sel)
  have refs: "map reference (select_sources ?s) = map reference (select_sources s)"
    by (simp add: select_sources_map)
  have f': "f \<in> set (select_sources s)" "\<And>j. j \<in> set (joins s) \<Longrightarrow> join_source j \<in> set (select_sources s)"
    using f by (auto simp: select_sources_def)
  show ?thesis
    unfolding compile_select.simps [of s] compile_select.simps [of ?s] names refs
    unfolding select_node.map_sel f option.map option.case Let_def sc_def [symmetric]
    unfolding cte_bindings_map map_is_Nil_conv set_map bex_simps cte_node.map_sel
    by (intro R_intros)
       (auto simp: join_node.map_sel compound_node.map_sel cte_node.map_sel
         intro!: R_cat R_text list.rel_intros body sources ords arms [simplified] f' intro: expr join)
qed

lemma R_insert:
  assumes source: "source \<noteq> None" "source \<noteq> Some (InsertRowsSourceNode [])"
    and expr: "\<And>e. e \<in> set (insert_values source) \<Longrightarrow> R (compile_node e d {}) (compile_node (map_node g e) d {})"
    and query: "\<And>q columns. source = Some (InsertSelectSourceNode q columns)
          \<Longrightarrow> R (compile_select q d {}) (compile_select (map_select_node g q) d {})"
    and conflict: "\<And>c. conflict = Some c
          \<Longrightarrow> R (compile_conflict c d) (compile_conflict (map_conflict_node (map_node g) c) d)"
    and returning: "R (compile_returning returning d) (compile_returning (map (map_node g) returning) d)"
  shows "R (compile_insert (InsertNode table source conflict returning) d)
    (compile_insert (map_insert_node (map_node g) (map_select_node g)
       (InsertNode table source conflict returning)) d)"
proof -
  have finish: "T body body' \<Longrightarrow> R
      (cat [lit ''insert into '', lift_sql (compile_table table d),
         lit ('' ('' @ join_with '', '' (map sql_identifier columns) @ '') '' @ body),
         case conflict of None \<Rightarrow> lit '''' | Some c \<Rightarrow> compile_conflict c d, compile_returning returning d])
      (cat [lit ''insert into '', lift_sql (compile_table table d),
         lit ('' ('' @ join_with '', '' (map sql_identifier columns) @ '') '' @ body'),
         case map_option (map_conflict_node (map_node g)) conflict of
           None \<Rightarrow> lit '''' | Some c \<Rightarrow> compile_conflict c d,
         compile_returning (map (map_node g) returning) d])" for columns body body'
    using conflict returning
    by (cases conflict) (auto intro!: R_intros R_lit T_append T_refl T_Cons)
  have columns: "map fst (map (map_prod id (map_node g)) row) = map fst row" for row
    by simp
  show ?thesis
  proof (cases source)
    case (Some src)
    show ?thesis
    proof (cases src)
      case (InsertValuesSourceNode assigned)
      show ?thesis
        unfolding Some InsertValuesSourceNode insert_node.map option.map insert_source.map
          compile_insert.simps Let_def option.case insert_source.case columns
        using expr by (intro R_bind finish)
          (force simp: Some InsertValuesSourceNode insert_values_def case_prod_unfold intro!: R_intros)
    next
      case (InsertRowsSourceNode rows)
      then obtain row rest where rows: "rows = row # rest"
        using source(2) Some by (cases rows) auto
      show ?thesis
        unfolding Some InsertRowsSourceNode rows insert_node.map option.map insert_source.map list.map
          compile_insert.simps Let_def option.case insert_source.case list.case columns
        using expr by (intro R_bind finish)
          (force simp: Some InsertRowsSourceNode rows insert_values_def case_prod_unfold intro!: R_intros)
    next
      case (InsertSelectSourceNode q columns)
      show ?thesis
        unfolding Some InsertSelectSourceNode insert_node.map option.map insert_source.map
          compile_insert.simps Let_def option.case insert_source.case
        using query Some InsertSelectSourceNode by (intro R_bind finish) auto
    next
      case DefaultValuesSourceNode
      then show ?thesis
        using returning Some by (auto intro!: R_intros)
    qed
  qed (use source in simp)
qed

lemma compile_related:
  shows "d' = d \<Longrightarrow> ok_select chk s \<Longrightarrow> R (compile_select s d' ou) (compile_select (map_select_node g s) d' ou)"
    and "d' = d \<Longrightarrow> ok_statement chk q \<Longrightarrow> R (compile_cte_body q d' ou)
       (compile_cte_body (map_query_node (map_node g) (map_select_node g) q) d' ou)"
    and "d' = d \<Longrightarrow> ok_statement chk (DmlQ m) \<Longrightarrow> R (compile_dml m d')
       (compile_dml (map_dml_node (map_node g) (map_select_node g) m) d')"
    and "d' = d \<Longrightarrow> ok_statement chk (DmlQ (InsertDml i)) \<Longrightarrow> R (compile_insert i d')
       (compile_insert (map_insert_node (map_node g) (map_select_node g) i) d')"
    and "d' = d \<Longrightarrow> ok_conflict chk c \<Longrightarrow> R (compile_conflict c d') (compile_conflict (map_conflict_node (map_node g) c) d')"
    and "d' = d \<Longrightarrow> ok_statement chk (DmlQ (UpdateDml u)) \<Longrightarrow> R (compile_update u d')
       (compile_update (map_update_node (map_node g) u) d')"
    and "d' = d \<Longrightarrow> ok_statement chk (DmlQ (DeleteDml x)) \<Longrightarrow> R (compile_delete x d')
       (compile_delete (map_delete_node (map_node g) x) d')"
    and "d' = d \<Longrightarrow> (\<And>n. n \<in> set ns \<Longrightarrow> ok_expression chk n) \<Longrightarrow> R (compile_returning ns d')
       (compile_returning (map (map_node g) ns) d')"
    and "d' = d \<Longrightarrow> ok_source chk src \<Longrightarrow> R (compile_source src d' ou)
       (compile_source (map_source_node (map_select_node g) src) d' ou)"
    and "d' = d \<Longrightarrow> ok_expression chk (order_expression ord) \<Longrightarrow> R (compile_order ord d' sc)
       (compile_order (map_order_node (map_node g) ord) d' sc)"
    and "d' = d \<Longrightarrow> (\<And>n. n \<in> set (temporal_children t) \<Longrightarrow> ok_expression chk n) \<Longrightarrow> R (compile_temporal t d' sc)
       (compile_temporal (map_temporal_node (map_node g) t) d' sc)"
    and "d' = d \<Longrightarrow> ok_expression chk n \<Longrightarrow> R (compile_node n d' sc) (compile_node (map_node g n) d' sc)"
proof (induction s d' ou and q d' ou and m d' and i d' and c d' and u d' and x d' and ns d' and src d' ou and ord d' sc
    and t d' sc and n d' sc rule: compile_select_compile_cte_body_compile_dml_compile_insert_compile_conflict_compile_update_compile_delete_compile_returning_compile_source_compile_order_compile_temporal_compile_node.induct)
  case (1 s d' ou)
  note ok = ok_select_parts [OF 1(12)] and eq = 1(11)
  obtain f where f: "from_source s = Some f" using ok(1) by blast
  have "R (compile_select s d ou) (compile_select (map_select_node g s) d ou)"
  proof (rule R_select [OF f])
    fix b v assume b: "(b, v) \<in> set (cte_bindings ou {} (ctes s))"
    show "R (compile_cte_body (cte_query b) d v)
       (compile_cte_body (map_query_node (map_node g) (map_select_node g) (cte_query b)) d v)"
      using 1(1) [OF f refl refl b refl eq] ok(2) cte_bindings_mem [OF b] eq by blast
  qed (insert f eq ok 1(2-10) [OF f refl refl refl], auto simp: clause_expressions_def order_expressions_def join_predicates_def elem_set select_sources_def)
  then show ?case using 1(11) by simp
next
  case (2 s d' ou)
  then show ?case by (auto simp: ok_statement_def ok_select_def)
next
  case (3 m d' ou)
  then show ?case by (auto intro: R_raise_value)
next
  case 4 then show ?case by simp
next
  case 5 then show ?case by simp
next
  case 6 then show ?case by simp
next
  case (7 table source conflict returning d')
  note ok = ok_insert [OF 7(8), unfolded insert_node.sel] and eq = 7(7)
  show ?case unfolding eq
  proof (rule R_insert [OF ok(1,2)])
    show "R (compile_node e d {}) (compile_node (map_node g e) d {})"
      if e: "e \<in> set (insert_values source)" for e
    proof -
      have ok_e: "ok_expression chk e" using ok(4) e by blast
      from e show ?thesis
      proof (cases rule: insert_values_cases)
        case (assigned xs c)
        from 7(3) [OF refl assigned(1) refl assigned(2) refl eq ok_e] eq show ?thesis by simp
      next
        case (rows row rest r c)
        from 7(4) [OF refl rows(1) refl refl rows(2,3) refl eq ok_e] eq show ?thesis by simp
      qed
    qed
  qed (use 7(1,2,5) ok eq in auto)
next
  case (8 columns action assigned arbiter action_where d')
  note ok = 8(4) [unfolded ok_conflict_def, simplified]
  show ?case
    unfolding conflict_node.map compile_conflict.simps 8(3)
  proof (rule R_bind)
    show "R (cat [lit (if columns = [] then '''' else '' ('' @ join_with '', '' (map sql_identifier columns) @ '')''),
          case arbiter of None \<Rightarrow> lit ''''
          | Some predicate \<Rightarrow> if columns = []
            then raise_sql (AssertionError ''a conflict arbiter predicate requires target columns'')
            else cat [lit '' where '', lift_sql (compile_index_predicate predicate)]])
       (cat [lit (if columns = [] then '''' else '' ('' @ join_with '', '' (map sql_identifier columns) @ '')''),
          case map_option (map_node g) arbiter of None \<Rightarrow> lit ''''
          | Some predicate \<Rightarrow> if columns = []
            then raise_sql (AssertionError ''a conflict arbiter predicate requires target columns'')
            else cat [lit '' where '', lift_sql (compile_index_predicate predicate)]])"
      using ok by (cases arbiter) (auto intro!: R_intros R_arbiter)
  qed (use 8 ok in \<open>force simp: case_prod_unfold elem_set intro!: R_intros R_lit T_append T_refl T_Cons\<close>)
next
  case (9 table assigned where_opt bounded returning d')
  then show ?case
    using ok_changing [of chk "Inl (UpdateNode table assigned where_opt bounded returning)"]
    by (force simp: case_prod_unfold elem_set intro!: R_intros R_bind R_lit T_append T_refl T_Cons)
next
  case (10 table where_opt bounded returning d')
  then show ?case
    using ok_changing [of chk "Inr (DeleteNode table where_opt bounded returning)"]
    by (auto simp: elem_set intro!: R_intros)
next
  case (11 ns d')
  then show ?case by (auto simp: compile_returning.simps [of ns] compile_returning.simps [of "map (map_node g) ns"]  intro!: R_intros)
next
  case (12 t d' outer)
  then show ?case by (auto intro!: R_intros)
next
  case (14 q a d' outer)
  then show ?case by (auto intro!: R_intros)
next
  case 21
  then show ?case by (force intro!: R_intros simp: case_prod_unfold)
next
  case 41
  then show ?case by (force simp: ok_expression_simps case_prod_unfold intro!: R_intros)
qed (auto simp: ok_expression_simps split: option.splits
  intro!: R_intros R_bind R_value R_require R_lit T_append T_refl T_Cons)

end

section \<open>Three readings of the relation\<close>

text \<open>Renaming the values: the same texts and errors, the renamed parameters.\<close>

definition renames :: "(py_value \<Rightarrow> py_value) \<Rightarrow> sql_renderer \<Rightarrow> sql_renderer \<Rightarrow> bool" where
  "renames g m m' \<longleftrightarrow> (\<forall>ps. m' (map g ps) = map_sum id (map_prod id (map g)) (m ps))"

text \<open>The same renderer, which raises only \<open>ValueError\<close>.\<close>

definition raises_only_value_errors :: "sql_renderer \<Rightarrow> sql_renderer \<Rightarrow> bool" where
  "raises_only_value_errors m m' \<longleftrightarrow> m' = m \<and> (\<forall>ps e. m ps = Inl e \<longrightarrow> value_error e)"

text \<open>The same values are appended, or the same exception raised, whatever was rendered before.\<close>

definition binds :: "sql_renderer \<Rightarrow> py_value list result \<Rightarrow> bool" where
  "binds m r \<longleftrightarrow> (\<forall>ps. map_sum id snd (m ps) = map_sum id (\<lambda>xs. ps @ xs) r)"

definition binds_same :: "sql_renderer \<Rightarrow> sql_renderer \<Rightarrow> bool" where
  "binds_same m m' \<longleftrightarrow> (\<exists>r. binds m r \<and> binds m' r)"

lemma binds_unique: "binds m r \<Longrightarrow> binds m r' \<Longrightarrow> r = r'"
  unfolding binds_def by (drule spec [of _ "[]"])+ (cases r; cases r'; simp)

lemma binds_bind:
  assumes m: "binds m r" and k: "\<And>s. binds (k s) q"
  shows "binds (bind_sql m k) (and_then r (\<lambda>xs. map_sum id ((@) xs) q))"
  unfolding binds_def
proof
  fix ps
  have "map_sum id snd (m ps) = map_sum id (\<lambda>xs. ps @ xs) r"
    using m by (simp add: binds_def)
  moreover have "map_sum id snd (k s ps') = map_sum id (\<lambda>xs. ps' @ xs) q" for s ps'
    using k by (simp add: binds_def)
  ultimately show "map_sum id snd (bind_sql m k ps)
      = map_sum id (\<lambda>xs. ps @ xs) (and_then r (\<lambda>xs. map_sum id ((@) xs) q))"
    by (cases "m ps"; cases r; cases q) (auto simp: bind_sql_def)
qed

abbreviation without_arbiters :: "dialect \<Rightarrow> dialect" where
  "without_arbiters d \<equiv> d\<lparr>supports_conflict_predicates := False\<rparr>"

interpretation texts: renderer_relation "renames g" "(=)" g "without_arbiters d" d "\<lambda>_. True" for g d
proof unfold_locales
  fix m m' :: sql_renderer and k k' :: "string \<Rightarrow> sql_renderer"
  assume m: "renames g m m'" and k: "\<And>s s' :: string. s = s' \<Longrightarrow> renames g (k s) (k' s')"
  show "renames g (bind_sql m k) (bind_sql m' k')"
    unfolding renames_def
  proof
    fix ps
    show "bind_sql m' k' (map g ps) = map_sum id (map_prod id (map g)) (bind_sql m k ps)"
      using m k [OF refl] by (cases "m ps") (auto simp: renames_def bind_sql_def)
  qed
qed (auto simp: renames_def lit_def raise_sql_def compile_value_def Let_def)

interpretation errors: renderer_relation raises_only_value_errors "(=)" id d d value_error for d
proof unfold_locales
  fix m m' :: sql_renderer and k k' :: "string \<Rightarrow> sql_renderer"
  assume m: "raises_only_value_errors m m'" and k: "\<And>s s' :: string. s = s' \<Longrightarrow> raises_only_value_errors (k s) (k' s')"
  then have "k' s = k s" for s by (simp add: raises_only_value_errors_def)
  with m k [OF refl] show "raises_only_value_errors (bind_sql m k) (bind_sql m' k')"
    by (auto simp: raises_only_value_errors_def bind_sql_def fun_eq_iff split: sum.splits)
qed (auto simp: raises_only_value_errors_def lit_def raise_sql_def compile_value_def Let_def)

interpretation bindings: renderer_relation binds_same "\<lambda>_ _. True" id d d "\<lambda>_. True" for d
proof unfold_locales
  fix m m' :: sql_renderer and k k' :: "string \<Rightarrow> sql_renderer"
  assume m: "binds_same m m'" and k: "\<And>s s' :: string. True \<Longrightarrow> binds_same (k s) (k' s')"
  obtain r where r: "binds m r" "binds m' r"
    using m by (auto simp: binds_same_def)
  obtain q where q: "binds (k '''') q" "binds (k' '''') q"
    using k by (auto simp: binds_same_def)
  have "binds (k s) q" "binds (k' s) q" for s
    using k [of s "[]"] k [of "[]" s] q binds_unique unfolding binds_same_def by blast+
  with r show "binds_same (bind_sql m k) (bind_sql m' k')"
    unfolding binds_same_def using binds_bind by blast
next
  show "binds_same (compile_value v d) (compile_value (id v) d)" for v
    by (auto simp: binds_same_def binds_def compile_value_def Let_def intro: exI [of _ "Inr [v]"])
next
  show "binds_same (lit s) (lit s')" for s s'
    by (auto simp: binds_same_def binds_def lit_def intro: exI [of _ "Inr []"])
next
  show "binds_same (raise_sql e) (raise_sql e)" for e
    by (auto simp: binds_same_def binds_def raise_sql_def intro: exI [of _ "Inl e"])
qed auto


text \<open>The same statement with its bound values renamed, and the values it binds.\<close>

definition rebind :: "(py_value \<Rightarrow> py_value) \<Rightarrow> py_value query \<Rightarrow> py_value query" where
  "rebind g = map_query_node (map_node g) (map_select_node g)"

fun query_values :: "py_value query \<Rightarrow> py_value set" where
  "query_values (SelectQ s) = set_select_node s"
| "query_values (DmlQ m) = \<Union> (set_node ` set1_dml_node m) \<union> \<Union> (set_select_node ` set2_dml_node m)"

lemma rebind_same: "(\<And>v. v \<in> query_values q \<Longrightarrow> g v = v) \<Longrightarrow> rebind g q = q"
  by (cases q) (auto simp: rebind_def intro!: select_node.map_ident_strong dml_node.map_ident_strong
    node.map_ident_strong)

lemma rendered_errors:
  assumes "ok_statement d q" "render_statement q d ps = Inl e"
  shows "value_error e"
proof (cases q)
  case (SelectQ s)
  with assms(1) have "ok_select d s" by (auto simp: ok_statement_def ok_select_def)
  from errors.compile_related(1) [OF refl this] assms(2) SelectQ show ?thesis
    by (auto simp: raises_only_value_errors_def)
next
  case (DmlQ m)
  from errors.compile_related(3) [OF refl assms(1) [unfolded DmlQ]] assms(2) DmlQ show ?thesis
    by (auto simp: raises_only_value_errors_def)
qed

lemma rendered_texts:
  assumes "ok_statement (without_arbiters d) q"
  shows "renames g (render_statement q d) (render_statement (rebind g q) d)"
proof (cases q)
  case (SelectQ s)
  with assms(1) have "ok_select (without_arbiters d) s" by (auto simp: ok_statement_def ok_select_def)
  from texts.compile_related(1) [OF refl this] SelectQ show ?thesis by (simp add: rebind_def)
next
  case (DmlQ m)
  from texts.compile_related(3) [OF refl assms(1) [unfolded DmlQ]] DmlQ show ?thesis
    by (simp add: rebind_def)
qed

lemma rendered_bindings:
  assumes "ok_statement d q"
  shows "\<exists>r. binds (render_statement q d) r"
proof (cases q)
  case (SelectQ s)
  with assms(1) have "ok_select d s" by (auto simp: ok_statement_def ok_select_def)
  from bindings.compile_related(1) [OF refl this] SelectQ show ?thesis by (auto simp: binds_same_def)
next
  case (DmlQ m)
  from bindings.compile_related(3) [OF refl assms(1) [unfolded DmlQ]] DmlQ show ?thesis
    by (auto simp: binds_same_def)
qed

section \<open>Rendering of validated statements\<close>

text \<open>
  C12.  Rendering a validated statement raises nothing but \<open>ValueError\<close>: none of the renderer's
  assertions (\<open>attempted to render an unvalidated SELECT\<close>, \<open>... an INSERT without a source\<close>, the two
  about ON CONFLICT) and no \<open>IndexError\<close> on an empty row list is reachable at any nesting depth.
\<close>

theorem render_raises_only_value_errors:
  assumes "validate_query q d = Inr ()" "render_query q d = Inl e"
  shows "value_error e"
  using assms(2) rendered_errors [OF validated_ok [OF assms(1)], of "[]"]
  by (auto simp: render_query_def and_then_Inl split: option.splits if_splits)


text \<open>
  Every parameter of the compiled statement is a value some \<open>ValueNode\<close> of the statement holds:
  the renderer invents none.
\<close>

theorem render_parameters_are_values:
  assumes "validate_query q (without_arbiters d) = Inr ()" "render_query q d = Inr r"
  shows "set (parameters r) \<subseteq> query_values q"
proof
  fix p assume p: "p \<in> set (parameters r)"
  show "p \<in> query_values q"
  proof (rule ccontr)
    assume fresh: "p \<notin> query_values q"
    define g where "g v = (if v \<in> query_values q then v else PyList [p])" for v
    have "rebind g q = q" by (rule rebind_same) (simp add: g_def)
    with rendered_texts [OF validated_ok [OF assms(1)], of g]
    have "renames g (render_statement q d) (render_statement q d)" by simp
    then have "render_statement q d (map g []) = map_sum id (map_prod id (map g)) (render_statement q d [])"
      unfolding renames_def by (rule spec)
    then have "map g (parameters r) = parameters r"
      using assms(2) by (cases "render_statement q d []")
        (auto simp: render_query_def split: option.splits if_splits)
    with p have "g p = p" by (metis in_set_conv_nth length_map nth_map)
    then have "PyList [p] = p" using fresh by (simp add: g_def)
    from arg_cong [OF this, of size] show False by simp
  qed
qed

text \<open>
  What a validated statement binds does not depend on what was rendered before it: rendering it
  after any parameters appends one fixed list of values, or raises one fixed exception.
\<close>

theorem render_appends_fixed_parameters:
  assumes "validate_query q d = Inr ()"
  shows "(\<exists>e. \<forall>ps. render_statement q d ps = Inl e)
    \<or> (\<exists>xs. \<forall>ps. \<exists>text. render_statement q d ps = Inr (text, ps @ xs))"
proof -
  obtain r where r: "\<And>ps. map_sum id snd (render_statement q d ps) = map_sum id (\<lambda>xs. ps @ xs) r"
    using rendered_bindings [OF validated_ok [OF assms]] unfolding binds_def by blast
  show ?thesis
  proof (cases r)
    case (Inl e)
    have "render_statement q d ps = Inl e" for ps
      using r [of ps] Inl by (cases "render_statement q d ps") auto
    then show ?thesis by blast
  next
    case (Inr xs)
    have "\<exists>text. render_statement q d ps = Inr (text, ps @ xs)" for ps
      using r [of ps] Inr by (cases "render_statement q d ps") auto
    then show ?thesis by blast
  qed
qed


text \<open>The sample statement of the witnesses: \<open>select t.a from t where t.a = 'x'\<close>.\<close>

definition sample_select :: "py_value query" where
  "sample_select = SelectQ (SelectNode [ColumnNode ''t'' ''a'']
     (Some (TableSource (TableSourceNode ''t'' None None))) []
     (Some (BinaryNode (ColumnNode ''t'' ''a'') ''='' (ValueNode (PyStr ''x''))))
     [] None [] None None False [] [] [])"

lemma sample_select_valid: "validate_query sample_select d = Inr ()"
  by (simp add: sample_select_def py_eval)


theorem render_parameters_are_values_witness:
  "set [PyStr ''x''] \<subseteq> query_values sample_select"
proof -
  have "render_query sample_select sqlite =
      Inr \<lparr>sql = ''select \"t\".\"a\" from \"t\" where (\"t\".\"a\" = ?)'', parameters = [PyStr ''x'']\<rparr>"
    by (simp add: sample_select_def py_eval)
  from render_parameters_are_values [OF sample_select_valid this] show ?thesis by simp
qed

theorem render_appends_fixed_parameters_witness:
  "(\<exists>e. \<forall>ps. render_statement sample_select sqlite ps = Inl e)
    \<or> (\<exists>xs. \<forall>ps. \<exists>text. render_statement sample_select sqlite ps = Inr (text, ps @ xs))"
  by (rule render_appends_fixed_parameters [OF sample_select_valid])

theorem render_raises_only_value_errors_witness:
  "value_error (ValueError ''does not support schema-qualified tables'' [''sqlite'', ''s'', ''t''])"
proof -
  let ?q = "SelectQ (SelectNode [ColumnNode ''t'' ''a'']
     (Some (TableSource (TableSourceNode ''t'' None (Some ''s'')))) [] None
     [] None [] None None False [] [] [])"
  have "validate_query ?q sqlite = Inr ()" by (simp add: py_eval)
  moreover have "render_query ?q sqlite =
      Inl (ValueError ''does not support schema-qualified tables'' [''sqlite'', ''s'', ''t''])"
    by (simp add: py_eval)
  ultimately show ?thesis by (rule render_raises_only_value_errors)
qed

end
