(* ===== verification/Compiler.thy ===== *)
theory Compiler
  imports Render_Laws
begin

text \<open>
  \<open>relq/_compiler/api.py\<close>: a statement is validated and then rendered.  The \<open>Query\<close> wrapper that
  \<open>extract_query\<close> unwraps carries the statement node and a row decoder; only the node matters here.
\<close>


section \<open>Compilation\<close>

definition compile :: "py_value query \<Rightarrow> dialect \<Rightarrow> compiled_query result" where
  "compile q d = and_then (validate_query q d) (\<lambda>_. render_query q d)"

definition compile_sqlite :: "py_value query \<Rightarrow> compiled_query result" where
  "compile_sqlite q = compile q sqlite"

definition compile_postgres :: "py_value query \<Rightarrow> compiled_query result" where
  "compile_postgres q = compile q postgres"

section \<open>No internal error escapes\<close>

definition no_assertion :: "'a result \<Rightarrow> bool" where
  "no_assertion r \<longleftrightarrow> (\<forall>m. r \<noteq> Inl (AssertionError m))"

lemma no_assertion_simps [simp]:
  "no_assertion (Inr x)" "no_assertion (Inl (ValueError m a))" "no_assertion (Inl (TypeError m a))"
  "no_assertion (Inl (IndexError m))"
  "no_assertion (raise_if c (ValueError m a))" "no_assertion (raise_if c (TypeError m a))"
  by (simp_all add: no_assertion_def raise_if_def)

lemma no_assertion_checks: "(\<And>c. c \<in> set cs \<Longrightarrow> no_assertion c) \<Longrightarrow> no_assertion (checks cs)"
  unfolding no_assertion_def using checks_Inl_mem by blast

lemma no_assertion_then:
  "no_assertion m \<Longrightarrow> (\<And>x. m = Inr x \<Longrightarrow> no_assertion (f x)) \<Longrightarrow> no_assertion (and_then m f)"
  by (cases m) (auto simp: no_assertion_def)

lemma no_assertion_map: "(\<And>x. x \<in> set xs \<Longrightarrow> no_assertion (f x)) \<Longrightarrow> no_assertion (map_results f xs)"
  by (induction xs) (auto intro!: no_assertion_then)

lemmas no_assertion_intros = no_assertion_checks no_assertion_then no_assertion_map

lemma no_assertion_nesting: "no_assertion (visit_nesting inside n)"
proof (induction n arbitrary: inside rule: ast.kids_induct)
  case (1 n)
  then show ?case
    by (subst visit_nesting.simps) (auto intro!: no_assertion_checks)
qed

lemma no_assertion_ungrouped: "no_assertion (ungrouped_local_columns n grouped locals)"
proof (induction n grouped locals rule: ungrouped_local_columns.induct)
  case (1 n grouped locals)
  then show ?case
    by (subst ungrouped_local_columns.simps)
       (auto simp: unhashable_list_def intro!: no_assertion_then no_assertion_map split: option.splits)
qed

lemma no_assertion_null_extend: "no_assertion (null_extend js visible nullable)"
  by (induction js arbitrary: visible nullable) (auto simp: Let_def)

lemma no_assertion_nulls: "no_assertion (null_extended_sources s)"
  by (auto simp: null_extended_sources_def no_assertion_null_extend split: option.splits)

lemma no_assertion_joins: "no_assertion (add_joins js scope)"
  by (induction js arbitrary: scope) (auto simp: add_source_def Let_def intro!: no_assertion_then split: prod.splits)

lemma no_assertion_parts:
  "no_assertion (validate_compound_shape s)" "no_assertion (validate_recursive_cte s name)"
  "no_assertion (validate_sources s outer)" "no_assertion (validate_locks s)"
  "no_assertion (validate_dialect_nodes s d)" "no_assertion (validate_analytic_clauses s)"
  "no_assertion (validate_grouping s)" "no_assertion (validate_expression_dialect d e)"
  "no_assertion (validate_dml_sources t ps vs rs)" "no_assertion (validate_insert i)"
  "no_assertion (reject_aggregates_and_windows es st)"
proof -
  have temporal: "no_assertion (validate_temporal_node t)" for t
    by (cases t rule: validate_temporal_node.cases) (auto intro!: no_assertion_checks)
  show expr: "no_assertion (validate_expression_dialect d e)" for e
    unfolding validate_expression_dialect_def
    by (auto intro!: no_assertion_checks temporal split: node.splits)
  show "no_assertion (validate_compound_shape s)" "no_assertion (validate_recursive_cte s name)"
    unfolding validate_compound_shape_def validate_recursive_cte_def
    by (auto simp: Let_def intro!: no_assertion_checks)
  show "no_assertion (validate_sources s outer)"
    unfolding validate_sources_def validate_projected_nullability_def
    by (auto simp: Let_def check_cte_source_def undeclared_cte_def add_source_def no_assertion_joins no_assertion_nulls
        validate_selection_nullability_def intro!: no_assertion_intros split: option.splits)
  show "no_assertion (validate_locks s)"
    unfolding validate_locks_def by (auto simp: Let_def no_assertion_nulls intro!: no_assertion_intros)
  show "no_assertion (validate_dialect_nodes s d)"
    unfolding validate_dialect_nodes_def by (auto intro!: no_assertion_checks expr)
  show "no_assertion (validate_analytic_clauses s)"
    unfolding validate_analytic_clauses_def
    by (auto simp: validate_aggregate_nesting_def intro!: no_assertion_checks no_assertion_nesting split: node.splits)
  show "no_assertion (validate_grouping s)"
    unfolding validate_grouping_def
    by (auto simp: unhashable_list_def intro!: no_assertion_intros no_assertion_ungrouped)
  show "no_assertion (validate_dml_sources t ps vs rs)"
    by (simp add: validate_dml_sources_def Let_def)
  show "no_assertion (validate_insert i)"
    unfolding validate_insert_def Let_def
    by (auto simp: validate_dml_sources_def Let_def intro!: no_assertion_checks split: option.splits)
  show "no_assertion (reject_aggregates_and_windows es st)"
    by (simp add: reject_aggregates_and_windows_def)
qed

lemma no_assertion_select:
  assumes ctes: "\<And>c v q. (c, v) \<in> set (declared_before {} (ctes s)) \<Longrightarrow> cte_query c = SelectQ q \<Longrightarrow>
        no_assertion (validate_select q d (v \<union> outer \<union> (if cte_recursive c then {cte_name c} else {})))"
    and dml: "\<And>c v m. (c, v) \<in> set (declared_before {} (ctes s)) \<Longrightarrow> cte_query c = DmlQ m \<Longrightarrow>
        no_assertion (validate_data_modifying_cte c m d (v \<union> outer))"
    and arms: "\<And>c. c \<in> set (compounds s) \<Longrightarrow>
        no_assertion (validate_select (compound_query c) d (outer \<union> set (map cte_name (ctes s))))"
    and derived: "\<And>q a. DerivedSourceNode q a \<in> set (select_sources s) \<Longrightarrow>
        no_assertion (validate_select q d (outer \<union> set (map cte_name (ctes s))))"
    and nested: "\<And>e. e \<in> set (clause_expressions s) \<Longrightarrow>
        no_assertion (validate_nested_selects e d (outer \<union> set (map cte_name (ctes s)) \<union> local_sources s))"
  shows "no_assertion (validate_select s d outer)"
proof -
  let ?visible = "outer \<union> set (map cte_name (ctes s))"
  define before where "before = validate_compound_shape s # map (\<lambda>(cte, prior). checks
         [raise_if (cte_name cte \<in> prior) (ValueError ''CTE is declared more than once'' [cte_name cte]),
          case cte_query cte of
            SelectQ q \<Rightarrow> checks
              [if cte_recursive cte then validate_recursive_cte q (cte_name cte) else Inr (),
               validate_select q d
                 (prior \<union> outer \<union> (if cte_recursive cte then {cte_name cte} else {}))]
          | DmlQ m \<Rightarrow> validate_data_modifying_cte cte m d (prior \<union> outer)])
       (declared_before {} (ctes s))
     @ [validate_sources s ?visible, validate_locks s, validate_dialect_nodes s d,
        validate_analytic_clauses s, validate_grouping s]
     @ map (\<lambda>c. checks
         [raise_if (locks (compound_query c) \<noteq> []) (ValueError
            ''row locking cannot be combined with UNION, INTERSECT, or EXCEPT'' []),
          validate_select (compound_query c) d ?visible]) (compounds s)"
  have before: "no_assertion (checks before)"
    unfolding before_def
    by (auto intro!: no_assertion_checks no_assertion_parts arms [simplified] dml ctes [simplified] split: query_node.splits)
  define after where "after = raise_if (from_source s = None) (AssertionError ''validated SELECT has no source'')
     # map (\<lambda>source. case source of
           DerivedSourceNode q alias \<Rightarrow> validate_select q d ?visible
         | _ \<Rightarrow> Inr ()) (select_sources s)
     @ map (\<lambda>e. validate_nested_selects e d (?visible \<union> local_sources s)) (clause_expressions s)"
  have split: "validate_select s d outer = checks (before @ after)"
    unfolding validate_select.simps [of s] before_def after_def Let_def by simp
  have source: "no_assertion (case src of DerivedSourceNode q alias \<Rightarrow> validate_select q d ?visible | _ \<Rightarrow> Inr ())"
    if "src \<in> set (select_sources s)" for src
    by (cases src; use that derived in auto)
  have "no_assertion (checks after)" if "from_source s \<noteq> None"
  proof (rule no_assertion_checks)
    fix c assume "c \<in> set after"
    then show "no_assertion c"
      using that nested source unfolding after_def list.set_map by auto
  qed
  moreover have "from_source s \<noteq> None" if "checks before = Inr u" for u
    using that by (auto simp: before_def checks_ok validate_sources_def split: option.splits)
  ultimately show ?thesis
    using before unfolding split checks_append by (cases "checks before") auto
qed

lemma no_assertion_validate:
  shows "no_assertion (validate_statement q d outer)" and "no_assertion (validate_select s d outer)"
    and "no_assertion (validate_data_modifying_cte c m d outer)"
    and "no_assertion (validate_insert_statement i d outer)"
    and "no_assertion (validate_insert_dialect i d outer)"
    and "no_assertion (validate_dml_dialect x d outer)" and "no_assertion (validate_nested_selects e d outer)"
proof (induction q d outer and s d outer and c m d outer and i d outer and i d outer and x d outer and e d outer
    rule: validate_statement_validate_select_validate_data_modifying_cte_validate_insert_statement_validate_insert_dialect_validate_dml_dialect_validate_nested_selects.induct)
  case (5 s d outer)
  show ?case
    by (rule no_assertion_select) (use 5 in \<open>auto\<close>)
next
  case (7 i d outer)
  then show ?case
    unfolding validate_insert_statement.simps [of i]
    by (auto intro!: no_assertion_checks no_assertion_parts split: option.splits insert_source.splits list.splits)
next
  case (8 i d outer)
  then show ?case
    unfolding validate_insert_dialect.simps [of i]
    by (auto intro!: no_assertion_checks no_assertion_parts)
next
  case (9 x d outer)
  then show ?case
    unfolding validate_dml_dialect.simps [of x]
    by (auto intro!: no_assertion_checks no_assertion_parts)
next
  case (10 e d outer)
  then show ?case
    unfolding validate_nested_selects.simps [of e] by (auto intro!: no_assertion_checks)
next
  case (6 c m d outer)
  then show ?case
    unfolding validate_data_modifying_cte.simps [of c] by (auto intro!: no_assertion_checks)
qed (auto intro!: no_assertion_checks no_assertion_parts)

lemma no_assertion_query: "no_assertion (validate_query q d)"
  unfolding validate_query_def validate_data_modifying_cte_placement_def validate_nested_cte_visibility_def
  by (auto simp: Let_def check_cte_source_def undeclared_cte_def intro!: no_assertion_checks no_assertion_validate
    split: query_node.splits option.splits)

text \<open>
  C1.  No internal error of the compiler escapes: whatever statement it is given, valid or not,
  \<open>_compile\<close> never raises one of the \<open>AssertionError\<close>s that guard its invariants.
\<close>

theorem compile_never_asserts:
  assumes "compile q d = Inl e"
  shows "e \<noteq> AssertionError message"
proof (cases "validate_query q d")
  case (Inl e')
  with assms no_assertion_query [of q d] show ?thesis by (auto simp: compile_def no_assertion_def)
next
  case (Inr u)
  then have "ok_statement d q" using validated_ok [of q d] by simp
  moreover from assms Inr have "render_query q d = Inl e" by (simp add: compile_def)
  ultimately have "value_error e"
    using rendered_errors [of d q "[]"]
    by (auto simp: render_query_def and_then_Inl split: option.splits if_splits)
  then show ?thesis by (auto simp: value_error_def)
qed

text \<open>
  C19.  A compiled statement never carries more parameters than its dialect's driver accepts (999 on
  SQLite, 32767 on PostgreSQL); a statement with more is rejected instead.
\<close>

theorem compiled_parameters_bounded:
  assumes "compile q d = Inr r" "max_parameters d = Some n"
  shows "length (parameters r) \<le> n"
  using assms by (auto simp: compile_def and_then_ok render_query_def split: if_splits)

declare compile_def [py_eval] compile_sqlite_def [py_eval] compile_postgres_def [py_eval]

text \<open>\<open>SELECT\<close> of some nodes from one unaliased table, for the concrete statements below.\<close>

abbreviation plain_table :: "string \<Rightarrow> py_value source" where
  "plain_table name \<equiv> TableSource (TableSourceNode name None None)"

abbreviation select_where :: "py_value node list \<Rightarrow> py_value source \<Rightarrow> py_value node option \<Rightarrow> py_value select_node" where
  "select_where nodes source predicate \<equiv>
     SelectNode nodes (Some source) [] predicate [] None [] None None False [] [] []"

theorem compile_never_asserts_witness:
  "ValueError ''does not support PostgreSQL temporal expressions'' [''sqlite'']
   \<noteq> AssertionError ''attempted to render an unvalidated SELECT''"
proof -
  have "compile (SelectQ (select_where [TemporalNode (TemporalClockNode ''current_date'')] (plain_table ''t'') None))
      sqlite = Inl (ValueError ''does not support PostgreSQL temporal expressions'' [''sqlite''])"
    by (simp add: py_eval checks.simps)
  then show ?thesis by (rule compile_never_asserts)
qed

theorem compiled_parameters_bounded_witness:
  "length [PyStr ''x''] \<le> 999"
proof -
  have "compile (SelectQ (select_where [ColumnNode ''t'' ''a''] (plain_table ''t'')
        (Some (BinaryNode (ColumnNode ''t'' ''a'') ''='' (ValueNode (PyStr ''x'')))))) sqlite
      = Inr \<lparr>sql = ''select \"t\".\"a\" from \"t\" where (\"t\".\"a\" = ?)'', parameters = [PyStr ''x'']\<rparr>"
    by (simp add: py_eval checks.simps)
  from compiled_parameters_bounded [OF this] show ?thesis by (simp add: dialect_defs)
qed

end
