(* ===== verification/Expressions.thy ===== *)
theory Expressions
  imports Compiler
begin

text \<open>
  The expression builders of \<open>relq/expressions/core.py\<close>, \<open>relq/expressions/ordering.py\<close> and
  \<open>relq/postgres.py\<close>.  A public expression is an object of one of the classes below around a private
  syntax node; \<open>Expr\<close> carries both.  The construction tokens and the weak registry of
  \<open>_node_value.py\<close>, which keep callers from making such objects themselves, have no counterpart:
  an \<open>expr\<close> whose class is \<open>PredicateClass\<close> is one only the builders of this theory return.

  An argument the source annotates \<open>Expr[T]\<close> is an \<open>expr\<close>.  One annotated \<open>T | Expr[T]\<close> or
  \<open>object\<close> is an \<open>operand\<close>: an expression or any other Python object.
\<close>

section \<open>Expression objects\<close>

datatype expr_class =
    ExprClass
  | PredicateClass
  | NullablePredicateClass
  | AggregateClass
  | WindowSpecClass
  | ColumnClass string

datatype expr = Expr (class_of: expr_class) (node_of: "py_value node")

datatype operand = Operand expr | Literal py_value

definition expression :: "py_value node \<Rightarrow> expr" where
  "expression n = Expr ExprClass n"

definition temporal :: "py_value node temporal_node \<Rightarrow> expr" where
  "temporal t = expression (TemporalNode t)"

definition predicate :: "py_value node \<Rightarrow> expr" where
  "predicate n = Expr PredicateClass n"

definition nullable_predicate :: "py_value node \<Rightarrow> expr" where
  "nullable_predicate n = Expr NullablePredicateClass n"

fun operand_node :: "operand \<Rightarrow> py_value node" where
  "operand_node (Operand e) = node_of e"
| "operand_node (Literal v) = ValueNode v"

definition value_expr :: "py_value \<Rightarrow> expr" where
  "value_expr item = expression (ValueNode item)"

lemmas wrappers = expression_def temporal_def predicate_def nullable_predicate_def value_expr_def

section \<open>Comparisons, membership and truth values\<close>

definition comparison_node :: "py_value node \<Rightarrow> string \<Rightarrow> operand \<Rightarrow> expr" where
  "comparison_node e operator other =
     (if other = Literal PyNone
      then nullable_predicate (UnaryNode (if operator = ''='' then ''is null'' else ''is not null'') e)
      else nullable_predicate (BinaryNode e operator (operand_node other)))"

definition expr_eq :: "expr \<Rightarrow> operand \<Rightarrow> expr" where
  "expr_eq self other = comparison_node (node_of self) ''='' other"

definition expr_ne :: "expr \<Rightarrow> operand \<Rightarrow> expr" where
  "expr_ne self other = comparison_node (node_of self) ''<>'' other"

definition expr_lt :: "expr \<Rightarrow> operand \<Rightarrow> expr" where
  "expr_lt self other = nullable_predicate (BinaryNode (node_of self) ''<'' (operand_node other))"

definition expr_lte :: "expr \<Rightarrow> operand \<Rightarrow> expr" where
  "expr_lte self other = nullable_predicate (BinaryNode (node_of self) ''<='' (operand_node other))"

definition expr_gt :: "expr \<Rightarrow> operand \<Rightarrow> expr" where
  "expr_gt self other = nullable_predicate (BinaryNode (node_of self) ''>'' (operand_node other))"

definition expr_gte :: "expr \<Rightarrow> operand \<Rightarrow> expr" where
  "expr_gte self other = nullable_predicate (BinaryNode (node_of self) ''>='' (operand_node other))"

definition expr_like :: "expr \<Rightarrow> operand \<Rightarrow> expr" where
  "expr_like self pattern = nullable_predicate (BinaryNode (node_of self) ''like'' (operand_node pattern))"

text \<open>The second argument of \<open>in_\<close>: an iterable of operands or a one-column SELECT.\<close>

datatype members = Items "operand list" | Rows "py_value select_node"

fun membership :: "expr \<Rightarrow> members \<Rightarrow> bool \<Rightarrow> expr" where
  "membership e (Rows query) negated = nullable_predicate (InNode (node_of e) (InSelect query) negated)"
| "membership e (Items items) negated = (let nodes = map operand_node items in
     if nodes = [] then nullable_predicate (ValueNode (PyBool negated))
     else nullable_predicate (InNode (node_of e) (InList nodes) negated))"

definition expr_in :: "expr \<Rightarrow> members \<Rightarrow> expr" where
  "expr_in self items = membership self items False"

definition expr_not_in :: "expr \<Rightarrow> members \<Rightarrow> expr" where
  "expr_not_in self items = membership self items True"

definition expr_between :: "expr \<Rightarrow> operand \<Rightarrow> operand \<Rightarrow> expr" where
  "expr_between self lower upper =
     nullable_predicate (BetweenNode (node_of self) (operand_node lower) (operand_node upper) False)"

definition expr_not_between :: "expr \<Rightarrow> operand \<Rightarrow> operand \<Rightarrow> expr" where
  "expr_not_between self lower upper =
     nullable_predicate (BetweenNode (node_of self) (operand_node lower) (operand_node upper) True)"

definition expr_is_null :: "expr \<Rightarrow> expr" where
  "expr_is_null self = predicate (UnaryNode ''is null'' (node_of self))"

definition expr_is_not_null :: "expr \<Rightarrow> expr" where
  "expr_is_not_null self = predicate (UnaryNode ''is not null'' (node_of self))"

definition expr_is_true :: "expr \<Rightarrow> expr" where
  "expr_is_true self = predicate (UnaryNode ''is true'' (node_of self))"

definition expr_is_false :: "expr \<Rightarrow> expr" where
  "expr_is_false self = predicate (UnaryNode ''is false'' (node_of self))"

definition expr_is_not_true :: "expr \<Rightarrow> expr" where
  "expr_is_not_true self = predicate (UnaryNode ''is not true'' (node_of self))"

definition expr_is_not_false :: "expr \<Rightarrow> expr" where
  "expr_is_not_false self = predicate (UnaryNode ''is not false'' (node_of self))"

definition expr_as :: "expr \<Rightarrow> string \<Rightarrow> expr result" where
  "expr_as self alias = and_then (raise_if (alias = '''') (ValueError ''expression alias must not be empty'' []))
     (\<lambda>_. Inr (expression (AliasNode (node_of self) alias)))"

definition expr_nullable :: "expr \<Rightarrow> expr" where
  "expr_nullable self = expression (NullableResultNode (node_of self))"

text \<open>
  \<open>&\<close>, \<open>|\<close> and \<open>~\<close>.  A \<open>Predicate\<close> looks at the class of its right operand; a \<open>NullablePredicate\<close>
  relies on the annotation \<open>BooleanExpression\<close>.  Neither has a Python truth value.
\<close>

definition combine_truth :: "py_value node \<Rightarrow> string \<Rightarrow> operand \<Rightarrow> expr result" where
  "combine_truth left operator right = (case right of
       Operand (Expr PredicateClass n) \<Rightarrow> Inr (predicate (BinaryNode left operator n))
     | Operand (Expr NullablePredicateClass n) \<Rightarrow> Inr (nullable_predicate (BinaryNode left operator n))
     | _ \<Rightarrow> Inl (TypeError ''SQL boolean operations require a SQL truth expression'' []))"

definition predicate_bool :: "expr \<Rightarrow> bool result" where
  "predicate_bool self = Inl (TypeError
     ''SQL predicates cannot be used as Python booleans; pass them to where()'' [])"

definition predicate_and :: "expr \<Rightarrow> operand \<Rightarrow> expr result" where
  "predicate_and self other = combine_truth (node_of self) ''and'' other"

definition predicate_or :: "expr \<Rightarrow> operand \<Rightarrow> expr result" where
  "predicate_or self other = combine_truth (node_of self) ''or'' other"

definition predicate_invert :: "expr \<Rightarrow> expr" where
  "predicate_invert self = predicate (UnaryNode ''not'' (node_of self))"

definition nullable_and :: "expr \<Rightarrow> expr \<Rightarrow> expr" where
  "nullable_and self other = nullable_predicate (BinaryNode (node_of self) ''and'' (node_of other))"

definition nullable_or :: "expr \<Rightarrow> expr \<Rightarrow> expr" where
  "nullable_or self other = nullable_predicate (BinaryNode (node_of self) ''or'' (node_of other))"

definition nullable_invert :: "expr \<Rightarrow> expr" where
  "nullable_invert self = nullable_predicate (UnaryNode ''not'' (node_of self))"

lemmas comparison_defs = comparison_node_def expr_eq_def expr_ne_def expr_lt_def expr_lte_def
  expr_gt_def expr_gte_def expr_like_def expr_in_def expr_not_in_def expr_between_def
  expr_not_between_def expr_is_null_def expr_is_not_null_def expr_is_true_def expr_is_false_def
  expr_is_not_true_def expr_is_not_false_def expr_nullable_def

lemmas truth_defs = combine_truth_def predicate_and_def predicate_or_def predicate_invert_def
  nullable_and_def nullable_or_def nullable_invert_def

section \<open>Subqueries, conditionals and arithmetic\<close>

definition scalar :: "py_value select_node \<Rightarrow> expr" where
  "scalar query = expression (ScalarSubqueryNode query)"

definition exists_query :: "py_value select_node \<Rightarrow> expr" where
  "exists_query query = predicate (ExistsNode query False)"

definition not_exists_query :: "py_value select_node \<Rightarrow> expr" where
  "not_exists_query query = predicate (ExistsNode query True)"

definition coalesce :: "expr \<Rightarrow> expr \<Rightarrow> expr list \<Rightarrow> expr" where
  "coalesce first second rest =
     expression (FunctionNode ''coalesce'' (node_of first # node_of second # map node_of rest))"

definition nullif :: "expr \<Rightarrow> operand \<Rightarrow> expr" where
  "nullif left right = expression (FunctionNode ''nullif'' [node_of left, operand_node right])"

text \<open>The searched CASE builder: the branches so far.\<close>

datatype case_builder = CaseWhen (case_branches: "(py_value node \<times> py_value node) list")

definition case_when :: "expr \<Rightarrow> operand \<Rightarrow> case_builder" where
  "case_when condition result = CaseWhen [(node_of condition, operand_node result)]"

definition when_branch :: "case_builder \<Rightarrow> expr \<Rightarrow> operand \<Rightarrow> case_builder" where
  "when_branch self condition result =
     CaseWhen (case_branches self @ [(node_of condition, operand_node result)])"

definition else_value :: "case_builder \<Rightarrow> operand \<Rightarrow> expr" where
  "else_value self otherwise = expression (CaseNode (case_branches self) (operand_node otherwise))"

definition else_null :: "case_builder \<Rightarrow> expr" where
  "else_null self = expression (CaseNode (case_branches self) (ValueNode PyNone))"

definition numeric_binary :: "operand \<Rightarrow> string \<Rightarrow> operand \<Rightarrow> expr result" where
  "numeric_binary left operator right = (case left of
       Literal _ \<Rightarrow> Inl (TypeError
         ''numeric operations require a SQL expression as their left operand'' [])
     | Operand e \<Rightarrow> Inr (expression (BinaryNode (node_of e) operator (operand_node right))))"

definition add_expr :: "operand \<Rightarrow> operand \<Rightarrow> expr result" where
  "add_expr left right = numeric_binary left ''+'' right"

definition subtract_expr :: "operand \<Rightarrow> operand \<Rightarrow> expr result" where
  "subtract_expr left right = numeric_binary left ''-'' right"

definition multiply_expr :: "operand \<Rightarrow> operand \<Rightarrow> expr result" where
  "multiply_expr left right = numeric_binary left ''*'' right"

definition divide_expr :: "operand \<Rightarrow> operand \<Rightarrow> expr result" where
  "divide_expr left right = numeric_binary left ''/'' right"

lemmas conditional_defs = scalar_def exists_query_def not_exists_query_def coalesce_def nullif_def
  case_when_def when_branch_def else_value_def else_null_def numeric_binary_def add_expr_def
  subtract_expr_def multiply_expr_def divide_expr_def

end
