(* ===== verification/Temporal.thy ===== *)
theory Temporal
  imports Expressions
begin

text \<open>
  The rest of the expression builders: the temporal functions of \<open>relq/expressions/core.py\<close>, the
  orderings of \<open>relq/expressions/ordering.py\<close>, and the PostgreSQL-only expressions of
  \<open>relq/postgres.py\<close>.  A member of one of the closed enumerations \<open>ExtractField\<close> and \<open>TruncUnit\<close> is
  \<open>Some\<close> of its value; any other object passed for one is \<open>None\<close> or a string no member has.
\<close>

section \<open>Clocks and constructors\<close>

definition transaction_timestamp :: expr where
  "transaction_timestamp = temporal (TemporalClockNode ''transaction_timestamp'')"

definition statement_timestamp :: expr where
  "statement_timestamp = temporal (TemporalClockNode ''statement_timestamp'')"

definition clock_timestamp :: expr where
  "clock_timestamp = temporal (TemporalClockNode ''clock_timestamp'')"

definition current_date :: expr where
  "current_date = temporal (TemporalClockNode ''current_date'')"

definition current_time :: expr where
  "current_time = temporal (TemporalClockNode ''current_time'')"

definition local_time :: expr where
  "local_time = temporal (TemporalClockNode ''local_time'')"

definition local_timestamp :: expr where
  "local_timestamp = temporal (TemporalClockNode ''local_timestamp'')"

definition make_date :: "operand \<Rightarrow> operand \<Rightarrow> operand \<Rightarrow> expr" where
  "make_date year month day =
     temporal (TemporalMakeDateNode (operand_node year) (operand_node month) (operand_node day))"

definition make_time :: "operand \<Rightarrow> operand \<Rightarrow> operand \<Rightarrow> expr" where
  "make_time hour minute second =
     temporal (TemporalMakeTimeNode (operand_node hour) (operand_node minute) (operand_node second))"

definition make_timestamp ::
  "operand \<Rightarrow> operand \<Rightarrow> operand \<Rightarrow> operand \<Rightarrow> operand \<Rightarrow> operand \<Rightarrow> expr" where
  "make_timestamp year month day hour minute second =
     temporal (TemporalMakeTimestampNode (operand_node year) (operand_node month) (operand_node day)
       (operand_node hour) (operand_node minute) (operand_node second))"

text \<open>\<open>type(zone) is str or isinstance(zone, Expr)\<close>, the test three builders make of a time zone.\<close>

fun is_text :: "operand \<Rightarrow> bool" where
  "is_text (Operand e) = True"
| "is_text (Literal (PyStr s)) = True"
| "is_text (Literal _) = False"

definition make_timestamptz ::
  "operand \<Rightarrow> operand \<Rightarrow> operand \<Rightarrow> operand \<Rightarrow> operand \<Rightarrow> operand \<Rightarrow> operand \<Rightarrow> expr result" where
  "make_timestamptz year month day hour minute second zone =
     and_then (raise_if (zone \<noteq> Literal PyNone \<and> \<not> is_text zone) (TypeError
         ''make_timestamptz time zone must be text or a SQL text expression'' []))
       (\<lambda>_. Inr (temporal (TemporalMakeTimestamptzNode (operand_node year) (operand_node month)
         (operand_node day) (operand_node hour) (operand_node minute) (operand_node second)
         (if zone = Literal PyNone then None else Some (operand_node zone)))))"

text \<open>\<open>isinstance(value, Expr) or value != 0\<close>\<close>

fun given_component :: "operand \<Rightarrow> bool" where
  "given_component (Operand e) = True"
| "given_component (Literal v) = (\<not> py_eq v (PyInt 0))"

definition make_interval ::
  "operand \<Rightarrow> operand \<Rightarrow> operand \<Rightarrow> operand \<Rightarrow> operand \<Rightarrow> operand \<Rightarrow> operand \<Rightarrow> expr" where
  "make_interval years months weeks days hours minutes seconds = temporal (TemporalMakeIntervalNode
     (map (\<lambda>(name, value). (name, operand_node value)) (filter (\<lambda>(name, value). given_component value)
       [(''years'', years), (''months'', months), (''weeks'', weeks), (''days'', days), (''hours'', hours),
        (''mins'', minutes), (''secs'', seconds)])))"

definition to_timestamp :: "operand \<Rightarrow> expr" where
  "to_timestamp seconds = temporal (TemporalEpochNode (operand_node seconds))"

section \<open>Intervals and differences\<close>

definition age :: "expr \<Rightarrow> expr \<Rightarrow> expr" where
  "age left right = temporal (TemporalAgeNode (node_of left) (node_of right))"

definition justify_days :: "operand \<Rightarrow> expr" where
  "justify_days interval = temporal (TemporalJustifyNode ''justify_days'' (operand_node interval))"

definition justify_hours :: "operand \<Rightarrow> expr" where
  "justify_hours interval = temporal (TemporalJustifyNode ''justify_hours'' (operand_node interval))"

definition justify_interval :: "operand \<Rightarrow> expr" where
  "justify_interval interval = temporal (TemporalJustifyNode ''justify_interval'' (operand_node interval))"

definition add_interval :: "expr \<Rightarrow> operand \<Rightarrow> expr" where
  "add_interval timestamp delta =
     temporal (TemporalArithmeticNode (node_of timestamp) ''+'' (operand_node delta))"

definition subtract_interval :: "expr \<Rightarrow> operand \<Rightarrow> expr" where
  "subtract_interval timestamp delta =
     temporal (TemporalArithmeticNode (node_of timestamp) ''-'' (operand_node delta))"

definition date_difference :: "expr \<Rightarrow> expr \<Rightarrow> expr" where
  "date_difference left right = temporal (TemporalDifferenceNode (node_of left) (node_of right))"

definition time_difference :: "expr \<Rightarrow> expr \<Rightarrow> expr" where
  "time_difference left right = temporal (TemporalDifferenceNode (node_of left) (node_of right))"

definition timestamp_difference :: "expr \<Rightarrow> expr \<Rightarrow> expr" where
  "timestamp_difference left right = temporal (TemporalDifferenceNode (node_of left) (node_of right))"

definition negate_interval :: "operand \<Rightarrow> expr" where
  "negate_interval interval = temporal (TemporalIntervalUnaryNode (operand_node interval))"

definition multiply_interval :: "operand \<Rightarrow> operand \<Rightarrow> expr" where
  "multiply_interval interval factor =
     temporal (TemporalIntervalScaleNode (operand_node interval) ''*'' (operand_node factor))"

definition divide_interval :: "operand \<Rightarrow> operand \<Rightarrow> expr" where
  "divide_interval interval factor =
     temporal (TemporalIntervalScaleNode (operand_node interval) ''/'' (operand_node factor))"

section \<open>Time zones, fields and ranges\<close>

definition at_time_zone :: "operand \<Rightarrow> operand \<Rightarrow> expr result" where
  "at_time_zone e zone = (case e of
       Literal _ \<Rightarrow> Inl (TypeError ''AT TIME ZONE requires a SQL temporal expression'' [])
     | Operand x \<Rightarrow> and_then (raise_if (\<not> is_text zone) (TypeError ''AT TIME ZONE requires a text zone'' []))
         (\<lambda>_. Inr (temporal (TemporalTimezoneNode (node_of x) (operand_node zone)))))"

definition extract_field :: "string option \<Rightarrow> expr \<Rightarrow> expr result" where
  "extract_field field e =
     (if field \<notin> Some ` set extract_field_values
      then Inl (TypeError ''extract requires an ExtractField'' [])
      else Inr (temporal (TemporalExtractNode (the field) (node_of e))))"

definition date_trunc :: "string option \<Rightarrow> expr \<Rightarrow> operand \<Rightarrow> expr result" where
  "date_trunc unit_member e zone =
     (if unit_member \<notin> Some ` set trunc_unit_values
      then Inl (TypeError ''date_trunc requires a TruncUnit'' [])
      else if zone \<noteq> Literal PyNone \<and> \<not> is_text zone
      then Inl (TypeError ''date_trunc time zone must be text or a SQL text expression'' [])
      else Inr (temporal (if zone = Literal PyNone then TemporalTruncNode (the unit_member) (node_of e)
             else TemporalTruncTimestamptzNode (the unit_member) (node_of e) (operand_node zone))))"

definition date_bin :: "operand \<Rightarrow> expr \<Rightarrow> expr \<Rightarrow> expr" where
  "date_bin stride e origin =
     temporal (TemporalBinNode (operand_node stride) (node_of e) (node_of origin))"

definition overlaps :: "expr \<Rightarrow> expr \<Rightarrow> expr \<Rightarrow> expr \<Rightarrow> expr" where
  "overlaps left_start left_end right_start right_end =
     nullable_predicate (TemporalNode (TemporalOverlapsNode (node_of left_start) (node_of left_end)
       (node_of right_start) (node_of right_end)))"

lemmas temporal_defs = transaction_timestamp_def statement_timestamp_def clock_timestamp_def
  current_date_def current_time_def local_time_def local_timestamp_def make_date_def make_time_def
  make_timestamp_def make_timestamptz_def make_interval_def to_timestamp_def age_def
  justify_days_def justify_hours_def justify_interval_def add_interval_def subtract_interval_def
  date_difference_def time_difference_def timestamp_difference_def negate_interval_def
  multiply_interval_def divide_interval_def at_time_zone_def extract_field_def date_trunc_def
  date_bin_def overlaps_def

section \<open>Orderings\<close>

text \<open>An \<open>Order\<close> is an object around an \<open>OrderNode\<close>, represented by the node.\<close>

definition order_from_expression :: "py_value node \<Rightarrow> string \<Rightarrow> string option \<Rightarrow> py_value order" where
  "order_from_expression e direction nulls = OrderNode e direction nulls"

definition asc :: "expr \<Rightarrow> py_value order" where
  "asc self = order_from_expression (node_of self) ''asc'' None"

definition desc :: "expr \<Rightarrow> py_value order" where
  "desc self = order_from_expression (node_of self) ''desc'' None"

definition with_nulls :: "py_value order \<Rightarrow> string \<Rightarrow> py_value order result" where
  "with_nulls self placement = and_then (raise_if (order_nulls self \<noteq> None)
       (ValueError ''an ORDER BY expression can have only one NULL placement'' []))
     (\<lambda>_. Inr (order_from_expression (order_expression self) (order_direction self) (Some placement)))"

definition nulls_first :: "py_value order \<Rightarrow> py_value order result" where
  "nulls_first self = with_nulls self ''first''"

definition nulls_last :: "py_value order \<Rightarrow> py_value order result" where
  "nulls_last self = with_nulls self ''last''"

lemmas order_defs = order_from_expression_def asc_def desc_def with_nulls_def nulls_first_def
  nulls_last_def

section \<open>PostgreSQL-only expressions\<close>

definition json_text :: "expr \<Rightarrow> string \<Rightarrow> expr result" where
  "json_text item key = and_then
     (raise_if (key = '''') (ValueError ''json_text requires a non-empty member key'' []))
     (\<lambda>_. Inr (expression (JsonTextNode (node_of item) (ValueNode (PyStr key)))))"

definition regex_match :: "expr \<Rightarrow> operand \<Rightarrow> bool \<Rightarrow> expr" where
  "regex_match item pattern insensitive =
     nullable_predicate (RegexMatchNode (node_of item) (operand_node pattern) insensitive)"

definition cast_uuid :: "operand \<Rightarrow> expr result" where
  "cast_uuid item = (case item of
       Literal _ \<Rightarrow> Inl (TypeError ''cast_uuid requires a SQL text expression'' [])
     | Operand e \<Rightarrow> Inr (expression (UuidCastNode (node_of e))))"

lemmas postgres_defs = json_text_def regex_match_def cast_uuid_def

end
