(* ===== verification/Windows.thy ===== *)
theory Windows
  imports Temporal "HOL-Library.Log_Nat"
begin

text \<open>
  \<open>relq/expressions/analytics.py\<close>: aggregates, window functions and window specifications.  The
  frame bounds are compared as Python floats; \<open>float_of\<close> is the conversion of an integer to a
  double, so that the comparison is the code's also where it rounds.
\<close>

section \<open>Aggregates and window functions\<close>

definition aggregate :: "string \<Rightarrow> py_value node list \<Rightarrow> py_value node option \<Rightarrow> expr" where
  "aggregate name arguments condition = Expr AggregateClass (AggregateNode name arguments condition)"

definition window_spec :: "py_value node \<Rightarrow> expr" where
  "window_spec node = Expr WindowSpecClass node"

definition count_all :: "expr option \<Rightarrow> expr" where
  "count_all e = aggregate ''count'' [case e of None \<Rightarrow> StarNode | Some x \<Rightarrow> node_of x] None"

definition sum_of :: "operand \<Rightarrow> expr result" where
  "sum_of e = (case e of
       Literal _ \<Rightarrow> Inl (TypeError ''sum() requires a SQL expression'' [])
     | Operand x \<Rightarrow> Inr (aggregate ''sum'' [node_of x] None))"

definition avg_of :: "expr \<Rightarrow> expr" where "avg_of e = aggregate ''avg'' [node_of e] None"

definition min_of :: "expr \<Rightarrow> expr" where "min_of e = aggregate ''min'' [node_of e] None"

definition max_of :: "expr \<Rightarrow> expr" where "max_of e = aggregate ''max'' [node_of e] None"

definition not_an_aggregate :: exn where
  "not_an_aggregate = TypeError ''AggregateExpr must contain an AggregateNode'' []"

fun aggregate_filter :: "expr \<Rightarrow> expr \<Rightarrow> expr result" where
  "aggregate_filter self condition = (case node_of self of
       AggregateNode name arguments previous \<Rightarrow> Inr (aggregate name arguments (Some (case previous of
           None \<Rightarrow> node_of condition
         | Some p \<Rightarrow> BinaryNode p ''and'' (node_of condition))))
     | _ \<Rightarrow> Inl not_an_aggregate)"

definition aggregate_over :: "expr \<Rightarrow> expr result" where
  "aggregate_over self =
     (if is_aggregate (node_of self) then Inr (window_spec (WindowNode (node_of self) [] [] None None))
      else Inl not_an_aggregate)"

text \<open>A \<open>WindowFunction\<close> is not an expression: it only becomes one by \<open>over()\<close>.\<close>

datatype window_function = WindowFunction (function_node: "py_value node")

definition row_number :: window_function where
  "row_number = WindowFunction (FunctionNode ''row_number'' [])"

definition rank :: window_function where "rank = WindowFunction (FunctionNode ''rank'' [])"

definition dense_rank :: window_function where
  "dense_rank = WindowFunction (FunctionNode ''dense_rank'' [])"

definition percent_rank :: window_function where
  "percent_rank = WindowFunction (FunctionNode ''percent_rank'' [])"

definition cume_dist :: window_function where
  "cume_dist = WindowFunction (FunctionNode ''cume_dist'' [])"

definition function_over :: "window_function \<Rightarrow> expr" where
  "function_over self = window_spec (WindowNode (function_node self) [] [] None None)"

lemmas aggregate_defs = aggregate_def window_spec_def count_all_def sum_of_def avg_of_def min_of_def
  max_of_def not_an_aggregate_def aggregate_over_def row_number_def rank_def dense_rank_def
  percent_rank_def cume_dist_def function_over_def

section \<open>Frame boundaries\<close>

text \<open>
  Python's \<open>float(n)\<close>: the nearest integer with 53 significant bits, ties to even; an
  \<open>OverflowError\<close> when that is \<open>2^1024\<close> or more.
\<close>

definition float_of :: "nat \<Rightarrow> nat result" where
  "float_of n =
     (if n < 2 ^ 53 then Inr n
      else let k = (floorlog 2 n - 53); q = n div 2 ^ k; r = n mod 2 ^ k; half = 2 ^ (k - 1);
             m = (if k = 0 then q else if half < r \<or> (r = half \<and> odd q) then q + 1 else q) * 2 ^ k
           in if 2 ^ 1024 \<le> m then Inl (OverflowError ''int too large to convert to float'') else Inr m)"

text \<open>The positions a frame compares: a float, or one of the infinities.\<close>

datatype position = MinusInfinity | At int | PlusInfinity

fun position_le :: "position \<Rightarrow> position \<Rightarrow> bool" where
  "position_le MinusInfinity q = True"
| "position_le (At i) MinusInfinity = False"
| "position_le (At i) (At j) = (i \<le> j)"
| "position_le (At i) PlusInfinity = True"
| "position_le PlusInfinity q = (q = PlusInfinity)"

definition frame_boundary :: "string \<Rightarrow> int option \<Rightarrow> frame_boundary" where
  "frame_boundary kind amount = FrameBoundaryNode kind amount"

definition unbounded_preceding :: frame_boundary where
  "unbounded_preceding = frame_boundary ''unbounded preceding'' None"

definition current_row :: frame_boundary where
  "current_row = frame_boundary ''current row'' None"

definition unbounded_following :: frame_boundary where
  "unbounded_following = frame_boundary ''unbounded following'' None"

text \<open>
  The argument of \<open>preceding\<close> and \<open>following\<close> is annotated \<open>int\<close>; a bool (\<open>Inl\<close>) is an instance of
  \<open>int\<close> in Python, and is refused.
\<close>

definition frame_offset :: "string \<Rightarrow> bool + int \<Rightarrow> frame_boundary result" where
  "frame_offset kind amount = (case amount of
       Inl _ \<Rightarrow> Inl (ValueError ''frame offset must be a non-negative integer'' [kind])
     | Inr n \<Rightarrow> and_then
         (raise_if (n < 0) (ValueError ''frame offset must be a non-negative integer'' [kind]))
         (\<lambda>_. Inr (frame_boundary kind (Some n))))"

definition preceding :: "bool + int \<Rightarrow> frame_boundary result" where
  "preceding amount = frame_offset ''preceding'' amount"

definition following :: "bool + int \<Rightarrow> frame_boundary result" where
  "following amount = frame_offset ''following'' amount"

text \<open>
  \<open>-float(n)\<close> and \<open>float(n)\<close> of a boundary's amount; the builders only make \<open>preceding\<close> and
  \<open>following\<close> boundaries that have one.
\<close>

definition frame_position :: "frame_boundary \<Rightarrow> position result" where
  "frame_position b =
     (if boundary_kind b = ''unbounded preceding'' then Inr MinusInfinity
      else if boundary_kind b = ''preceding'' then (case boundary_amount b of
          None \<Rightarrow> Inl (AssertionError '''')
        | Some n \<Rightarrow> and_then (float_of (nat n)) (\<lambda>x. Inr (At (- int x))))
      else if boundary_kind b = ''current row'' then Inr (At 0)
      else if boundary_kind b = ''following'' then (case boundary_amount b of
          None \<Rightarrow> Inl (AssertionError '''')
        | Some n \<Rightarrow> and_then (float_of (nat n)) (\<lambda>x. Inr (At (int x))))
      else if boundary_kind b = ''unbounded following'' then Inr PlusInfinity
      else Inl (ValueError ''unsupported window frame boundary'' [boundary_kind b]))"

definition validate_frame_bounds :: "frame_boundary \<Rightarrow> frame_boundary \<Rightarrow> unit result" where
  "validate_frame_bounds start stop = checks
     [raise_if (boundary_kind start = ''unbounded following'')
        (ValueError ''a window frame cannot start at unbounded following'' []),
      raise_if (boundary_kind stop = ''unbounded preceding'')
        (ValueError ''a window frame cannot end at unbounded preceding'' []),
      and_then (frame_position start) (\<lambda>p. and_then (frame_position stop) (\<lambda>q.
        raise_if (\<not> position_le p q) (ValueError ''a window frame start cannot follow its end'' [])))]"

lemmas frame_defs = frame_boundary_def unbounded_preceding_def current_row_def
  unbounded_following_def frame_offset_def preceding_def following_def

text \<open>
  The boundaries the public functions return, and the rows between two of them, by their offset from
  the current row: what an offset frame of \<open>ROWS\<close> means in SQL.
\<close>

inductive built_boundary :: "frame_boundary \<Rightarrow> bool" where
  built_unbounded_preceding: "built_boundary unbounded_preceding"
| built_current_row: "built_boundary current_row"
| built_unbounded_following: "built_boundary unbounded_following"
| built_preceding: "preceding amount = Inr b \<Longrightarrow> built_boundary b"
| built_following: "following amount = Inr b \<Longrightarrow> built_boundary b"

definition begins_by :: "frame_boundary \<Rightarrow> int \<Rightarrow> bool" where
  "begins_by b i \<longleftrightarrow>
     boundary_kind b = ''unbounded preceding''
     \<or> (boundary_kind b = ''preceding'' \<and> - the (boundary_amount b) \<le> i)
     \<or> (boundary_kind b = ''current row'' \<and> 0 \<le> i)
     \<or> (boundary_kind b = ''following'' \<and> the (boundary_amount b) \<le> i)"

definition ends_after :: "frame_boundary \<Rightarrow> int \<Rightarrow> bool" where
  "ends_after b i \<longleftrightarrow>
     boundary_kind b = ''unbounded following''
     \<or> (boundary_kind b = ''preceding'' \<and> i \<le> - the (boundary_amount b))
     \<or> (boundary_kind b = ''current row'' \<and> i \<le> 0)
     \<or> (boundary_kind b = ''following'' \<and> i \<le> the (boundary_amount b))"

text \<open>Every integer below \<open>2^53\<close> is a double.\<close>

definition exact_amount :: "frame_boundary \<Rightarrow> bool" where
  "exact_amount b \<longleftrightarrow> (\<forall>n \<in> set_option (boundary_amount b). n < 2 ^ 53)"

lemma built_boundary_cases:
  assumes "built_boundary b"
  obtains "b = FrameBoundaryNode ''unbounded preceding'' None"
  | "b = FrameBoundaryNode ''current row'' None"
  | "b = FrameBoundaryNode ''unbounded following'' None"
  | n where "0 \<le> n" "b = FrameBoundaryNode ''preceding'' (Some n)"
  | n where "0 \<le> n" "b = FrameBoundaryNode ''following'' (Some n)"
  using assms by cases (auto simp: frame_defs and_then_ok split: sum.splits)

text \<open>
  C27.  Below \<open>2^53\<close>, where the conversion to float is exact, a frame is accepted exactly when some
  row can lie in it: when some offset is neither before its start nor after its end.
\<close>

theorem frame_bounds_exact:
  assumes "built_boundary start" "built_boundary stop" "exact_amount start" "exact_amount stop"
  shows "validate_frame_bounds start stop = Inr () \<longleftrightarrow> (\<exists>i. begins_by start i \<and> ends_after stop i)"
proof -
  have mid: "(\<exists>i. a \<le> i \<and> i \<le> b) \<longleftrightarrow> a \<le> b" for a b :: int by (meson order_refl order_trans)
  have ends: "\<exists>i. i \<le> a" "Ex ((\<le>) a)" for a :: int by blast+
  have small: "n < 2 ^ 53 \<Longrightarrow> 0 \<le> n \<Longrightarrow> float_of (nat n) = Inr (nat n)" for n :: int
    by (simp add: float_of_def nat_less_iff)
  show ?thesis
    using assms(3,4)
    by (rule_tac built_boundary_cases [OF assms(1)]; rule_tac built_boundary_cases [OF assms(2)])
      (simp_all add: validate_frame_bounds_def checks_ok frame_position_def begins_by_def ends_after_def
        exact_amount_def small mid ends)
qed

theorem frame_bounds_exact_witness:
  "validate_frame_bounds (FrameBoundaryNode ''preceding'' (Some 2)) current_row = Inr ()
   \<and> validate_frame_bounds current_row (FrameBoundaryNode ''preceding'' (Some 2)) \<noteq> Inr ()"
proof -
  have p: "preceding (Inr 2) = Inr (FrameBoundaryNode ''preceding'' (Some 2))" by (simp add: frame_defs)
  note b = built_preceding [OF p] built_current_row
  have e: "exact_amount (FrameBoundaryNode ''preceding'' (Some 2))" "exact_amount current_row"
    by (simp_all add: exact_amount_def frame_defs)
  show ?thesis
    using frame_bounds_exact [OF b e] frame_bounds_exact [OF b(2) b(1) e(2) e(1)]
    by (auto simp: begins_by_def ends_after_def frame_defs intro: exI [of _ 0])
qed

section \<open>Window specifications\<close>

text \<open>
  The methods of \<open>WindowSpec\<close>.  Each takes the \<open>WindowNode\<close> apart and builds the changed one;
  \<open>window_parts\<close> is \<open>_window_node\<close>, which raises for any other node.
\<close>

fun window_parts :: "expr \<Rightarrow> (py_value node \<times> py_value node list \<times> py_value order list
    \<times> window_frame option \<times> string option) result" where
  "window_parts self = (case node_of self of
       WindowNode e partitions orders frame exclusion \<Rightarrow> Inr (e, partitions, orders, frame, exclusion)
     | _ \<Rightarrow> Inl (TypeError ''WindowSpec must contain a WindowNode'' []))"

definition partition_by :: "expr \<Rightarrow> expr list \<Rightarrow> expr result" where
  "partition_by self added = and_then
     (raise_if (added = []) (ValueError ''partition_by requires at least one expression'' []))
     (\<lambda>_. and_then (window_parts self) (\<lambda>(e, partitions, orders, frame, exclusion).
        Inr (window_spec (WindowNode e (partitions @ map node_of added) orders frame exclusion))))"

definition window_order_by :: "expr \<Rightarrow> py_value order list \<Rightarrow> expr result" where
  "window_order_by self added = and_then
     (raise_if (added = []) (ValueError ''window order_by requires at least one Order'' []))
     (\<lambda>_. and_then (window_parts self) (\<lambda>(e, partitions, orders, frame, exclusion).
        Inr (window_spec (WindowNode e partitions (orders @ added) frame exclusion))))"

definition with_frame :: "expr \<Rightarrow> string \<Rightarrow> frame_boundary \<Rightarrow> frame_boundary \<Rightarrow> expr result" where
  "with_frame self kind start stop =
     and_then (window_parts self) (\<lambda>(e, partitions, orders, frame, exclusion).
     and_then (checks
       [raise_if (frame \<noteq> None) (ValueError ''a window expression can have only one frame'' []),
        validate_frame_bounds start stop])
     (\<lambda>_. Inr (window_spec (WindowNode e partitions orders (Some (WindowFrameNode kind start stop)) exclusion))))"

definition rows_between :: "expr \<Rightarrow> frame_boundary \<Rightarrow> frame_boundary \<Rightarrow> expr result" where
  "rows_between self start stop = with_frame self ''rows'' start stop"

definition range_between :: "expr \<Rightarrow> frame_boundary \<Rightarrow> frame_boundary \<Rightarrow> expr result" where
  "range_between self start stop = with_frame self ''range'' start stop"

definition groups_between :: "expr \<Rightarrow> frame_boundary \<Rightarrow> frame_boundary \<Rightarrow> expr result" where
  "groups_between self start stop = with_frame self ''groups'' start stop"

datatype window_exclusion = NO_OTHERS | CURRENT_ROW | GROUP | TIES

fun exclusion_value :: "window_exclusion \<Rightarrow> string" where
  "exclusion_value NO_OTHERS = ''no others''"
| "exclusion_value CURRENT_ROW = ''current row''"
| "exclusion_value GROUP = ''group''"
| "exclusion_value TIES = ''ties''"

definition exclude :: "expr \<Rightarrow> window_exclusion \<Rightarrow> expr result" where
  "exclude self member =
     and_then (window_parts self) (\<lambda>(e, partitions, orders, frame, exclusion).
     and_then (checks
       [raise_if (frame = None) (ValueError ''window exclusions require an explicit frame'' []),
        raise_if (exclusion \<noteq> None) (ValueError ''a window expression can have only one exclusion'' [])])
     (\<lambda>_. Inr (window_spec (WindowNode e partitions orders frame (Some (exclusion_value member))))))"

lemmas window_defs = partition_by_def window_order_by_def with_frame_def rows_between_def
  range_between_def groups_between_def exclude_def

end
