(* ===== verification/Relations.thy ===== *)
theory Relations
  imports Windows
begin

text \<open>
  \<open>relq/expressions/relations.py\<close>: declared relations and their columns.  A class declaration is the
  list of the class dictionaries from the root of its method resolution order to the class itself, of
  which only the \<open>Column\<close> members matter: pairs of an attribute and the column's declared name.
  A relation object is its source node and the declared columns of its class; the attributes
  \<open>table_name\<close>, \<open>_alias\<close>, \<open>_schema\<close> and \<open>_reference\<close> the source stores beside the node are the fields of
  that node.
\<close>

section \<open>Declarations\<close>

text \<open>\<open>declared[attribute] = member\<close>: a new attribute is appended, an old one keeps its place.\<close>

fun dict_set :: "'k \<Rightarrow> 'v \<Rightarrow> ('k \<times> 'v) list \<Rightarrow> ('k \<times> 'v) list" where
  "dict_set k v [] = [(k, v)]"
| "dict_set k v ((k', v') # rest) = (if k' = k then (k, v) # rest else (k', v') # dict_set k v rest)"

text \<open>\<open>self._name or attribute\<close>\<close>

definition declared_name :: "string \<Rightarrow> string \<Rightarrow> string" where
  "declared_name name attribute = (if name = '''' then attribute else name)"

definition declare_members ::
  "(string \<times> string) list \<Rightarrow> (string \<times> string) list \<times> string set \<Rightarrow> (string \<times> string) list \<times> string set" where
  "declare_members members acc = foldl (\<lambda>(declared, names) (attribute, name).
     (dict_set attribute (declared_name name attribute) declared, insert (declared_name name attribute) names))
     acc members"

definition declared_columns :: "(string \<times> string) list list \<Rightarrow> (string \<times> string) list result" where
  "declared_columns classes = (case foldl (\<lambda>acc members. declare_members members acc) ([], {}) classes of
     (declared, names) \<Rightarrow>
       if card names \<noteq> length declared
       then Inl (TypeError ''relation declarations cannot contain duplicate column names'' [])
       else Inr declared)"

definition reserved_attributes :: "string set" where
  "reserved_attributes = {''_alias'', ''_reference'', ''_schema'', ''_source'', ''_state'', ''table_name'',
     ''as_'', ''column_names'', ''node'', ''output_names'', ''reference''}"

text \<open>Defining a subclass of \<open>Source\<close>: its columns, unless the declaration is refused.\<close>

definition init_subclass :: "string \<Rightarrow> (string \<times> string) list list \<Rightarrow> (string \<times> string) list result" where
  "init_subclass class_name classes = and_then (declared_columns classes) (\<lambda>declared.
     let clashes = sorted_names (set (map fst declared) \<inter> reserved_attributes) in
     if clashes \<noteq> []
     then Inl (TypeError ''declares column attribute(s) reserved by relq'' (class_name # clashes))
     else Inr declared)"

section \<open>Relations and columns\<close>

datatype relation =
  Relation (relation_node: "py_value source") (relation_columns: "(string \<times> string) list")

definition relation_reference :: "relation \<Rightarrow> string" where
  "relation_reference r = reference (relation_node r)"

text \<open>\<open>column_names\<close> of a table and \<open>output_names\<close> of a derived relation.\<close>

definition column_names :: "relation \<Rightarrow> string set" where
  "column_names r = set (map snd (relation_columns r))"

definition declared_column :: "string \<Rightarrow> expr" where
  "declared_column name = Expr (ColumnClass name) (ValueNode PyNone)"

text \<open>Reading a column attribute of a relation object: \<open>Column.__get__\<close>.\<close>

definition get_column :: "relation \<Rightarrow> string \<Rightarrow> expr" where
  "get_column r name = Expr (ColumnClass name) (ColumnNode (relation_reference r) name)"

definition source_columns :: "relation \<Rightarrow> expr list" where
  "source_columns r = map (\<lambda>(attribute, name). get_column r name) (relation_columns r)"

definition new_table :: "(string \<times> string) list \<Rightarrow> string \<Rightarrow> string option \<Rightarrow> relation result" where
  "new_table columns name schema = and_then
     (raise_if (schema = Some '''') (ValueError ''table schema must not be empty'' []))
     (\<lambda>_. Inr (Relation (TableSource (TableSourceNode name None schema)) columns))"

fun table_node :: "relation \<Rightarrow> table_source result" where
  "table_node (Relation (TableSource t) columns) = Inr t"
| "table_node _ = Inl (TypeError ''Table must contain a TableSourceNode'' [])"

definition table_as :: "relation \<Rightarrow> string \<Rightarrow> relation result" where
  "table_as r alias = and_then
     (raise_if (alias = '''') (ValueError ''table alias must not be empty'' []))
     (\<lambda>_. and_then (table_node r) (\<lambda>t.
       Inr (Relation (TableSource (TableSourceNode (table_name t) (Some alias) (table_schema t)))
         (relation_columns r))))"

text \<open>\<open>CteTable(name)\<close>; \<open>base\<close> says that the class is \<open>CteTable\<close> itself.\<close>

definition cte_table :: "bool \<Rightarrow> (string \<times> string) list \<Rightarrow> string \<Rightarrow> relation result" where
  "cte_table base columns name = and_then (checks
     [raise_if base (TypeError ''CteTable must be subclassed and declare output_column fields'' []),
      raise_if (name = '''') (ValueError ''derived table alias must not be empty'' [])])
     (\<lambda>_. Inr (Relation (CteSourceNode name) columns))"

definition derived_table :: "(string \<times> string) list \<Rightarrow> py_value source \<Rightarrow> string \<Rightarrow> relation result" where
  "derived_table columns source alias = and_then
     (raise_if (alias = '''') (ValueError ''derived table alias must not be empty'' []))
     (\<lambda>_. Inr (Relation source columns))"

text \<open>\<open>column_node\<close>: the column an argument is, judged by its node and not by its class.\<close>

fun column_node :: "operand \<Rightarrow> (string \<times> string) option" where
  "column_node (Operand (Expr c (ColumnNode source name))) = Some (source, name)"
| "column_node _ = None"

definition excluded :: "operand \<Rightarrow> expr result" where
  "excluded column = (case column_node column of
       None \<Rightarrow> Inl (TypeError ''excluded() requires a table column'' [])
     | Some (source, name) \<Rightarrow> Inr (expression (ExcludedNode source name)))"

lemmas relation_defs = relation_reference_def column_names_def declared_column_def get_column_def
  source_columns_def new_table_def table_as_def cte_table_def derived_table_def excluded_def

section \<open>Declared names\<close>

lemma dict_set_new: "k \<notin> set (map fst d) \<Longrightarrow> dict_set k v d = d @ [(k, v)]"
  by (induction d) auto

text \<open>Without redeclared attributes the accumulated dictionary is the list of all members.\<close>

lemma declare_members_distinct:
  assumes "distinct (map fst declared @ map fst members)"
  shows "declare_members members (declared, names) =
    (declared @ map (\<lambda>(a, n). (a, declared_name n a)) members,
     names \<union> set (map (\<lambda>(a, n). declared_name n a) members))"
  using assms
proof (induction members arbitrary: declared names)
  case (Cons m members)
  obtain a n where m: "m = (a, n)" by (cases m)
  from Cons.prems m have fresh: "a \<notin> set (map fst declared)"
    and rest: "distinct (map fst (declared @ [(a, declared_name n a)]) @ map fst members)" by auto
  show ?case
    using Cons.IH [OF rest] by (simp add: m declare_members_def dict_set_new [OF fresh])
qed (simp add: declare_members_def)

lemma declare_classes_distinct:
  assumes "distinct (map fst declared @ map fst (concat classes))"
  shows "foldl (\<lambda>acc members. declare_members members acc) (declared, names) classes =
    (declared @ map (\<lambda>(a, n). (a, declared_name n a)) (concat classes),
     names \<union> set (map (\<lambda>(a, n). declared_name n a) (concat classes)))"
  using assms
proof (induction classes arbitrary: declared names)
  case (Cons c cs)
  from Cons.prems have first: "distinct (map fst declared @ map fst c)"
    and rest: "distinct (map fst (declared @ map (\<lambda>(a, n). (a, declared_name n a)) c) @ map fst (concat cs))"
    by (auto simp: comp_def case_prod_beta)
  show ?case by (simp add: declare_members_distinct [OF first] Cons.IH [OF rest] Un_assoc)
qed simp

text \<open>
  When no class of a declaration redeclares an attribute of another, the declaration is accepted
  exactly when its SQL column names are pairwise distinct, and then the columns are all members of
  all classes, from the base class down, in the order they are declared.
\<close>

theorem declared_columns_exact:
  assumes "distinct (map fst (concat classes))"
  shows "declared_columns classes =
    (if distinct (map (\<lambda>(a, n). declared_name n a) (concat classes))
     then Inr (map (\<lambda>(a, n). (a, declared_name n a)) (concat classes))
     else Inl (TypeError ''relation declarations cannot contain duplicate column names'' []))"
proof -
  let ?names = "map (\<lambda>(a, n). declared_name n a) (concat classes)"
  have "card (set ?names) = length (concat classes) \<longleftrightarrow> distinct ?names"
    using card_distinct [of ?names] distinct_card [of ?names] by auto
  then show ?thesis
    using declare_classes_distinct [of "[]" classes "{}"] assms by (simp add: declared_columns_def)
qed

theorem declared_columns_exact_witness:
  "declared_columns [[(''id'', '''')], [(''email'', ''mail''), (''at'', '''')]]
     = Inr [(''id'', ''id''), (''email'', ''mail''), (''at'', ''at'')]"
  by (subst declared_columns_exact) (simp_all add: declared_name_def)

text \<open>
  With redeclared attributes the check compares the names ever declared with the attributes that
  remain.  A subclass that renames an inherited column is refused although no name is duplicated, and
  one that also adds a column of the new name is accepted although two columns then share a name.
\<close>

theorem redeclared_columns_miscounted:
  "declared_columns [[(''x'', ''a'')], [(''x'', ''b'')]]
     = Inl (TypeError ''relation declarations cannot contain duplicate column names'' [])
   \<and> declared_columns [[(''x'', ''a'')], [(''x'', ''b''), (''y'', ''b'')]] = Inr [(''x'', ''b''), (''y'', ''b'')]"
  by (simp add: declared_columns_def declare_members_def declared_name_def)

end
