(* ===== verification/Built.thy ===== *)
theory Built
  imports Relations
begin

text \<open>
  The expressions a program can make: the closure of the values and columns under every builder of the
  three modules.  Two invariants hold of all of them by rule induction: whatever the renderer copies
  into the SQL text verbatim (operators, function names, clock names, frame words) is a word of a closed
  vocabulary, never caller text; and an expression of class \<open>Predicate\<close> is never UNKNOWN.
\<close>

section \<open>Expressions the builders make\<close>

fun operand_exprs :: "operand \<Rightarrow> expr set" where
  "operand_exprs (Operand e) = {e}"
| "operand_exprs (Literal v) = {}"

text \<open>The orderings made of one expression.\<close>

definition ordering :: "expr \<Rightarrow> py_value order \<Rightarrow> bool" where
  "ordering e ord \<longleftrightarrow> (\<exists>first \<in> {asc e, desc e}.
     ord = first \<or> nulls_first first = Inr ord \<or> nulls_last first = Inr ord)"

fun case_chain :: "case_builder \<Rightarrow> (expr \<times> operand) list \<Rightarrow> case_builder" where
  "case_chain builder [] = builder"
| "case_chain builder ((condition, result) # rest) = case_chain (when_branch builder condition result) rest"

text \<open>Operands whose expressions all satisfy a predicate.\<close>

definition operands_in :: "(expr \<Rightarrow> bool) \<Rightarrow> operand set \<Rightarrow> bool" where
  "operands_in P xs \<longleftrightarrow> (\<forall>x \<in> xs. \<forall>e \<in> operand_exprs x. P e)"

lemma operands_in_mono [mono]: "P \<le> Q \<Longrightarrow> operands_in P xs \<longrightarrow> operands_in Q xs"
  by (auto simp: operands_in_def)

inductive built :: "expr \<Rightarrow> bool" where
  built_value: "built (value_expr v)"
| built_column: "built (get_column r name)"
| built_excluded: "excluded x = Inr e \<Longrightarrow> built e"
| built_clock: "e \<in> {transaction_timestamp, statement_timestamp, clock_timestamp, current_date,
    current_time, local_time, local_timestamp} \<Longrightarrow> built e"
| built_subquery: "f \<in> {scalar, exists_query, not_exists_query} \<Longrightarrow> built (f query)"
| built_comparison: "built e \<Longrightarrow> operands_in built {x} \<Longrightarrow>
    f \<in> {expr_eq, expr_ne, expr_lt, expr_lte, expr_gt, expr_gte, expr_like, nullif} \<Longrightarrow> built (f e x)"
| built_membership: "built e \<Longrightarrow> operands_in built (set xs) \<Longrightarrow>
    f \<in> {expr_in, expr_not_in} \<Longrightarrow> built (f e (Items xs))"
| built_member_rows: "built e \<Longrightarrow> f \<in> {expr_in, expr_not_in} \<Longrightarrow> built (f e (Rows query))"
| built_between: "built e \<Longrightarrow> operands_in built {x, y} \<Longrightarrow>
    f \<in> {expr_between, expr_not_between} \<Longrightarrow> built (f e x y)"
| built_test: "built e \<Longrightarrow> f \<in> {expr_is_null, expr_is_not_null, expr_is_true, expr_is_false,
    expr_is_not_true, expr_is_not_false, expr_nullable} \<Longrightarrow> built (f e)"
| built_as: "built e \<Longrightarrow> expr_as e alias = Inr r \<Longrightarrow> built r"
| built_predicate_pair: "built e \<Longrightarrow> class_of e = PredicateClass \<Longrightarrow> operands_in built {x} \<Longrightarrow>
    f \<in> {predicate_and, predicate_or} \<Longrightarrow> f e x = Inr r \<Longrightarrow> built r"
| built_predicate_invert: "built e \<Longrightarrow> class_of e = PredicateClass \<Longrightarrow> built (predicate_invert e)"
| built_nullable_pair: "built e \<Longrightarrow> class_of e = NullablePredicateClass \<Longrightarrow> built e' \<Longrightarrow> f \<in> {nullable_and, nullable_or} \<Longrightarrow> built (f e e')"
| built_nullable_invert: "built e \<Longrightarrow> class_of e = NullablePredicateClass \<Longrightarrow> built (nullable_invert e)"
| built_coalesce: "built e \<Longrightarrow> built e' \<Longrightarrow> \<forall>x. x \<in> set rest \<longrightarrow> built x \<Longrightarrow> built (coalesce e e' rest)"
| built_arithmetic: "operands_in built {x, y} \<Longrightarrow>
    f \<in> {add_expr, subtract_expr, multiply_expr, divide_expr} \<Longrightarrow> f x y = Inr r \<Longrightarrow> built r"
| built_case: "built e \<Longrightarrow> operands_in built {x} \<Longrightarrow>
    \<forall>c y. (c, y) \<in> set branches \<longrightarrow> built c \<and> operands_in built {y} \<Longrightarrow> operands_in built {z} \<Longrightarrow>
    built (else_value (case_chain (case_when e x) branches) z)"
| built_case_null: "built e \<Longrightarrow> operands_in built {x} \<Longrightarrow>
    \<forall>c y. (c, y) \<in> set branches \<longrightarrow> built c \<and> operands_in built {y} \<Longrightarrow>
    built (else_null (case_chain (case_when e x) branches))"
| built_unary_temporal: "operands_in built {x} \<Longrightarrow>
    f \<in> {to_timestamp, justify_days, justify_hours, justify_interval, negate_interval} \<Longrightarrow> built (f x)"
| built_scaled: "operands_in built {x, y} \<Longrightarrow> f \<in> {multiply_interval, divide_interval} \<Longrightarrow> built (f x y)"
| built_shifted: "built e \<Longrightarrow> operands_in built {x} \<Longrightarrow> f \<in> {add_interval, subtract_interval} \<Longrightarrow> built (f e x)"
| built_difference: "built e \<Longrightarrow> built e' \<Longrightarrow>
    f \<in> {age, date_difference, time_difference, timestamp_difference} \<Longrightarrow> built (f e e')"
| built_date: "operands_in built {x, y, z} \<Longrightarrow> f \<in> {make_date, make_time} \<Longrightarrow> built (f x y z)"
| built_timestamp: "operands_in built {a, b, c, d, e, f} \<Longrightarrow> built (make_timestamp a b c d e f)"
| built_timestamptz: "operands_in built {a, b, c, d, e, f, g} \<Longrightarrow>
    make_timestamptz a b c d e f g = Inr r \<Longrightarrow> built r"
| built_interval: "operands_in built {a, b, c, d, e, f, g} \<Longrightarrow> built (make_interval a b c d e f g)"
| built_zone: "operands_in built {x, y} \<Longrightarrow> at_time_zone x y = Inr r \<Longrightarrow> built r"
| built_extract: "built e \<Longrightarrow> extract_field field e = Inr r \<Longrightarrow> built r"
| built_trunc: "built e \<Longrightarrow> operands_in built {x} \<Longrightarrow> date_trunc unit_member e x = Inr r \<Longrightarrow> built r"
| built_bin: "operands_in built {x} \<Longrightarrow> built e \<Longrightarrow> built e' \<Longrightarrow> built (date_bin x e e')"
| built_overlaps: "built a \<Longrightarrow> built b \<Longrightarrow> built c \<Longrightarrow> built d \<Longrightarrow> built (overlaps a b c d)"
| built_json: "built e \<Longrightarrow> json_text e key = Inr r \<Longrightarrow> built r"
| built_regex: "built e \<Longrightarrow> operands_in built {x} \<Longrightarrow> built (regex_match e x insensitive)"
| built_uuid: "operands_in built {x} \<Longrightarrow> cast_uuid x = Inr r \<Longrightarrow> built r"
| built_count: "\<forall>x. x \<in> set_option e \<longrightarrow> built x \<Longrightarrow> built (count_all e)"
| built_sum: "operands_in built {x} \<Longrightarrow> sum_of x = Inr r \<Longrightarrow> built r"
| built_aggregate: "built e \<Longrightarrow> f \<in> {avg_of, min_of, max_of} \<Longrightarrow> built (f e)"
| built_filter: "built e \<Longrightarrow> built condition \<Longrightarrow> aggregate_filter e condition = Inr r \<Longrightarrow> built r"
| built_over: "built e \<Longrightarrow> aggregate_over e = Inr r \<Longrightarrow> built r"
| built_function: "g \<in> {row_number, rank, dense_rank, percent_rank, cume_dist} \<Longrightarrow> built (function_over g)"
| built_partition: "built e \<Longrightarrow> \<forall>x. x \<in> set xs \<longrightarrow> built x \<Longrightarrow> partition_by e xs = Inr r \<Longrightarrow> built r"
| built_window_order: "built e \<Longrightarrow> \<forall>ord. ord \<in> set ords \<longrightarrow> (\<exists>x. built x \<and> ordering x ord) \<Longrightarrow>
    window_order_by e ords = Inr r \<Longrightarrow> built r"
| built_frame: "built e \<Longrightarrow> built_boundary start \<Longrightarrow> built_boundary stop \<Longrightarrow>
    f \<in> {rows_between, range_between, groups_between} \<Longrightarrow> f e start stop = Inr r \<Longrightarrow> built r"
| built_exclude: "built e \<Longrightarrow> exclude e member = Inr r \<Longrightarrow> built r"

section \<open>The closed vocabulary\<close>

definition operators :: "string set" where
  "operators = {''='', ''<>'', ''<'', ''<='', ''>'', ''>='', ''like'', ''and'', ''or'', ''+'', ''-'', ''*'', ''/''}"

definition postfix_operators :: "string set" where
  "postfix_operators = {''is null'', ''is not null'', ''is true'', ''is false'', ''is not true'',
     ''is not false'', ''not''}"

definition function_names :: "string set" where
  "function_names = {''coalesce'', ''nullif'', ''row_number'', ''rank'', ''dense_rank'', ''percent_rank'',
     ''cume_dist''}"

definition aggregate_names :: "string set" where
  "aggregate_names = {''count'', ''sum'', ''avg'', ''min'', ''max''}"

lemmas vocabulary = operators_def postfix_operators_def function_names_def aggregate_names_def

fun closed_frame :: "window_frame option \<Rightarrow> bool" where
  "closed_frame None = True"
| "closed_frame (Some (WindowFrameNode kind start stop)) \<longleftrightarrow> kind \<in> {''rows'', ''range'', ''groups''}
     \<and> built_boundary start \<and> built_boundary stop \<and> validate_frame_bounds start stop = Inr ()"

definition closed_order :: "py_value order \<Rightarrow> bool" where
  "closed_order ord \<longleftrightarrow> order_direction ord \<in> {''asc'', ''desc''}
     \<and> order_nulls ord \<in> {None, Some ''first'', Some ''last''}"

text \<open>
  A stride given as an \<open>Interval\<close> value is the one thing the builders do not check: \<open>date_bin\<close>
  leaves it to the compiler.
\<close>

fun literal_bin :: "py_value node temporal_node \<Rightarrow> bool" where
  "literal_bin (TemporalBinNode (ValueNode (PyInterval months days us)) e origin) = True"
| "literal_bin _ = False"

fun closed_node :: "py_value node \<Rightarrow> bool" where
  "closed_node (BinaryNode l operator r) \<longleftrightarrow> operator \<in> operators"
| "closed_node (UnaryNode operator x) \<longleftrightarrow> operator \<in> postfix_operators"
| "closed_node (FunctionNode name xs) \<longleftrightarrow> name \<in> function_names"
| "closed_node (AggregateNode name xs condition) \<longleftrightarrow> name \<in> aggregate_names"
| "closed_node (WindowNode e partitions orders frame exclusion) \<longleftrightarrow>
     (is_aggregate e \<or> (\<exists>name \<in> function_names. e = FunctionNode name []))
     \<and> (\<forall>ord \<in> set orders. closed_order ord) \<and> closed_frame frame
     \<and> (\<forall>word \<in> set_option exclusion. frame \<noteq> None
          \<and> word \<in> {''no others'', ''current row'', ''group'', ''ties''})"
| "closed_node (TemporalNode t) \<longleftrightarrow> literal_bin t \<or> validate_temporal_node t = Inr ()"
| "closed_node (InNode e (InList ns) negated) \<longleftrightarrow> ns \<noteq> []"
| "closed_node (CaseNode branches otherwise) \<longleftrightarrow> branches \<noteq> []"
| "closed_node (AliasNode e alias) \<longleftrightarrow> alias \<noteq> ''''"
| "closed_node _ = True"

definition closed :: "py_value node \<Rightarrow> bool" where
  "closed n \<longleftrightarrow> (\<forall>m \<in> set (walk n). closed_node m)"

lemma closed_iff: "closed n \<longleftrightarrow> closed_node n \<and> (\<forall>c \<in> set (children n). closed c)"
  unfolding closed_def by (rule ast.all_visit)

lemmas closed_simps [simp] =
  closed_iff [of "ColumnNode a b" for a b] closed_iff [of "ValueNode v" for v]
  closed_iff [of "TemporalNode t" for t] closed_iff [of "BinaryNode a b c" for a b c]
  closed_iff [of "UnaryNode a b" for a b] closed_iff [of "FunctionNode a b" for a b]
  closed_iff [of "CaseNode a b" for a b] closed_iff [of "AggregateNode a b c" for a b c]
  closed_iff [of "WindowNode a b c d e" for a b c d e] closed_iff [of "AliasNode a b" for a b]
  closed_iff [of "NullableResultNode a" for a] closed_iff [of StarNode]
  closed_iff [of "InNode a b c" for a b c] closed_iff [of "BetweenNode a b c d" for a b c d]
  closed_iff [of "ScalarSubqueryNode a" for a] closed_iff [of "ExistsNode a b" for a b]
  closed_iff [of "ExcludedNode a b" for a b] closed_iff [of "JsonTextNode a b" for a b]
  closed_iff [of "RegexMatchNode a b c" for a b c] closed_iff [of "UuidCastNode a" for a]

abbreviation safe :: "expr \<Rightarrow> bool" where
  "safe e \<equiv> built e \<and> closed (node_of e)"

lemma closed_operand: "operands_in safe xs \<Longrightarrow> x \<in> xs \<Longrightarrow> closed (operand_node x)"
  by (cases x) (auto simp: operands_in_def)

lemma ordering_cases:
  assumes "ordering e ord"
  shows "order_expression ord = node_of e \<and> closed_order ord"
  using assms by (auto simp: ordering_def order_defs closed_order_def and_then_ok)

lemma case_chain_branches:
  "case_branches (case_chain b cs) = case_branches b @ map (\<lambda>(c, y). (node_of c, operand_node y)) cs"
  by (induction b cs rule: case_chain.induct) (simp_all add: when_branch_def)

lemma combine_truth_ok [ok_iff]: "combine_truth l operator x = Inr r \<longleftrightarrow> (\<exists>c n. x = Operand (Expr c n)
    \<and> c \<in> {PredicateClass, NullablePredicateClass} \<and> r = Expr c (BinaryNode l operator n))"
  by (auto simp: combine_truth_def wrappers split: operand.splits expr.splits expr_class.splits)

lemma window_parts_ok [ok_iff]:
  "window_parts e = Inr (x, ps, ords, f, ex) \<longleftrightarrow> node_of e = WindowNode x ps ords f ex"
  by (auto split: node.splits)

lemma aggregate_filter_ok [ok_iff]: "aggregate_filter e c = Inr r \<longleftrightarrow> (\<exists>name xs previous.
     node_of e = AggregateNode name xs previous
     \<and> r = aggregate name xs (Some (case previous of None \<Rightarrow> node_of c | Some p \<Rightarrow> BinaryNode p ''and'' (node_of c))))"
  by (auto split: node.splits)

declare window_parts.simps [simp del] aggregate_filter.simps [simp del]

lemma operands_closed: "operands_in safe xs \<Longrightarrow> \<forall>x \<in> xs. closed (operand_node x)"
  by (auto dest: closed_operand)

lemma closed_bin: "literal_bin (TemporalBinNode s e origin) \<or> validate_temporal_node (TemporalBinNode s e origin) = Inr ()"
proof (cases s)
  case (ValueNode v)
  then show ?thesis by (cases v) auto
qed auto

lemma closed_exclusion: "exclusion_value m \<in> {''no others'', ''current row'', ''group'', ''ties''}"
  by (cases m) auto

lemma components_ok:
  assumes "length ys = card (set (map fst ys))"
    and "set (map fst ys) \<subseteq> {''years'', ''months'', ''weeks'', ''days'', ''hours'', ''mins'', ''secs''}"
  shows "validate_temporal_node (TemporalMakeIntervalNode ys) = Inr ()"
  using assms unfolding validate_temporal_node.simps checks_ok by (auto simp: subset_iff)

lemma closed_components:
  assumes "\<forall>(name, x) \<in> set xs. closed (operand_node x)"
    and "distinct (map fst xs)" "fst ` set xs \<subseteq> {''years'', ''months'', ''weeks'', ''days'', ''hours'', ''mins'', ''secs''}"
  shows "closed (TemporalNode (TemporalMakeIntervalNode
    (map (\<lambda>(name, x). (name, operand_node x)) (filter (\<lambda>(name, x). given_component x) xs))))"
proof -
  let ?ys = "map (\<lambda>(name, x). (name, operand_node x)) (filter (\<lambda>(name, x). given_component x) xs)"
  have names: "map fst ?ys = map fst (filter (\<lambda>(name, x). given_component x) xs)" by (simp add: case_prod_beta comp_def)
  have "distinct (map fst ?ys)" unfolding names using assms(2) by (rule distinct_map_filter)
  then have "length ?ys = card (set (map fst ?ys))" using distinct_card by fastforce
  moreover have "set (map fst ?ys) \<subseteq> {''years'', ''months'', ''weeks'', ''days'', ''hours'', ''mins'', ''secs''}"
    unfolding names using assms(3) by auto
  ultimately have "validate_temporal_node (TemporalMakeIntervalNode ?ys) = Inr ()"
    by (rule components_ok)
  then show ?thesis using assms(1) by auto
qed

lemma closed_window_order:
  assumes "closed (node_of e)" "\<forall>ord \<in> set ords. closed_order ord \<and> closed (order_expression ord)"
    and "window_order_by e ords = Inr r"
  shows "closed (node_of r)"
  using assms by (auto simp: window_defs and_then_ok window_parts_ok window_spec_def)

lemma built_closed:
  assumes "built e"
  shows "closed (node_of e)"
  using assms
proof (induction rule: built.induct)
  case (built_interval a b c d e f g)
  then have *: "\<forall>(name, x) \<in> set [(''years'', a), (''months'', b), (''weeks'', c), (''days'', d), (''hours'', e), (''mins'', f), (''secs'', g)].
      closed (operand_node x)" by (auto dest: operands_closed)
  show ?case by (simp only: make_interval_def temporal_def expression_def expr.sel)
    (rule closed_components [OF *]; simp)
next
  case (built_bin x e e')
  then show ?case using closed_bin by (auto simp: date_bin_def wrappers dest!: operands_closed)
next
  case (built_filter e condition r)
  then show ?case by (auto simp: ok_iff aggregate_defs vocabulary split: option.splits)
next
  case (built_window_order e ords r)
  show ?case by (rule closed_window_order [OF _ _ built_window_order.hyps(2)])
    (use built_window_order ordering_cases in auto)
next
  case (built_exclude e member r)
  then show ?case using closed_exclusion [of member] by (auto simp: exclude_def ok_iff window_spec_def)
qed (auto simp: wrappers comparison_defs expr_as_def conditional_defs temporal_defs postgres_defs
    relation_defs aggregate_defs window_defs vocabulary case_chain_branches ok_iff
    predicate_and_def predicate_or_def predicate_invert_def nullable_and_def nullable_or_def nullable_invert_def
    dest!: operands_closed split: option.splits operand.splits prod.splits if_splits)

section \<open>Three-valued truth\<close>

definition kleene_and :: "bool option \<Rightarrow> bool option \<Rightarrow> bool option" where
  "kleene_and a b = (if a = Some False \<or> b = Some False then Some False
     else if a = None \<or> b = None then None else Some True)"

definition kleene_or :: "bool option \<Rightarrow> bool option \<Rightarrow> bool option" where
  "kleene_or a b = map_option Not (kleene_and (map_option Not a) (map_option Not b))"

lemma kleene_Some [simp]:
  "kleene_and (Some a) (Some b) = Some (a \<and> b)" "kleene_or (Some a) (Some b) = Some (a \<or> b)"
  by (cases a; cases b; simp add: kleene_and_def kleene_or_def)+

lemma kleene_and_True: "kleene_and a b = Some True \<longleftrightarrow> a = Some True \<and> b = Some True"
  by (cases a; cases b) (auto simp: kleene_and_def)

text \<open>
  The truth value SQL gives an expression, relative to what the data give the rest: \<open>atom\<close> the truth
  of every other node, \<open>null_of\<close> whether a value is NULL, \<open>nonempty\<close> whether a subquery returns a row.
\<close>

fun truth :: "(py_value node \<Rightarrow> bool option) \<Rightarrow> (py_value node \<Rightarrow> bool) \<Rightarrow>
    (py_value select_node \<Rightarrow> bool) \<Rightarrow> py_value node \<Rightarrow> bool option" where
  "truth atom null_of nonempty (BinaryNode l operator r) =
     (if operator = ''and'' then kleene_and (truth atom null_of nonempty l) (truth atom null_of nonempty r)
      else if operator = ''or'' then kleene_or (truth atom null_of nonempty l) (truth atom null_of nonempty r)
      else atom (BinaryNode l operator r))"
| "truth atom null_of nonempty (UnaryNode operator x) =
     (if operator = ''not'' then map_option Not (truth atom null_of nonempty x)
      else if operator = ''is null'' then Some (null_of x)
      else if operator = ''is not null'' then Some (\<not> null_of x)
      else if operator = ''is true'' then Some (truth atom null_of nonempty x = Some True)
      else if operator = ''is false'' then Some (truth atom null_of nonempty x = Some False)
      else if operator = ''is not true'' then Some (truth atom null_of nonempty x \<noteq> Some True)
      else if operator = ''is not false'' then Some (truth atom null_of nonempty x \<noteq> Some False)
      else atom (UnaryNode operator x))"
| "truth atom null_of nonempty (ExistsNode query negated) = Some (nonempty query \<noteq> negated)"
| "truth atom null_of nonempty n = atom n"

text \<open>
  C25.  An expression of class \<open>Predicate\<close> is never UNKNOWN, whatever the data: it really has the
  Python type \<open>bool\<close> that its class declares for a selected value.
\<close>

theorem predicates_are_total:
  assumes "built e" "class_of e = PredicateClass"
  shows "truth atom null_of nonempty (node_of e) \<noteq> None"
  using assms
proof (induction rule: built.induct)
qed (auto simp: wrappers comparison_defs expr_as_def conditional_defs temporal_defs postgres_defs
    relation_defs aggregate_defs window_defs ok_iff operands_in_def
    predicate_and_def predicate_or_def predicate_invert_def nullable_and_def nullable_or_def nullable_invert_def
    split: option.splits operand.splits prod.splits if_splits)

theorem predicates_are_total_witness:
  "truth (\<lambda>_. None) (\<lambda>_. False) (\<lambda>_. True)
     (UnaryNode ''is true'' (BinaryNode (ValueNode (PyInt 1)) ''='' (ValueNode (PyInt 2)))) \<noteq> None"
proof -
  have "built (expr_eq (value_expr (PyInt 1)) (Literal (PyInt 2)))"
    by (rule built_comparison [OF built_value]) (auto simp: operands_in_def)
  then have "built (expr_is_true (expr_eq (value_expr (PyInt 1)) (Literal (PyInt 2))))"
    by (rule built_test) simp
  from predicates_are_total [OF this] show ?thesis by (simp add: comparison_defs wrappers)
qed

section \<open>What the invariants give\<close>



text \<open>
  PostgreSQL compilation accepts every temporal expression the builders make, unless it bins by
  an interval value: the dialect checks of validation repeat what the builders already ensure.
\<close>

theorem built_temporal_accepted:
  assumes "built e" "\<And>t. TemporalNode t \<in> set (walk (node_of e)) \<Longrightarrow> \<not> literal_bin t"
  shows "validate_expression_dialect postgres (node_of e) = Inr ()"
proof -
  have "(case m of TemporalNode t \<Rightarrow> checks
       [raise_if (\<not> supports_temporal_arithmetic postgres) (ValueError
          ''does not support PostgreSQL temporal expressions'' [dialect_name postgres]),
        validate_temporal_node t] | _ \<Rightarrow> Inr ()) = Inr ()" if "m \<in> set (walk (node_of e))" for m
    using built_closed [OF assms(1)] assms(2) that
    by (cases m) (auto simp: closed_def checks_ok dialect_defs)
  then show ?thesis by (simp add: validate_expression_dialect_def checks_ok)
qed

theorem built_temporal_accepted_witness:
  "validate_expression_dialect postgres (TemporalNode (TemporalClockNode ''current_date'')) = Inr ()"
proof -
  have "built current_date" by (rule built_clock) simp
  from built_temporal_accepted [OF this] show ?thesis
    by (simp add: temporal_defs wrappers py_eval)
qed

end
