(* ===== verification/Rows.thy ===== *)
theory Rows
  imports Prelude
begin

text \<open>
  Row adapters and decoders (\<open>rows.py\<close>): the explicit conversion of the tuples a driver returns into
  models of the program.  The text formats of the standard library (\<open>uuid.UUID\<close>, \<open>ipaddress\<close>,
  \<open>decimal.Decimal\<close>, \<open>fromisoformat\<close>, \<open>json\<close>) are the fields of \<open>stdlib\<close>, an argument of the decoders.
\<close>

section \<open>Values of result rows\<close>

text \<open>The time zone of a \<open>datetime\<close> or \<open>time\<close>: none, one whose \<open>utcoffset()\<close> is None, or an offset.\<close>

datatype zone = NoZone | ZoneWithoutOffset | ZoneOffset int

datatype inet_class = IPv4Address | IPv6Address | IPv4Interface | IPv6Interface

text \<open>
  The objects of a result row, by the classes the decoders ask for; the content of a value they only
  pass on is its canonical text.  \<open>BoolValue\<close> is an instance of \<open>int\<close> and \<open>DatetimeValue\<close> one of \<open>date\<close>.
\<close>

datatype datum =
    NoneValue
  | BoolValue bool
  | IntValue int
  | FloatValue string
  | StrValue string
  | BytesValue string
  | BytearrayValue string
  | UuidValue string
  | InetValue inet_class string
  | DecimalValue string
  | DateValue string
  | DatetimeValue string zone
  | TimeValue string zone
  | IntervalValue int int int
  | ListValue "datum list"
  | DictValue "(string \<times> datum) list"
  | OtherValue nat

datatype json =
    JsonNull
  | JsonBool bool
  | JsonInt int
  | JsonFloat string
  | JsonStr string
  | JsonList "json list"
  | JsonDict "(string \<times> json) list"

fun datum_of_json :: "json \<Rightarrow> datum" where
  "datum_of_json JsonNull = NoneValue"
| "datum_of_json (JsonBool b) = BoolValue b"
| "datum_of_json (JsonInt n) = IntValue n"
| "datum_of_json (JsonFloat s) = FloatValue s"
| "datum_of_json (JsonStr s) = StrValue s"
| "datum_of_json (JsonList vs) = ListValue (map datum_of_json vs)"
| "datum_of_json (JsonDict kvs) = DictValue (map (map_prod id datum_of_json) kvs)"

record stdlib =
  uuid_from :: "string \<Rightarrow> string result"
  ip_interface :: "string \<Rightarrow> (inet_class \<times> string) result"
  ip_address :: "string \<Rightarrow> (inet_class \<times> string) result"
  decimal_from :: "string \<Rightarrow> string result"
  datetime_fromisoformat :: "string \<Rightarrow> (string \<times> zone) result"
  date_fromisoformat :: "string \<Rightarrow> string result"
  time_fromisoformat :: "string \<Rightarrow> (string \<times> zone) result"
  json_loads :: "datum \<Rightarrow> json result"
  json_dumps :: "datum \<Rightarrow> string result"

section \<open>Decoders\<close>

datatype decoder = Decoder (decoder_name: string) (decode: "datum \<Rightarrow> datum result")

definition naive_datetime :: "string \<Rightarrow> zone \<Rightarrow> datum result" where
  "naive_datetime s z = and_then
     (raise_if (z \<noteq> NoZone) (ValueError ''naive datetime must not have tzinfo'' []))
     (\<lambda>_. Inr (DatetimeValue s z))"

definition aware_datetime :: "string \<Rightarrow> zone \<Rightarrow> datum result" where
  "aware_datetime s z = and_then
     (raise_if (z = NoZone \<or> z = ZoneWithoutOffset)
       (ValueError ''aware datetime must have a concrete UTC offset'' []))
     (\<lambda>_. Inr (DatetimeValue s z))"

definition naive_time :: "string \<Rightarrow> zone \<Rightarrow> datum result" where
  "naive_time s z = and_then
     (raise_if (z \<noteq> NoZone) (ValueError ''naive time must not have tzinfo'' []))
     (\<lambda>_. Inr (TimeValue s z))"

definition aware_time :: "string \<Rightarrow> zone \<Rightarrow> datum result" where
  "aware_time s z = and_then
     (raise_if (z = NoZone \<or> z = ZoneWithoutOffset)
       (ValueError ''aware time must have a concrete UTC offset'' []))
     (\<lambda>_. Inr (TimeValue s z))"

text \<open>\<open>Interval.__init__\<close>: \<open>type(value) is not int\<close> also refuses bools.\<close>

fun exact_int :: "datum \<Rightarrow> int option" where
  "exact_int (IntValue n) = Some n"
| "exact_int _ = None"

definition new_interval :: "datum \<Rightarrow> datum \<Rightarrow> datum \<Rightarrow> datum result" where
  "new_interval months days microseconds =
     (case (exact_int months, exact_int days, exact_int microseconds) of
        (Some m, Some d, Some u) \<Rightarrow> Inr (IntervalValue m d u)
      | _ \<Rightarrow> Inl (TypeError ''interval components must be integers'' []))"

definition instance_decoder :: "string \<Rightarrow> (datum \<Rightarrow> bool) \<Rightarrow> bool \<Rightarrow> decoder" where
  "instance_decoder name expected reject_bool = Decoder name (\<lambda>v.
     if expected v \<and> \<not> (reject_bool \<and> (\<exists>b \<in> {True, False}. v = BoolValue b)) then Inr v
     else Inl (TypeError ''expected'' [name]))"

fun is_int :: "datum \<Rightarrow> bool" where
  "is_int (IntValue n) = True" | "is_int (BoolValue b) = True" | "is_int _ = False"

fun is_float :: "datum \<Rightarrow> bool" where
  "is_float (FloatValue s) = True" | "is_float _ = False"

fun is_str :: "datum \<Rightarrow> bool" where
  "is_str (StrValue s) = True" | "is_str _ = False"

fun is_bytes :: "datum \<Rightarrow> bool" where
  "is_bytes (BytesValue s) = True" | "is_bytes _ = False"

definition int_decoder :: decoder where "int_decoder = instance_decoder ''int'' is_int True"
definition float_decoder :: decoder where "float_decoder = instance_decoder ''float'' is_float False"
definition str_decoder :: decoder where "str_decoder = instance_decoder ''str'' is_str False"
definition bytes_decoder :: decoder where "bytes_decoder = instance_decoder ''bytes'' is_bytes False"

definition bool_decoder :: decoder where
  "bool_decoder = Decoder ''bool'' (\<lambda>v. case v of
       BoolValue b \<Rightarrow> Inr v
     | IntValue n \<Rightarrow> if n \<in> {0, 1} then Inr (BoolValue (n \<noteq> 0)) else Inl (TypeError ''expected bool'' [])
     | _ \<Rightarrow> Inl (TypeError ''expected bool'' []))"

definition uuid_decoder :: "stdlib \<Rightarrow> decoder" where
  "uuid_decoder lib = Decoder ''UUID'' (\<lambda>v. case v of
       UuidValue _ \<Rightarrow> Inr v
     | StrValue s \<Rightarrow> and_then (uuid_from lib s) (\<lambda>u. Inr (UuidValue u))
     | _ \<Rightarrow> Inl (TypeError ''UUID values must be UUID instances or strings'' []))"

definition inet_decoder :: "stdlib \<Rightarrow> decoder" where
  "inet_decoder lib = Decoder ''inet'' (\<lambda>v. case v of
       InetValue _ _ \<Rightarrow> Inr v
     | StrValue s \<Rightarrow> and_then (if CHR ''/'' \<in> set s then ip_interface lib s else ip_address lib s)
         (\<lambda>(c, a). Inr (InetValue c a))
     | _ \<Rightarrow> Inl (TypeError ''inet values must be IP addresses, interfaces, or text'' []))"

definition decimal_decoder :: "stdlib \<Rightarrow> decoder" where
  "decimal_decoder lib = Decoder ''Decimal'' (\<lambda>v. case v of
       DecimalValue _ \<Rightarrow> Inr v
     | IntValue n \<Rightarrow> Inr (DecimalValue (str_of_int n))
     | StrValue s \<Rightarrow> and_then (decimal_from lib s) (\<lambda>d. Inr (DecimalValue d))
     | FloatValue s \<Rightarrow> and_then (decimal_from lib s) (\<lambda>d. Inr (DecimalValue d))
     | _ \<Rightarrow> Inl (TypeError ''Decimal values must be Decimal, int, float, or str'' []))"

definition temporal_decoder ::
  "string \<Rightarrow> (datum \<Rightarrow> bool) \<Rightarrow> (string \<Rightarrow> datum result) \<Rightarrow> (datum \<Rightarrow> bool) \<Rightarrow> decoder" where
  "temporal_decoder name expected parse reject = Decoder name (\<lambda>v.
     if reject v then Inl (TypeError ''values must not be instances of another class'' [name])
     else if expected v then Inr v
     else case v of StrValue s \<Rightarrow> parse s
       | _ \<Rightarrow> Inl (TypeError ''values must be instances or ISO strings'' [name]))"

fun is_datetime :: "datum \<Rightarrow> bool" where
  "is_datetime (DatetimeValue s z) = True" | "is_datetime _ = False"

fun is_date :: "datum \<Rightarrow> bool" where
  "is_date (DateValue s) = True" | "is_date (DatetimeValue s z) = True" | "is_date _ = False"

fun is_time :: "datum \<Rightarrow> bool" where
  "is_time (TimeValue s z) = True" | "is_time _ = False"

definition datetime_decoder :: "stdlib \<Rightarrow> decoder" where
  "datetime_decoder lib = temporal_decoder ''datetime'' is_datetime
     (\<lambda>s. and_then (datetime_fromisoformat lib s) (\<lambda>(t, z). Inr (DatetimeValue t z))) (\<lambda>_. False)"

definition date_decoder :: "stdlib \<Rightarrow> decoder" where
  "date_decoder lib = temporal_decoder ''date'' is_date
     (\<lambda>s. and_then (date_fromisoformat lib s) (\<lambda>t. Inr (DateValue t))) is_datetime"

definition time_decoder :: "stdlib \<Rightarrow> decoder" where
  "time_decoder lib = temporal_decoder ''time'' is_time
     (\<lambda>s. and_then (time_fromisoformat lib s) (\<lambda>(t, z). Inr (TimeValue t z))) (\<lambda>_. False)"

text \<open>The narrowing functions raise for what is no datetime as \<open>value.tzinfo\<close> does.\<close>

fun on_datetime :: "(string \<Rightarrow> zone \<Rightarrow> datum result) \<Rightarrow> datum \<Rightarrow> datum result" where
  "on_datetime f (DatetimeValue s z) = f s z"
| "on_datetime f _ = Inl (AssertionError '''')"

fun on_time :: "(string \<Rightarrow> zone \<Rightarrow> datum result) \<Rightarrow> datum \<Rightarrow> datum result" where
  "on_time f (TimeValue s z) = f s z"
| "on_time f _ = Inl (AssertionError '''')"

definition naive_datetime_decoder :: "stdlib \<Rightarrow> decoder" where
  "naive_datetime_decoder lib = Decoder ''naive datetime''
     (\<lambda>v. and_then (decode (datetime_decoder lib) v) (on_datetime naive_datetime))"

definition aware_datetime_decoder :: "stdlib \<Rightarrow> decoder" where
  "aware_datetime_decoder lib = Decoder ''aware datetime''
     (\<lambda>v. and_then (decode (datetime_decoder lib) v) (on_datetime aware_datetime))"

definition naive_time_decoder :: "stdlib \<Rightarrow> decoder" where
  "naive_time_decoder lib = Decoder ''naive time''
     (\<lambda>v. and_then (decode (time_decoder lib) v) (on_time naive_time))"

definition aware_time_decoder :: "stdlib \<Rightarrow> decoder" where
  "aware_time_decoder lib = Decoder ''aware time''
     (\<lambda>v. and_then (decode (time_decoder lib) v) (on_time aware_time))"

definition interval_decoder :: decoder where
  "interval_decoder = Decoder ''Interval'' (\<lambda>v. case v of
       IntervalValue _ _ _ \<Rightarrow> Inr v
     | _ \<Rightarrow> Inl (TypeError ''interval values must be relq.Interval instances'' []))"

fun is_json_text :: "datum \<Rightarrow> bool" where
  "is_json_text (StrValue s) = True" | "is_json_text (BytesValue s) = True"
| "is_json_text (BytearrayValue s) = True" | "is_json_text _ = False"

definition json_decoder :: "stdlib \<Rightarrow> decoder" where
  "json_decoder lib = Decoder ''JSON'' (\<lambda>v. and_then
     (if is_json_text v then json_loads lib v
      else and_then (json_dumps lib v) (\<lambda>text. json_loads lib (StrValue text)))
     (\<lambda>j. Inr (datum_of_json j)))"

definition nullable_decoder :: "decoder \<Rightarrow> decoder" where
  "nullable_decoder d = Decoder (''nullable '' @ decoder_name d)
     (\<lambda>v. if v = NoneValue then Inr NoneValue else decode d v)"

definition list_decoder :: "decoder \<Rightarrow> decoder" where
  "list_decoder d = Decoder (''list['' @ decoder_name d @ '']'') (\<lambda>v. case v of
       ListValue items \<Rightarrow> and_then (map_results (decode d) items) (\<lambda>vs. Inr (ListValue vs))
     | _ \<Rightarrow> Inl (TypeError ''array values must be lists'' []))"

text \<open>The enumeration class and the domain wrapper are callables of the program.\<close>

definition enum_decoder :: "string \<Rightarrow> (datum \<Rightarrow> datum result) \<Rightarrow> decoder" where
  "enum_decoder name enum_type = Decoder name enum_type"

definition domain_decoder :: "string \<Rightarrow> decoder \<Rightarrow> (datum \<Rightarrow> datum result) \<Rightarrow> decoder" where
  "domain_decoder name base wrap = Decoder name (\<lambda>v. and_then (decode base v) wrap)"

lemmas decoder_defs = instance_decoder_def int_decoder_def float_decoder_def str_decoder_def
  bytes_decoder_def bool_decoder_def uuid_decoder_def inet_decoder_def decimal_decoder_def
  temporal_decoder_def datetime_decoder_def date_decoder_def time_decoder_def
  naive_datetime_decoder_def aware_datetime_decoder_def naive_time_decoder_def aware_time_decoder_def
  naive_datetime_def aware_datetime_def naive_time_def aware_time_def interval_decoder_def
  json_decoder_def nullable_decoder_def list_decoder_def enum_decoder_def domain_decoder_def

section \<open>Row adapters\<close>

datatype field = Field (field_name: string) (field_decoder: "decoder option")

text \<open>An adapter with its constructor; \<open>arity\<close> is the property of the class.\<close>

datatype row_adapter = RowAdapter (model_name: string) (factory: "datum list \<Rightarrow> datum result") (fields: "field list")

definition arity :: "row_adapter \<Rightarrow> nat" where
  "arity a = length (fields a)"

definition decode_field :: "row_adapter \<Rightarrow> nat \<Rightarrow> field \<Rightarrow> datum \<Rightarrow> datum result" where
  "decode_field a index f v = (case field_decoder f of None \<Rightarrow> Inr v
     | Some d \<Rightarrow> (case decode d v of
           Inr w \<Rightarrow> Inr w
         | Inl e \<Rightarrow> Inl (if is_exception e
             then RowDecodingError [model_name a, field_name f, str_of_nat index, decoder_name d] else e)))"

fun decode_fields :: "row_adapter \<Rightarrow> nat \<Rightarrow> field list \<Rightarrow> datum list \<Rightarrow> datum list result" where
  "decode_fields a index (f # fs) (v # vs) = and_then (decode_field a index f v)
     (\<lambda>w. and_then (decode_fields a (Suc index) fs vs) (\<lambda>ws. Inr (w # ws)))"
| "decode_fields a index _ _ = Inr []"

definition adapter_map :: "row_adapter \<Rightarrow> datum list \<Rightarrow> datum result" where
  "adapter_map a row = and_then
     (raise_if (length row \<noteq> arity a) (ValueError ''requires another number of result columns''
       [model_name a, str_of_nat (arity a), str_of_nat (length row)]))
     (\<lambda>_. and_then (decode_fields a 0 (fields a) row) (factory a))"

definition is_compatible_with :: "row_adapter \<Rightarrow> row_adapter \<Rightarrow> bool" where
  "is_compatible_with a b \<longleftrightarrow> model_name a = model_name b
     \<and> map (\<lambda>f. (field_name f, map_option decoder_name (field_decoder f))) (fields a)
       = map (\<lambda>f. (field_name f, map_option decoder_name (field_decoder f))) (fields b)"

text \<open>
  A model class as \<open>_field_names\<close> inspects it: a dataclass with its fields and their \<open>init\<close> flags, or
  another class, with its own attribute \<open>_fields\<close> or without, and its annotations.
\<close>

datatype model_class =
    Dataclass (class_name: string) "(string \<times> bool) list" (constructor: "datum list \<Rightarrow> datum result")
  | OtherClass (class_name: string) bool "string list" (constructor: "datum list \<Rightarrow> datum result")

fun field_names :: "model_class \<Rightarrow> string list result" where
  "field_names (Dataclass name members build) = Inr (map fst (filter snd members))"
| "field_names (OtherClass name own_fields annotations build) = and_then (checks
     [raise_if (\<not> own_fields) (TypeError ''row_adapter requires a dataclass or NamedTuple class'' []),
      raise_if (annotations = []) (TypeError ''row_adapter requires a dataclass or NamedTuple class'' [])])
     (\<lambda>_. Inr annotations)"

definition new_row_adapter :: "model_class \<Rightarrow> decoder option list option \<Rightarrow> row_adapter result" where
  "new_row_adapter model decoders = and_then (field_names model) (\<lambda>names. and_then
     (case decoders of None \<Rightarrow> Inr (replicate (length names) None)
      | Some given \<Rightarrow> and_then (raise_if (length given \<noteq> length names)
          (ValueError ''fields and decoders differ in number''
            [class_name model, str_of_nat (length names), str_of_nat (length given)])) (\<lambda>_. Inr given))
     (\<lambda>resolved. Inr (RowAdapter (class_name model) (constructor model) (map2 Field names resolved))))"

text \<open>What the \<open>decode\<close> methods of queries accept: a model class, or an adapter already made.\<close>

datatype decode_model = ModelClass model_class | Adapter row_adapter

fun adapter_for :: "decode_model \<Rightarrow> row_adapter result" where
  "adapter_for (ModelClass model) = new_row_adapter model None"
| "adapter_for (Adapter a) = Inr a"

section \<open>What decoders promise\<close>

text \<open>The decoders of the module that call no function of the program, with the type each declares.\<close>

inductive declares :: "stdlib \<Rightarrow> decoder \<Rightarrow> (datum \<Rightarrow> bool) \<Rightarrow> bool" for lib where
  "declares lib int_decoder (\<lambda>v. \<exists>n. v = IntValue n)"
| "declares lib float_decoder is_float"
| "declares lib str_decoder is_str"
| "declares lib bytes_decoder is_bytes"
| "declares lib bool_decoder (\<lambda>v. \<exists>b. v = BoolValue b)"
| "declares lib (uuid_decoder lib) (\<lambda>v. \<exists>s. v = UuidValue s)"
| "declares lib (inet_decoder lib) (\<lambda>v. \<exists>c s. v = InetValue c s)"
| "declares lib (decimal_decoder lib) (\<lambda>v. \<exists>s. v = DecimalValue s)"
| "declares lib (date_decoder lib) (\<lambda>v. \<exists>s. v = DateValue s)"
| "declares lib (datetime_decoder lib) is_datetime"
| "declares lib (naive_datetime_decoder lib) (\<lambda>v. \<exists>s. v = DatetimeValue s NoZone)"
| "declares lib (aware_datetime_decoder lib) (\<lambda>v. \<exists>s offset. v = DatetimeValue s (ZoneOffset offset))"
| "declares lib (time_decoder lib) is_time"
| "declares lib (naive_time_decoder lib) (\<lambda>v. \<exists>s. v = TimeValue s NoZone)"
| "declares lib (aware_time_decoder lib) (\<lambda>v. \<exists>s offset. v = TimeValue s (ZoneOffset offset))"
| "declares lib interval_decoder (\<lambda>v. \<exists>m d u. v = IntervalValue m d u)"
| "declares lib d P \<Longrightarrow> declares lib (nullable_decoder d) (\<lambda>v. v = NoneValue \<or> P v)"
| "declares lib d P \<Longrightarrow> declares lib (list_decoder d) (\<lambda>v. \<exists>vs. v = ListValue vs \<and> (\<forall>x \<in> set vs. P x))"

lemma map_results_stable:
  assumes "map_results f vs = Inr ws" "\<And>v w. f v = Inr w \<Longrightarrow> P w \<and> f w = Inr w"
  shows "(\<forall>w \<in> set ws. P w) \<and> map_results f ws = Inr ws"
  using assms(1)
proof (induction vs arbitrary: ws)
  case (Cons v vs)
  then obtain w ws' where "ws = w # ws'" "f v = Inr w" "map_results f vs = Inr ws'" by (auto simp: and_then_ok)
  with Cons.IH [of ws'] assms(2) [of v w] show ?case by simp
qed simp

lemma instance_decoded:
  "decode (instance_decoder name expected reject) v = Inr w \<longleftrightarrow>
     w = v \<and> expected v \<and> \<not> (reject \<and> (v = BoolValue True \<or> v = BoolValue False))"
  by (auto simp: instance_decoder_def)

lemma datetime_decoded:
  "decode (datetime_decoder lib) v = Inr w \<Longrightarrow> \<exists>s z. w = DatetimeValue s z"
  "decode (datetime_decoder lib) (DatetimeValue s z) = Inr (DatetimeValue s z)"
  by (cases v; force simp: datetime_decoder_def temporal_decoder_def and_then_ok) (simp add: datetime_decoder_def temporal_decoder_def)

lemma time_decoded:
  "decode (time_decoder lib) v = Inr w \<Longrightarrow> \<exists>s z. w = TimeValue s z"
  "decode (time_decoder lib) (TimeValue s z) = Inr (TimeValue s z)"
  by (cases v; force simp: time_decoder_def temporal_decoder_def and_then_ok) (simp add: time_decoder_def temporal_decoder_def)

lemma zones_decoded:
  "naive_datetime s z = Inr w \<longleftrightarrow> z = NoZone \<and> w = DatetimeValue s z"
  "naive_time s z = Inr w \<longleftrightarrow> z = NoZone \<and> w = TimeValue s z"
  "aware_datetime s z = Inr w \<longleftrightarrow> (\<exists>i. z = ZoneOffset i) \<and> w = DatetimeValue s z"
  "aware_time s z = Inr w \<longleftrightarrow> (\<exists>i. z = ZoneOffset i) \<and> w = TimeValue s z"
  by (cases z; auto simp: naive_datetime_def naive_time_def aware_datetime_def aware_time_def)+


text \<open>The standard library on already canonical text.\<close>

definition canonical_stdlib :: stdlib where
  "canonical_stdlib = \<lparr>uuid_from = Inr, ip_interface = (\<lambda>s. Inr (IPv4Interface, s)), ip_address = (\<lambda>s. Inr (IPv4Address, s)),
     decimal_from = Inr, datetime_fromisoformat = (\<lambda>s. Inr (s, NoZone)), date_fromisoformat = Inr,
     time_fromisoformat = (\<lambda>s. Inr (s, NoZone)), json_loads = (\<lambda>_. Inr JsonNull), json_dumps = (\<lambda>_. Inr ''null'')\<rparr>"


section \<open>What adapters promise\<close>

fun decodes :: "field \<Rightarrow> datum \<Rightarrow> datum \<Rightarrow> bool" where
  "decodes (Field name None) v w = (w = v)"
| "decodes (Field name (Some d)) v w = (decode d v = Inr w)"

lemma decode_field_ok: "decode_field a index f v = Inr w \<longleftrightarrow> decodes f v w"
  by (cases "(f, v, w)" rule: decodes.cases) (auto simp: decode_field_def split: sum.splits)

lemma decode_field_fails:
  "decode_field a index f v = Inl e \<longleftrightarrow> (\<exists>d e'. field_decoder f = Some d \<and> decode d v = Inl e'
     \<and> e = (if is_exception e' then RowDecodingError [model_name a, field_name f, str_of_nat index, decoder_name d] else e'))"
  by (auto simp: decode_field_def split: option.splits sum.splits)

lemma decode_fields_ok:
  "length fs = length row \<Longrightarrow> decode_fields a index fs row = Inr ws \<longleftrightarrow>
     length ws = length row \<and> (\<forall>i < length row. decodes (fs ! i) (row ! i) (ws ! i))"
proof (induction a index fs row arbitrary: ws rule: decode_fields.induct)
  case (1 a index f fs v vs)
  then show ?case
    by (cases ws) (auto simp: and_then_ok decode_field_ok All_less_Suc2)
qed (auto simp: and_then_ok)

lemma decode_fields_fails:
  assumes "length fs = length row"
  shows "decode_fields a index fs row = Inl e \<longleftrightarrow> (\<exists>i < length row.
    decode_field a (index + i) (fs ! i) (row ! i) = Inl e \<and> (\<forall>j < i. \<exists>w. decodes (fs ! j) (row ! j) w))"
  using assms
proof (induction a index fs row rule: decode_fields.induct)
  case (1 a index f fs v vs)
  show ?case
  proof (cases "decode_field a index f v")
    case (Inl e')
    then have "\<not> decodes f v w" for w using decode_field_ok [of a index f v w] by simp
    with Inl show ?thesis by (auto intro: exI [of _ 0] simp: nth_Cons' split: if_splits)
  next
    case (Inr w)
    then have "decodes f v w" by (simp add: decode_field_ok)
    with 1 Inr show ?thesis
      by (simp add: and_then_Inl Ex_less_Suc2 All_less_Suc2) (metis sum.distinct(1))
  qed
qed auto

text \<open>
  An adapter returns what its constructor makes of the decoded fields, and nothing else: a row of
  the wrong width is refused before any decoder runs; otherwise the exception is the constructor's
  own, or the first field that fails is reported as a \<open>RowDecodingError\<close> with the model, the field,
  its position and its decoder (an exception that is no \<open>Exception\<close> passes unchanged).
\<close>

theorem adapters_exact:
  "(adapter_map a row = Inr m \<longleftrightarrow> length row = arity a \<and> (\<exists>ws. length ws = length row
       \<and> (\<forall>i < length row. decodes (fields a ! i) (row ! i) (ws ! i)) \<and> factory a ws = Inr m))
   \<and> (adapter_map a row = Inl e \<longleftrightarrow>
       (if length row \<noteq> arity a then e = ValueError ''requires another number of result columns''
          [model_name a, str_of_nat (arity a), str_of_nat (length row)]
        else (\<exists>ws. length ws = length row \<and> (\<forall>i < length row. decodes (fields a ! i) (row ! i) (ws ! i))
                \<and> factory a ws = Inl e)
           \<or> (\<exists>i < length row. \<exists>d e'. field_decoder (fields a ! i) = Some d \<and> decode d (row ! i) = Inl e'
                \<and> e = (if is_exception e' then RowDecodingError [model_name a, field_name (fields a ! i), str_of_nat i,
                      decoder_name d] else e')
                \<and> (\<forall>j < i. \<exists>w. decodes (fields a ! j) (row ! j) w))))"
proof (cases "length row = arity a")
  case True
  then have "length (fields a) = length row" by (simp add: arity_def)
  note decoded = decode_fields_ok [OF this, of a 0] decode_fields_fails [OF this, of a 0, simplified]
  show ?thesis
    unfolding adapter_map_def and_then_ok and_then_Inl decoded decode_field_fails using True
    by (simp add: raise_if_Inl) blast
next
  case False
  then show ?thesis by (auto simp: adapter_map_def and_then_ok and_then_Inl)
qed

theorem adapters_exact_witness:
  "let a = RowAdapter ''User'' (\<lambda>vs. Inr (ListValue vs)) [Field ''id'' (Some int_decoder), Field ''name'' None] in
     adapter_map a [IntValue 1, OtherValue 0] = Inr (ListValue [IntValue 1, OtherValue 0])
     \<and> adapter_map a [StrValue ''x'', OtherValue 0] = Inl (RowDecodingError [''User'', ''id'', ''0'', ''int''])"
proof -
  let ?a = "RowAdapter ''User'' (\<lambda>vs. Inr (ListValue vs)) [Field ''id'' (Some int_decoder), Field ''name'' None]"
  have zero: "str_of_nat 0 = ''0''" by (simp add: str_of_nat_def nat_digits.simps char_of_def bit_0)
  have "adapter_map ?a [IntValue 1, OtherValue 0] = Inr (ListValue [IntValue 1, OtherValue 0])"
    by (subst adapters_exact [THEN conjunct1])
      (auto simp: arity_def int_decoder_def instance_decoded less_Suc_eq
        intro!: exI [of _ "[IntValue 1, OtherValue 0]"])
  moreover have "adapter_map ?a [StrValue ''x'', OtherValue 0] = Inl (RowDecodingError [''User'', ''id'', ''0'', ''int''])"
    by (subst adapters_exact [THEN conjunct2])
      (simp add: arity_def int_decoder_def instance_decoder_def is_exception_def zero
        Ex_less_Suc2)
  ultimately show ?thesis by (simp add: Let_def)
qed

end
