(* ===== verification/Select_Builder.thy ===== *)
theory Select_Builder
  imports Built Rows
begin

text \<open>
  \<open>relq/query.py\<close>: the immutable SELECT builder.  A query object is its \<open>_QueryState\<close>: the statement and
  the row decoder of the executor, of which only the model's name and the number of columns it needs
  matter here.  Every method returns a new object; \<open>replace(node, field = ...)\<close> is one of the updates
  below.
\<close>

section \<open>Query objects\<close>

datatype select_query = SelectQuery (select_of: "py_value select_node") (adapter_of: "row_adapter option")

datatype modifying_query =
  ModifyingQuery (modifying_select: "py_value select_node") (modifying_adapter: "row_adapter option")

text \<open>The state \<open>extract_query\<close> returns for any query object.\<close>

datatype query_state = QueryState (state_node: "py_value query") (state_adapter: "row_adapter option")

definition with_node :: "select_query \<Rightarrow> py_value select_node \<Rightarrow> select_query" where
  "with_node self node = SelectQuery node (adapter_of self)"

fun set_from where
  "set_from source (SelectNode a b c d e f g h i j k l m) = SelectNode a (Some source) c d e f g h i j k l m"

fun add_join where
  "add_join join (SelectNode a b c d e f g h i j k l m) = SelectNode a b (c @ [join]) d e f g h i j k l m"

fun set_where where
  "set_where node (SelectNode a b c d e f g h i j k l m) = SelectNode a b c (Some node) e f g h i j k l m"

fun add_groups where
  "add_groups nodes (SelectNode a b c d e f g h i j k l m) = SelectNode a b c d (e @ nodes) f g h i j k l m"

fun set_having where
  "set_having node (SelectNode a b c d e f g h i j k l m) = SelectNode a b c d e (Some node) g h i j k l m"

fun add_orders where
  "add_orders nodes (SelectNode a b c d e f g h i j k l m) = SelectNode a b c d e f (g @ nodes) h i j k l m"

fun set_limit where
  "set_limit n (SelectNode a b c d e f g h i j k l m) = SelectNode a b c d e f g (Some n) i j k l m"

fun set_offset where
  "set_offset n (SelectNode a b c d e f g h i j k l m) = SelectNode a b c d e f g h (Some n) j k l m"

fun set_distinct where
  "set_distinct (SelectNode a b c d e f g h i j k l m) = SelectNode a b c d e f g h i True k l m"

fun add_cte where
  "add_cte cte (SelectNode a b c d e f g h i j k l m) = SelectNode a b c d e f g h i j (k @ [cte]) l m"

fun add_compound where
  "add_compound arm (SelectNode a b c d e f g h i j k l m) = SelectNode a b c d e f g h i j k (l @ [arm]) m"

fun set_locks where
  "set_locks clauses (SelectNode a b c d e f g h i j k l m) = SelectNode a b c d e f g h i j k l clauses"

section \<open>Sources, predicates and ordering\<close>

definition query_from :: "select_query \<Rightarrow> relation \<Rightarrow> select_query result" where
  "query_from self source = and_then
     (raise_if (from_source (select_of self) \<noteq> None) (ValueError ''from_() can only be specified once'' []))
     (\<lambda>_. Inr (with_node self (set_from (relation_node source) (select_of self))))"

definition require_from_source :: "py_value select_node \<Rightarrow> unit result" where
  "require_from_source node = raise_if (from_source node = None)
     (ValueError ''joins require a preceding from_(...) clause'' [])"

definition join_source_on :: "select_query \<Rightarrow> relation \<Rightarrow> expr \<Rightarrow> string \<Rightarrow> select_query result" where
  "join_source_on self source on kind = and_then (require_from_source (select_of self))
     (\<lambda>_. Inr (with_node self (add_join (JoinNode (relation_node source) (node_of on) kind) (select_of self))))"

definition inner_join :: "select_query \<Rightarrow> relation \<Rightarrow> expr \<Rightarrow> select_query result" where
  "inner_join self source on = join_source_on self source on ''inner''"

definition left_join :: "select_query \<Rightarrow> relation \<Rightarrow> expr \<Rightarrow> select_query result" where
  "left_join self source on = join_source_on self source on ''left''"

definition right_join :: "select_query \<Rightarrow> relation \<Rightarrow> expr \<Rightarrow> select_query result" where
  "right_join self source on = join_source_on self source on ''right''"

definition full_join :: "select_query \<Rightarrow> relation \<Rightarrow> expr \<Rightarrow> select_query result" where
  "full_join self source on = join_source_on self source on ''full''"

definition cross_join :: "select_query \<Rightarrow> relation \<Rightarrow> select_query result" where
  "cross_join self source = and_then (require_from_source (select_of self))
     (\<lambda>_. Inr (with_node self (add_join (JoinNode (relation_node source) StarNode ''cross'') (select_of self))))"

text \<open>The conjunction of an optional earlier predicate with a new one.\<close>

definition conjoin :: "py_value node option \<Rightarrow> py_value node \<Rightarrow> py_value node" where
  "conjoin earlier node = (case earlier of None \<Rightarrow> node | Some e \<Rightarrow> BinaryNode e ''and'' node)"

definition query_where :: "select_query \<Rightarrow> expr \<Rightarrow> select_query" where
  "query_where self p = with_node self
     (set_where (conjoin (where_node (select_of self)) (node_of p)) (select_of self))"

definition query_group_by :: "select_query \<Rightarrow> expr list \<Rightarrow> select_query result" where
  "query_group_by self added = and_then
     (raise_if (added = []) (ValueError ''group_by requires at least one expression'' []))
     (\<lambda>_. Inr (with_node self (add_groups (map node_of added) (select_of self))))"

definition query_having :: "select_query \<Rightarrow> expr \<Rightarrow> select_query" where
  "query_having self p = with_node self
     (set_having (conjoin (having_node (select_of self)) (node_of p)) (select_of self))"

definition query_distinct :: "select_query \<Rightarrow> select_query" where
  "query_distinct self = with_node self (set_distinct (select_of self))"

definition query_order_by :: "select_query \<Rightarrow> py_value order list \<Rightarrow> select_query result" where
  "query_order_by self added = and_then
     (raise_if (added = []) (ValueError ''order_by requires at least one Order'' []))
     (\<lambda>_. Inr (with_node self (add_orders added (select_of self))))"

text \<open>\<open>type(amount) is not int\<close>: a bool is refused, as is every other object.\<close>

fun validate_row_count :: "string \<Rightarrow> py_value \<Rightarrow> int result" where
  "validate_row_count name (PyInt n) =
     and_then (raise_if (n < 0) (ValueError ''must be non-negative'' [name])) (\<lambda>_. Inr n)"
| "validate_row_count name _ = Inl (TypeError ''must be an int'' [name])"

definition query_limit :: "select_query \<Rightarrow> py_value \<Rightarrow> select_query result" where
  "query_limit self amount = and_then
     (raise_if (limit_count (select_of self) \<noteq> None) (ValueError ''limit() can only be specified once'' []))
     (\<lambda>_. and_then (validate_row_count ''limit'' amount)
       (\<lambda>n. Inr (with_node self (set_limit n (select_of self)))))"

definition query_offset :: "select_query \<Rightarrow> py_value \<Rightarrow> select_query result" where
  "query_offset self amount = and_then
     (raise_if (offset_count (select_of self) \<noteq> None) (ValueError ''offset() can only be specified once'' []))
     (\<lambda>_. and_then (validate_row_count ''offset'' amount)
       (\<lambda>n. Inr (with_node self (set_offset n (select_of self)))))"

section \<open>Derived relations, compounds and common table expressions\<close>

fun output_name :: "py_value node \<Rightarrow> string option" where
  "output_name (AliasNode e alias) = Some alias"
| "output_name (ColumnNode source name) = Some name"
| "output_name (NullableResultNode (AliasNode e alias)) = Some alias"
| "output_name (NullableResultNode (ColumnNode source name)) = Some name"
| "output_name _ = None"

definition validate_output_schema :: "py_value node list \<Rightarrow> string set \<Rightarrow> unit result" where
  "validate_output_schema nodes expected = and_then
     (map_results (\<lambda>n. case output_name n of
          None \<Rightarrow> Inl (ValueError
            ''typed derived and CTE relations require every selected expression to have an output alias'' [])
        | Some name \<Rightarrow> Inr name) nodes)
     (\<lambda>actual. checks
       [raise_if (length actual \<noteq> card (set actual)) (ValueError
          ''typed derived and CTE relations cannot have duplicate output names'' []),
        raise_if (set actual \<noteq> expected) (ValueError
          ''relation output schema does not match query projection'' (sorted_names expected @ actual))])"

text \<open>
  \<open>as_(relation, alias)\<close>: \<open>columns\<close> are the declared columns of the relation class, whose names are its
  \<open>output_names()\<close>.
\<close>

definition select_as :: "select_query \<Rightarrow> (string \<times> string) list \<Rightarrow> string \<Rightarrow> relation result" where
  "select_as self columns alias = and_then
     (validate_output_schema (selections (select_of self)) (set (map snd columns)))
     (\<lambda>_. derived_table columns (DerivedSourceNode (select_of self) alias) alias)"

definition validate_compound_result_shape :: "select_query \<Rightarrow> select_query \<Rightarrow> unit result" where
  "validate_compound_result_shape left right = raise_if
     (length (selections (select_of left)) \<noteq> length (selections (select_of right)))
     (ValueError ''compound queries require equal projection widths''
       [str_of_nat (length (selections (select_of left))), str_of_nat (length (selections (select_of right)))])"

definition compound_with :: "select_query \<Rightarrow> select_query \<Rightarrow> string \<Rightarrow> select_query result" where
  "compound_with self other operator = and_then (validate_compound_result_shape self other)
     (\<lambda>_. Inr (with_node self (add_compound (CompoundNode operator (select_of other)) (select_of self))))"

definition query_union :: "select_query \<Rightarrow> select_query \<Rightarrow> select_query result" where
  "query_union self other = compound_with self other ''union''"

definition union_all :: "select_query \<Rightarrow> select_query \<Rightarrow> select_query result" where
  "union_all self other = compound_with self other ''union all''"

definition query_intersect :: "select_query \<Rightarrow> select_query \<Rightarrow> select_query result" where
  "query_intersect self other = compound_with self other ''intersect''"

definition query_except :: "select_query \<Rightarrow> select_query \<Rightarrow> select_query result" where
  "query_except self other = compound_with self other ''except''"

definition reject_declared_model :: "row_adapter option \<Rightarrow> unit result" where
  "reject_declared_model adapter = raise_if (adapter \<noteq> None)
     (ValueError ''a CTE source cannot declare a row model: its rows never reach the executor'' [])"

definition select_cte_node :: "select_query \<Rightarrow> py_value query result" where
  "select_cte_node query = and_then (reject_declared_model (adapter_of query))
     (\<lambda>_. Inr (SelectQ (select_of query)))"

fun returning_of :: "py_value dml \<Rightarrow> py_value node list" where
  "returning_of (InsertDml i) = insert_returning i"
| "returning_of (UpdateDml u) = update_returning u"
| "returning_of (DeleteDml e) = delete_returning e"

definition modifying_cte_node :: "query_state \<Rightarrow> py_value query result" where
  "modifying_cte_node query = and_then (reject_declared_model (state_adapter query))
     (\<lambda>_. case state_node query of
          SelectQ s \<Rightarrow> Inl (TypeError
            ''with_modifying() takes INSERT, UPDATE, or DELETE; use with_() for SELECT'' [])
        | DmlQ m \<Rightarrow> and_then
            (raise_if (returning_of m = [])
              (ValueError ''a data-modifying CTE requires returning() to publish its rows'' []))
            (\<lambda>_. Inr (DmlQ m)))"

fun output_expressions :: "py_value query \<Rightarrow> py_value node list" where
  "output_expressions (SelectQ s) = selections s"
| "output_expressions (DmlQ m) = returning_of m"

definition with_cte ::
  "py_value select_node \<Rightarrow> relation \<Rightarrow> py_value query \<Rightarrow> bool \<Rightarrow> py_value select_node result" where
  "with_cte node source query_node materialized = and_then
     (validate_output_schema (output_expressions query_node) (column_names source))
     (\<lambda>_. Inr (add_cte (CteNode (relation_reference source) query_node False materialized) node))"

definition query_with :: "select_query \<Rightarrow> relation \<Rightarrow> select_query \<Rightarrow> bool \<Rightarrow> select_query result" where
  "query_with self source query materialized = and_then (select_cte_node query)
     (\<lambda>body. and_then (with_cte (select_of self) source body materialized)
       (\<lambda>node. Inr (with_node self node)))"

definition with_recursive :: "select_query \<Rightarrow> relation \<Rightarrow> select_query \<Rightarrow> select_query result" where
  "with_recursive self source query = and_then (reject_declared_model (adapter_of query))
     (\<lambda>_. and_then (validate_output_schema (selections (select_of query)) (column_names source))
       (\<lambda>_. Inr (with_node self (add_cte
          (CteNode (relation_reference source) (SelectQ (select_of query)) True False) (select_of self)))))"

definition with_modifying :: "select_query \<Rightarrow> relation \<Rightarrow> query_state \<Rightarrow> bool \<Rightarrow> modifying_query result" where
  "with_modifying self source query materialized = and_then (modifying_cte_node query)
     (\<lambda>body. and_then (with_cte (select_of self) source body materialized)
       (\<lambda>node. Inr (ModifyingQuery node (adapter_of self))))"

definition modifying_with :: "modifying_query \<Rightarrow> relation \<Rightarrow> select_query \<Rightarrow> bool \<Rightarrow> modifying_query result" where
  "modifying_with self source query materialized = and_then (select_cte_node query)
     (\<lambda>body. and_then (with_cte (modifying_select self) source body materialized)
       (\<lambda>node. Inr (ModifyingQuery node (modifying_adapter self))))"

definition modifying_with_modifying ::
  "modifying_query \<Rightarrow> relation \<Rightarrow> query_state \<Rightarrow> bool \<Rightarrow> modifying_query result" where
  "modifying_with_modifying self source query materialized = and_then (modifying_cte_node query)
     (\<lambda>body. and_then (with_cte (modifying_select self) source body materialized)
       (\<lambda>node. Inr (ModifyingQuery node (modifying_adapter self))))"

section \<open>Row locks and decoders\<close>

definition lock_rows :: "select_query \<Rightarrow> string \<Rightarrow> relation list \<Rightarrow> select_query result" where
  "lock_rows self strength tables = and_then (map_results table_node tables)
     (\<lambda>targets. Inr (with_node self
       (set_locks (locks (select_of self) @ [LockClauseNode strength targets None]) (select_of self))))"

definition for_update :: "select_query \<Rightarrow> relation list \<Rightarrow> select_query result" where
  "for_update self tables = lock_rows self ''update'' tables"

definition for_no_key_update :: "select_query \<Rightarrow> relation list \<Rightarrow> select_query result" where
  "for_no_key_update self tables = lock_rows self ''no key update'' tables"

definition for_share :: "select_query \<Rightarrow> relation list \<Rightarrow> select_query result" where
  "for_share self tables = lock_rows self ''share'' tables"

definition for_key_share :: "select_query \<Rightarrow> relation list \<Rightarrow> select_query result" where
  "for_key_share self tables = lock_rows self ''key share'' tables"

definition wait_policy :: "select_query \<Rightarrow> string \<Rightarrow> select_query result" where
  "wait_policy self wait = (let clauses = locks (select_of self) in
     if clauses = []
     then Inl (ValueError ''requires a preceding lock clause'' [replace_char CHR '' '' ''_'' wait])
     else let latest = last clauses in
       if lock_wait latest \<noteq> None then Inl (ValueError ''a lock clause can have only one wait policy'' [])
       else Inr (with_node self (set_locks
         (butlast clauses @ [LockClauseNode (lock_strength latest) (lock_of latest) (Some wait)])
         (select_of self))))"

definition no_wait :: "select_query \<Rightarrow> select_query result" where
  "no_wait self = wait_policy self ''nowait''"

definition skip_locked :: "select_query \<Rightarrow> select_query result" where
  "skip_locked self = wait_policy self ''skip locked''"

text \<open>The width check of the \<open>decode\<close> methods, for the adapter made from its argument.\<close>

definition decode_width :: "py_value select_node \<Rightarrow> row_adapter \<Rightarrow> unit result" where
  "decode_width node adapter = raise_if (length (selections node) \<noteq> arity adapter)
     (ValueError ''requires another number of result columns''
       [model_name adapter, str_of_nat (arity adapter), str_of_nat (length (selections node))])"

definition decode_select :: "select_query \<Rightarrow> decode_model \<Rightarrow> select_query result" where
  "decode_select self model = and_then (adapter_for model) (\<lambda>adapter. and_then (decode_width (select_of self) adapter)
     (\<lambda>_. Inr (SelectQuery (select_of self) (Some adapter))))"

definition decode_modifying :: "modifying_query \<Rightarrow> decode_model \<Rightarrow> modifying_query result" where
  "decode_modifying self model = and_then (adapter_for model) (\<lambda>adapter. and_then (decode_width (modifying_select self) adapter)
     (\<lambda>_. Inr (ModifyingQuery (modifying_select self) (Some adapter))))"

section \<open>Starting a query\<close>

definition selection_nodes :: "operand list \<Rightarrow> nat \<Rightarrow> string \<Rightarrow> py_value node list result" where
  "selection_nodes items limit name = and_then
     (raise_if (length items > limit) (ValueError
       ''supports at most this many expressions; declare a DerivedTable and compose smaller projections''
       [name, str_of_nat limit]))
     (\<lambda>_. map_results (\<lambda>x. case x of
         Literal _ \<Rightarrow> Inl (TypeError ''accepts only SQL expressions'' [name])
       | Operand e \<Rightarrow> Inr (node_of e)) items)"

text \<open>\<open>named\<close> says that keyword arguments were given.\<close>

definition select :: "operand \<Rightarrow> operand list \<Rightarrow> bool \<Rightarrow> select_query result" where
  "select first rest named = and_then
     (raise_if named (TypeError ''select expressions must be positional'' []))
     (\<lambda>_. and_then (selection_nodes (first # rest) 8 ''select'')
       (\<lambda>nodes. Inr (SelectQuery (new_select nodes) None)))"

definition select_all_from :: "relation \<Rightarrow> select_query result" where
  "select_all_from source = and_then
     (raise_if (source_columns source = [])
       (ValueError ''select_all_from requires a relation with declared columns'' []))
     (\<lambda>_. Inr (SelectQuery (new_select (map node_of (source_columns source))) None))"

lemmas builder_defs = with_node_def query_from_def require_from_source_def join_source_on_def inner_join_def
  left_join_def right_join_def full_join_def cross_join_def query_where_def query_group_by_def query_having_def
  query_distinct_def query_order_by_def query_limit_def query_offset_def compound_with_def query_union_def union_all_def
  query_intersect_def query_except_def select_cte_node_def modifying_cte_node_def with_cte_def query_with_def
  with_recursive_def with_modifying_def modifying_with_def modifying_with_modifying_def lock_rows_def
  for_update_def for_no_key_update_def for_share_def for_key_share_def wait_policy_def no_wait_def
  skip_locked_def decode_select_def decode_modifying_def selection_nodes_def select_def
  select_all_from_def select_as_def

section \<open>Output schemas\<close>

text \<open>
  A query can be bound to a declared relation exactly when its selected expressions have output
  names that are pairwise distinct and are, as a set, the declared columns: every column of the bound
  relation is then exactly one selected expression.
\<close>

theorem output_schema_exact:
  "validate_output_schema nodes expected = Inr () \<longleftrightarrow>
     (\<exists>names. map output_name nodes = map Some names \<and> distinct names \<and> set names = expected)"
proof -
  have names: "map_results (\<lambda>n. case output_name n of None \<Rightarrow> Inl e | Some name \<Rightarrow> Inr name) nodes = Inr names
      \<longleftrightarrow> map output_name nodes = map Some names" for names and e :: exn
    by (induction nodes arbitrary: names) (auto simp: and_then_ok split: option.splits)
  have "length xs = card (set xs) \<longleftrightarrow> distinct xs" for xs :: "string list"
    by (metis card_distinct distinct_card)
  then show ?thesis
    unfolding validate_output_schema_def and_then_ok names checks_ok by simp
qed

section \<open>Conjunctions\<close>

lemma truth_conjoin:
  "truth atom null_of nonempty (conjoin earlier node) = Some True \<longleftrightarrow>
     (\<forall>e \<in> set_option earlier. truth atom null_of nonempty e = Some True)
     \<and> truth atom null_of nonempty node = Some True"
  by (cases earlier) (simp_all add: conjoin_def kleene_and_True)

lemma where_after [simp]:
  "where_node (select_of (query_where q p)) = Some (conjoin (where_node (select_of q)) (node_of p))"
  by (cases "select_of q") (simp add: query_where_def with_node_def)

lemma having_after [simp]:
  "having_node (select_of (query_having q p)) = Some (conjoin (having_node (select_of q)) (node_of p))"
  by (cases "select_of q") (simp add: query_having_def with_node_def)

text \<open>
  Repeated \<open>where()\<close> and \<open>having()\<close> calls accumulate: a row passes the resulting clause exactly
  when the earlier clause and each of the predicates are TRUE of it in SQL's three-valued logic.
\<close>

theorem predicates_accumulate:
  "((\<forall>e \<in> set_option (where_node (select_of (foldl query_where q ps))). truth atom null_of nonempty e = Some True)
     \<longleftrightarrow> (\<forall>e \<in> set_option (where_node (select_of q)) \<union> node_of ` set ps. truth atom null_of nonempty e = Some True))
   \<and> ((\<forall>e \<in> set_option (having_node (select_of (foldl query_having q ps))). truth atom null_of nonempty e = Some True)
     \<longleftrightarrow> (\<forall>e \<in> set_option (having_node (select_of q)) \<union> node_of ` set ps. truth atom null_of nonempty e = Some True))"
  by (induction ps arbitrary: q) (auto simp: truth_conjoin)

theorem predicates_accumulate_witness:
  "truth (\<lambda>_. Some True) (\<lambda>_. False) (\<lambda>_. False) (the (where_node (select_of (foldl query_where
       (SelectQuery (new_select []) None) [expression (ColumnNode ''t'' ''a''), expression (ColumnNode ''t'' ''b'')]))))
   = Some True"
proof -
  let ?t = "truth (\<lambda>_. Some True) (\<lambda>_. False) (\<lambda>_. False)"
    and ?w = "where_node (select_of (foldl query_where (SelectQuery (new_select []) None)
       [expression (ColumnNode ''t'' ''a''), expression (ColumnNode ''t'' ''b'')]))"
  have "\<forall>e \<in> set_option ?w. ?t e = Some True"
    by (subst predicates_accumulate [THEN conjunct1]) (auto simp: wrappers)
  moreover have "?w \<noteq> None" by simp
  ultimately show ?thesis by auto
qed

section \<open>What every built query satisfies\<close>

declare operands_in_mono [mono del]

inductive built_query :: "select_query \<Rightarrow> bool" where
  query_select: "operands_in built (set (first # rest)) \<Longrightarrow> select first rest named = Inr q \<Longrightarrow> built_query q"
| query_select_all: "select_all_from r = Inr q \<Longrightarrow> built_query q"
| query_from: "built_query q \<Longrightarrow> query_from q r = Inr q' \<Longrightarrow> built_query q'"
| query_join: "built_query q \<Longrightarrow> built e \<Longrightarrow> f \<in> {inner_join, left_join, right_join, full_join} \<Longrightarrow>
    f q r e = Inr q' \<Longrightarrow> built_query q'"
| query_cross: "built_query q \<Longrightarrow> cross_join q r = Inr q' \<Longrightarrow> built_query q'"
| query_filter: "built_query q \<Longrightarrow> built e \<Longrightarrow> f \<in> {query_where, query_having} \<Longrightarrow> built_query (f q e)"
| query_group: "built_query q \<Longrightarrow> \<forall>e \<in> set es. built e \<Longrightarrow> query_group_by q es = Inr q' \<Longrightarrow> built_query q'"
| query_distinct: "built_query q \<Longrightarrow> built_query (query_distinct q)"
| query_order: "built_query q \<Longrightarrow> \<forall>ord \<in> set ords. \<exists>e. built e \<and> ordering e ord \<Longrightarrow>
    query_order_by q ords = Inr q' \<Longrightarrow> built_query q'"
| query_count: "built_query q \<Longrightarrow> f \<in> {query_limit, query_offset} \<Longrightarrow> f q amount = Inr q' \<Longrightarrow> built_query q'"
| query_compound: "built_query q \<Longrightarrow> built_query other \<Longrightarrow>
    f \<in> {query_union, union_all, query_intersect, query_except} \<Longrightarrow> f q other = Inr q' \<Longrightarrow> built_query q'"
| query_with: "built_query q \<Longrightarrow> built_query body \<Longrightarrow> query_with q r body materialized = Inr q' \<Longrightarrow> built_query q'"
| query_recursive: "built_query q \<Longrightarrow> built_query body \<Longrightarrow> with_recursive q r body = Inr q' \<Longrightarrow> built_query q'"
| query_lock: "built_query q \<Longrightarrow> f \<in> {for_update, for_no_key_update, for_share, for_key_share} \<Longrightarrow>
    f q tables = Inr q' \<Longrightarrow> built_query q'"
| query_wait: "built_query q \<Longrightarrow> f \<in> {no_wait, skip_locked} \<Longrightarrow> f q = Inr q' \<Longrightarrow> built_query q'"
| query_decode: "built_query q \<Longrightarrow> decode_select q model = Inr q' \<Longrightarrow> built_query q'"

definition join_kinds :: "string set" where
  "join_kinds = {''inner'', ''left'', ''right'', ''full'', ''cross''}"

definition closed_lock :: "lock_clause \<Rightarrow> bool" where
  "closed_lock l \<longleftrightarrow> lock_strength l \<in> {''update'', ''no key update'', ''share'', ''key share''}
     \<and> lock_wait l \<in> {None, Some ''nowait'', Some ''skip locked''}"

definition compound_operators :: "string set" where
  "compound_operators = {''union'', ''union all'', ''intersect'', ''except''}"

definition sound_select :: "py_value select_node \<Rightarrow> bool" where
  "sound_select s \<longleftrightarrow>
     (joins s \<noteq> [] \<longrightarrow> from_source s \<noteq> None)
     \<and> (\<forall>j \<in> set (joins s). join_kind j \<in> join_kinds)
     \<and> (\<forall>e \<in> set (clause_expressions s). closed e)
     \<and> (\<forall>ord \<in> set (order_by s). closed_order ord)
     \<and> (\<forall>n \<in> set_option (limit_count s) \<union> set_option (offset_count s). 0 \<le> n)
     \<and> (\<forall>l \<in> set (locks s). closed_lock l)
     \<and> (\<forall>c \<in> set (compounds s). compound_operator c \<in> compound_operators
          \<and> length (selections (compound_query c)) = length (selections s))
     \<and> (\<forall>c \<in> set (ctes s). \<exists>body. cte_query c = SelectQ body)"

lemma sound_updates:
  "sound_select s \<Longrightarrow> sound_select (set_from src s)"
  "sound_select s \<Longrightarrow> from_source s \<noteq> None \<Longrightarrow> join_kind j \<in> join_kinds \<Longrightarrow> closed (join_predicate j) \<Longrightarrow>
     sound_select (add_join j s)"
  "sound_select s \<Longrightarrow> closed n \<Longrightarrow> sound_select (set_where n s)"
  "sound_select s \<Longrightarrow> \<forall>n \<in> set ns. closed n \<Longrightarrow> sound_select (add_groups ns s)"
  "sound_select s \<Longrightarrow> closed n \<Longrightarrow> sound_select (set_having n s)"
  "sound_select s \<Longrightarrow> \<forall>ord \<in> set ords. closed_order ord \<and> closed (order_expression ord) \<Longrightarrow>
     sound_select (add_orders ords s)"
  "sound_select s \<Longrightarrow> 0 \<le> k \<Longrightarrow> sound_select (set_limit k s)"
  "sound_select s \<Longrightarrow> 0 \<le> k \<Longrightarrow> sound_select (set_offset k s)"
  "sound_select s \<Longrightarrow> sound_select (set_distinct s)"
  "sound_select s \<Longrightarrow> cte_query c = SelectQ body \<Longrightarrow> sound_select (add_cte c s)"
  "sound_select s \<Longrightarrow> compound_operator m \<in> compound_operators \<Longrightarrow>
     length (selections (compound_query m)) = length (selections s) \<Longrightarrow> sound_select (add_compound m s)"
  "sound_select s \<Longrightarrow> \<forall>l \<in> set ls. closed_lock l \<Longrightarrow> sound_select (set_locks ls s)"
  by (cases s; auto simp: sound_select_def clause_expressions_def join_predicates_def order_expressions_def)+

lemma closed_conjoin:
  "sound_select s \<Longrightarrow> closed n \<Longrightarrow> closed (conjoin (where_node s) n) \<and> closed (conjoin (having_node s) n)"
  by (auto simp: conjoin_def sound_select_def clause_expressions_def elem_set vocabulary split: option.splits)

lemma sound_new: "\<forall>n \<in> set nodes. closed n \<Longrightarrow> sound_select (new_select nodes)"
  by (auto simp: sound_select_def clause_expressions_def join_predicates_def order_expressions_def)

lemma selection_nodes_ok:
  "selection_nodes items n name = Inr nodes \<longleftrightarrow>
     length items \<le> n \<and> (\<exists>es. items = map Operand es \<and> nodes = map node_of es)"
proof -
  have "map_results (\<lambda>x. case x of Literal _ \<Rightarrow> Inl e | Operand y \<Rightarrow> Inr (node_of y)) items = Inr nodes
      \<longleftrightarrow> (\<exists>es. items = map Operand es \<and> nodes = map node_of es)" for e :: exn
    by (induction items arbitrary: nodes) (auto simp: and_then_ok Cons_eq_map_conv split: operand.splits)
  then show ?thesis by (auto simp: selection_nodes_def and_then_ok)
qed

lemma sound_waited:
  assumes "sound_select s" "locks s \<noteq> []" "policy \<in> {''nowait'', ''skip locked''}"
  shows "sound_select (set_locks (butlast (locks s)
     @ [LockClauseNode (lock_strength (last (locks s))) (lock_of (last (locks s))) (Some policy)]) s)"
proof (rule sound_updates(12) [OF assms(1)], intro ballI)
  have old: "closed_lock l" if "l \<in> set (locks s)" for l using assms(1) that by (simp add: sound_select_def)
  have latest: "closed_lock (LockClauseNode (lock_strength l) (lock_of l) (Some policy))" if "closed_lock l" for l
    using that assms(3) by (auto simp: closed_lock_def)
  fix l
  assume "l \<in> set (butlast (locks s)
     @ [LockClauseNode (lock_strength (last (locks s))) (lock_of (last (locks s))) (Some policy)])"
  then show "closed_lock l"
    using old latest [OF old [OF last_in_set [OF assms(2)]]] by (auto dest: in_set_butlastD)
qed

lemma validate_row_count_ok: "validate_row_count name v = Inr n \<longleftrightarrow> v = PyInt n \<and> 0 \<le> n"
  by (cases v) (auto simp: and_then_ok)

text \<open>
  C22.  Every SELECT a program can build is well formed before it is compiled: joins follow a FROM and
  are of one of the five kinds, limits and offsets are not negative, a lock clause has one strength and
  at most one wait policy, the arms of a compound have its width, every WITH body is a SELECT, and all
  clauses keep to the closed vocabulary of the expression builders.
\<close>

theorem built_queries_sound:
  assumes "built_query q"
  shows "sound_select (select_of q)"
  using assms
proof (induction rule: built_query.induct)
  case (query_select first rest named q)
  then show ?case
    by (auto simp: select_def and_then_ok selection_nodes_ok operands_in_def intro!: sound_new built_closed)
next
  case (query_select_all r q)
  then show ?case by (auto simp: select_all_from_def relation_defs and_then_ok intro!: sound_new)
next
  case (query_filter q e f)
  then show ?case using closed_conjoin [OF query_filter.IH built_closed [OF query_filter.hyps(2)]]
    by (auto simp: query_where_def query_having_def with_node_def intro!: sound_updates)
next
  case (query_order q ords q')
  have "closed_order ord \<and> closed (order_expression ord)" if "ord \<in> set ords" for ord
    using query_order.hyps(2) that ordering_cases built_closed by metis
  with query_order show ?case
    by (auto simp: query_order_by_def with_node_def and_then_ok intro!: sound_updates)
next
  case (query_wait q f q')
  then show ?case
    by (auto simp: no_wait_def skip_locked_def wait_policy_def Let_def with_node_def
      intro!: sound_waited split: if_splits)
next
  case (query_lock q f tables q')
  then show ?case
    by (auto simp: builder_defs and_then_ok intro!: sound_updates)
       (auto simp: sound_select_def closed_lock_def)
qed (auto simp: builder_defs and_then_ok validate_row_count_ok validate_compound_result_shape_def
    join_kinds_def compound_operators_def intro!: sound_updates built_closed)

theorem built_queries_sound_witness:
  "sound_select (SelectNode [ColumnNode ''a'' ''x''] (Some (CteSourceNode ''a''))
     [JoinNode (CteSourceNode ''b'') (BinaryNode (ColumnNode ''a'' ''x'') ''='' (ColumnNode ''b'' ''x'')) ''left'']
     None [] None [] (Some 10) None False [] [] [])"
proof -
  let ?a = "Relation (CteSourceNode ''a'') [(''x'', ''x'')]" and ?b = "Relation (CteSourceNode ''b'') [(''x'', ''x'')]"
  have on: "built (expr_eq (get_column ?a ''x'') (Operand (get_column ?b ''x'')))"
    by (rule built_comparison [OF built_column]) (auto simp: operands_in_def intro: built_column)
  have "built_query (SelectQuery (new_select [ColumnNode ''a'' ''x'']) None)"
    by (rule query_select_all [of ?a]) (simp add: select_all_from_def relation_defs)
  then have "built_query (SelectQuery (select_where [ColumnNode ''a'' ''x''] (CteSourceNode ''a'') None) None)"
    by (rule query_from [of _ ?a]) (simp add: query_from_def with_node_def new_select_def)
  then have "built_query (SelectQuery (add_join (JoinNode (CteSourceNode ''b'') (BinaryNode (ColumnNode ''a'' ''x'') ''=''
      (ColumnNode ''b'' ''x'')) ''left'') (select_where [ColumnNode ''a'' ''x''] (CteSourceNode ''a'') None)) None)"
    by (rule query_join [OF _ on, of _ left_join ?b])
      (simp_all add: builder_defs comparison_defs wrappers relation_defs)
  then have "built_query (SelectQuery (SelectNode [ColumnNode ''a'' ''x''] (Some (CteSourceNode ''a''))
     [JoinNode (CteSourceNode ''b'') (BinaryNode (ColumnNode ''a'' ''x'') ''='' (ColumnNode ''b'' ''x'')) ''left'']
     None [] None [] (Some 10) None False [] [] []) None)"
    by (rule query_count [of _ query_limit "PyInt 10"]) (simp_all add: query_limit_def with_node_def)
  from built_queries_sound [OF this] show ?thesis by simp
qed

end
