(* ===== verification/Dml_Builder.thy ===== *)
theory Dml_Builder
  imports Select_Builder
begin

text \<open>
  \<open>relq/dml.py\<close>: the immutable INSERT, UPDATE and DELETE builders.  A query object is its statement
  node, its row decoder and the table it was made for (\<open>_table\<close>).  Keyword arguments and row mappings
  are association lists with distinct keys, in the caller's order, as Python's dictionaries are.
\<close>

section \<open>Payloads, target columns and RETURNING\<close>

type_synonym entries = "(string \<times> operand) list"

fun table_name_of :: "relation \<Rightarrow> string" where
  "table_name_of (Relation (TableSource t) columns) = table_name t"
| "table_name_of (Relation source columns) = reference source"

definition dml_values :: "relation \<Rightarrow> entries \<Rightarrow> (string \<times> py_value node) list result" where
  "dml_values table entries = and_then (checks
     [raise_if (entries = []) (ValueError ''values requires at least one column'' []),
      let unknown = set (map fst entries) - column_names table in
        raise_if (unknown \<noteq> {}) (ValueError ''unknown column(s)'' (table_name_of table # sorted_names unknown))])
     (\<lambda>_. Inr (map (\<lambda>(name, item). (name, operand_node item)) entries))"

definition target_column :: "relation \<Rightarrow> operand \<Rightarrow> string result" where
  "target_column table column = (case column_node column of
       None \<Rightarrow> Inl (TypeError ''target and conflict arguments must be table columns'' [])
     | Some (source, name) \<Rightarrow>
         if source \<noteq> relation_reference table \<or> name \<notin> column_names table
         then Inl (ValueError ''target and conflict columns must belong to the INSERT table'' [])
         else Inr name)"

definition target_column_names :: "relation \<Rightarrow> operand list \<Rightarrow> bool \<Rightarrow> string list result" where
  "target_column_names table columns allow_empty = and_then
     (raise_if (columns = [] \<and> \<not> allow_empty)
       (ValueError ''insert-from-select requires at least one target column'' []))
     (\<lambda>_. and_then (map_results (target_column table) columns)
       (\<lambda>names. and_then (raise_if (length names \<noteq> card (set names))
           (ValueError ''target and conflict columns cannot contain duplicates'' []))
         (\<lambda>_. Inr names)))"

definition returning_nodes :: "py_value node list \<Rightarrow> operand list \<Rightarrow> bool \<Rightarrow> py_value node list result" where
  "returning_nodes existing items named = and_then (checks
     [raise_if (existing \<noteq> []) (ValueError ''returning() can only be specified once'' []),
      raise_if named (TypeError ''returning expressions must be positional'' []),
      raise_if (length items > 8) (ValueError ''returning supports at most eight expressions'' [])])
     (\<lambda>_. map_results (\<lambda>x. case x of
         Literal _ \<Rightarrow> Inl (TypeError ''returning accepts only SQL expressions'' [])
       | Operand e \<Rightarrow> Inr (node_of e)) items)"

definition returning_all_nodes :: "py_value node list \<Rightarrow> relation \<Rightarrow> py_value node list result" where
  "returning_all_nodes existing source = and_then (checks
     [raise_if (existing \<noteq> []) (ValueError ''returning() can only be specified once'' []),
      raise_if (source_columns source = [])
        (ValueError ''returning_all_from requires a relation with declared columns'' [])])
     (\<lambda>_. Inr (map node_of (source_columns source)))"

definition decode_returning :: "py_value node list \<Rightarrow> row_adapter \<Rightarrow> unit result" where
  "decode_returning nodes adapter = raise_if (length nodes \<noteq> arity adapter)
     (ValueError ''does not match RETURNING width'' [model_name adapter])"

section \<open>INSERT\<close>

text \<open>
  \<open>narrowable\<close> says that the object's class is \<open>ConflictUpdateQuery\<close>, the subclass that adds \<open>where\<close>.
  \<open>with_node\<close> keeps the class; the methods that call \<open>new_query(InsertQuery, ...)\<close> do not.
\<close>

datatype insert_query = InsertQuery (insert_of: "py_value insert") (insert_adapter: "row_adapter option")
  (insert_relation: relation) (narrowable: bool)

definition insert_into :: "relation \<Rightarrow> insert_query result" where
  "insert_into table = and_then (table_node table)
     (\<lambda>t. Inr (InsertQuery (InsertNode t None None []) None table False))"

fun set_source where
  "set_source source (InsertNode table _ conflict returning) = InsertNode table (Some source) conflict returning"

fun set_conflict where
  "set_conflict conflict (InsertNode table source _ returning) = InsertNode table source (Some conflict) returning"

fun set_returning where
  "set_returning nodes (InsertNode table source conflict _) = InsertNode table source conflict nodes"

definition insert_with_node :: "insert_query \<Rightarrow> py_value insert \<Rightarrow> insert_query" where
  "insert_with_node self node =
     InsertQuery node (insert_adapter self) (insert_relation self) (narrowable self)"

definition with_source :: "insert_query \<Rightarrow> py_value insert_src \<Rightarrow> insert_query result" where
  "with_source self source = and_then
     (raise_if (insert_source (insert_of self) \<noteq> None)
       (ValueError ''an INSERT source can only be specified once'' []))
     (\<lambda>_. Inr (insert_with_node self (set_source source (insert_of self))))"

definition insert_values_of :: "insert_query \<Rightarrow> entries \<Rightarrow> insert_query result" where
  "insert_values_of self entries = and_then (dml_values (insert_relation self) entries)
     (\<lambda>assigned. with_source self (InsertValuesSourceNode assigned))"

definition values_many :: "insert_query \<Rightarrow> entries list \<Rightarrow> insert_query result" where
  "values_many self rows = and_then (map_results (dml_values (insert_relation self)) rows)
     (\<lambda>prepared. case prepared of
        [] \<Rightarrow> Inl (ValueError ''values_many requires at least one row'' [])
      | first # rest \<Rightarrow> and_then
          (raise_if (\<exists>row \<in> set rest. map fst row \<noteq> map fst first) (ValueError
            ''every values_many row must contain the same columns in the same order'' []))
          (\<lambda>_. with_source self (InsertRowsSourceNode prepared)))"

definition from_select :: "insert_query \<Rightarrow> select_query \<Rightarrow> operand list \<Rightarrow> insert_query result" where
  "from_select self query columns = and_then (target_column_names (insert_relation self) columns False)
     (\<lambda>names. and_then (raise_if (length (selections (select_of query)) \<noteq> length names) (ValueError
         ''insert-from-select requires one target column per projected expression''
         [str_of_nat (length names), str_of_nat (length (selections (select_of query)))]))
       (\<lambda>_. with_source self (InsertSelectSourceNode (select_of query) names)))"

definition default_values :: "insert_query \<Rightarrow> insert_query result" where
  "default_values self = with_source self DefaultValuesSourceNode"

definition insert_returning_of :: "insert_query \<Rightarrow> operand list \<Rightarrow> bool \<Rightarrow> insert_query result" where
  "insert_returning_of self items named = and_then (returning_nodes (insert_returning (insert_of self)) items named)
     (\<lambda>nodes. Inr (InsertQuery (set_returning nodes (insert_of self)) None (insert_relation self) False))"

definition insert_returning_all :: "insert_query \<Rightarrow> relation \<Rightarrow> insert_query result" where
  "insert_returning_all self source = and_then (returning_all_nodes (insert_returning (insert_of self)) source)
     (\<lambda>nodes. Inr (InsertQuery (set_returning nodes (insert_of self)) None (insert_relation self) False))"

definition insert_decode :: "insert_query \<Rightarrow> decode_model \<Rightarrow> insert_query result" where
  "insert_decode self model = and_then (adapter_for model) (\<lambda>adapter. and_then (decode_returning (insert_returning (insert_of self)) adapter)
     (\<lambda>_. Inr (InsertQuery (insert_of self) (Some adapter) (insert_relation self) False)))"

section \<open>ON CONFLICT\<close>

datatype conflict_builder = ConflictBuilder (conflict_query: insert_query)
  (conflict_targets: "string list") (conflict_table: relation) (arbiter: "py_value node option")

definition on_conflict :: "insert_query \<Rightarrow> operand list \<Rightarrow> conflict_builder result" where
  "on_conflict self columns = and_then (case insert_source (insert_of self) of
       None \<Rightarrow> Inl (ValueError ''on_conflict requires values() or from_select() first'' [])
     | Some DefaultValuesSourceNode \<Rightarrow> Inl (ValueError
         ''default-values inserts and conflict clauses are mutually exclusive'' [])
     | Some _ \<Rightarrow> Inr ())
     (\<lambda>_. and_then (target_column_names (insert_relation self) columns True)
       (\<lambda>names. Inr (ConflictBuilder self names (insert_relation self) None)))"

definition conflict_where :: "conflict_builder \<Rightarrow> expr \<Rightarrow> conflict_builder result" where
  "conflict_where self p = and_then (checks
     [raise_if (conflict_targets self = [])
        (ValueError ''ON CONFLICT ... WHERE requires at least one conflict target column'' []),
      raise_if (arbiter self \<noteq> None) (ValueError ''on_conflict().where() can only be specified once'' [])])
     (\<lambda>_. Inr (ConflictBuilder (conflict_query self) (conflict_targets self) (conflict_table self)
       (Some (node_of p))))"

definition do_nothing :: "conflict_builder \<Rightarrow> insert_query" where
  "do_nothing self = insert_with_node (conflict_query self)
     (set_conflict (ConflictNode (conflict_targets self) ''nothing'' [] (arbiter self) None)
       (insert_of (conflict_query self)))"

definition do_update :: "conflict_builder \<Rightarrow> entries \<Rightarrow> insert_query result" where
  "do_update self entries = and_then
     (raise_if (conflict_targets self = [])
       (ValueError ''ON CONFLICT DO UPDATE requires at least one conflict target column'' []))
     (\<lambda>_. and_then (dml_values (conflict_table self) entries)
       (\<lambda>assigned. Inr (InsertQuery
         (set_conflict (ConflictNode (conflict_targets self) ''update'' assigned (arbiter self) None)
           (insert_of (conflict_query self)))
         (insert_adapter (conflict_query self)) (conflict_table self) True)))"

text \<open>\<open>ConflictUpdateQuery.where\<close>; the attribute does not exist on other INSERT queries.\<close>

definition update_only_where :: "insert_query \<Rightarrow> expr \<Rightarrow> insert_query result" where
  "update_only_where self p = (case insert_conflict (insert_of self) of
       None \<Rightarrow> Inl (TypeError ''expected an INSERT carrying a conflict clause'' [])
     | Some (ConflictNode columns action assignments target_where previous) \<Rightarrow> Inr (InsertQuery
         (set_conflict (ConflictNode columns action assignments target_where (Some (node_of p))) (insert_of self))
         (insert_adapter self) (insert_relation self) False))"

section \<open>UPDATE and DELETE\<close>

datatype update_query = UpdateQuery (update_of: "py_value update") (update_adapter: "row_adapter option")
  (update_relation: relation)

datatype delete_query = DeleteQuery (delete_of: "py_value delete") (delete_adapter: "row_adapter option")
  (delete_relation: relation)

definition update_table_of :: "relation \<Rightarrow> update_query result" where
  "update_table_of table = and_then (table_node table)
     (\<lambda>t. Inr (UpdateQuery (UpdateNode t [] None False []) None table))"

definition update_values_of :: "update_query \<Rightarrow> entries \<Rightarrow> update_query result" where
  "update_values_of self entries = (case update_of self of UpdateNode t assigned p bounded returning \<Rightarrow>
     and_then (raise_if (assigned \<noteq> []) (ValueError ''values() can only be specified once'' []))
       (\<lambda>_. and_then (dml_values (update_relation self) entries)
         (\<lambda>assigned'. Inr (UpdateQuery (UpdateNode t assigned' p bounded returning)
           (update_adapter self) (update_relation self)))))"

definition update_where_of :: "update_query \<Rightarrow> expr \<Rightarrow> update_query result" where
  "update_where_of self p = (case update_of self of UpdateNode t assigned earlier bounded returning \<Rightarrow>
     and_then (raise_if (earlier \<noteq> None) (ValueError ''where() can only be specified once'' []))
       (\<lambda>_. Inr (UpdateQuery (UpdateNode t assigned (Some (node_of p)) True returning)
         (update_adapter self) (update_relation self))))"

definition update_all_rows :: "update_query \<Rightarrow> update_query result" where
  "update_all_rows self = (case update_of self of UpdateNode t assigned p bounded returning \<Rightarrow>
     Inr (UpdateQuery (UpdateNode t assigned p True returning) (update_adapter self) (update_relation self)))"

fun update_with_returning where
  "update_with_returning nodes (UpdateNode t assigned p bounded _) = UpdateNode t assigned p bounded nodes"

definition update_returning_of :: "update_query \<Rightarrow> operand list \<Rightarrow> bool \<Rightarrow> update_query result" where
  "update_returning_of self items named = and_then (returning_nodes (update_returning (update_of self)) items named)
     (\<lambda>nodes. Inr (UpdateQuery (update_with_returning nodes (update_of self)) None (update_relation self)))"

definition update_returning_all :: "update_query \<Rightarrow> relation \<Rightarrow> update_query result" where
  "update_returning_all self source = and_then (returning_all_nodes (update_returning (update_of self)) source)
     (\<lambda>nodes. Inr (UpdateQuery (update_with_returning nodes (update_of self)) None (update_relation self)))"

definition update_decode :: "update_query \<Rightarrow> decode_model \<Rightarrow> update_query result" where
  "update_decode self model = and_then (adapter_for model) (\<lambda>adapter. and_then (decode_returning (update_returning (update_of self)) adapter)
     (\<lambda>_. Inr (UpdateQuery (update_of self) (Some adapter) (update_relation self))))"

definition delete_from :: "relation \<Rightarrow> delete_query result" where
  "delete_from table = and_then (table_node table)
     (\<lambda>t. Inr (DeleteQuery (DeleteNode t None False []) None table))"

definition delete_where_of :: "delete_query \<Rightarrow> expr \<Rightarrow> delete_query result" where
  "delete_where_of self p = (case delete_of self of DeleteNode t earlier bounded returning \<Rightarrow>
     and_then (raise_if (earlier \<noteq> None) (ValueError ''where() can only be specified once'' []))
       (\<lambda>_. Inr (DeleteQuery (DeleteNode t (Some (node_of p)) True returning)
         (delete_adapter self) (delete_relation self))))"

definition delete_all_rows :: "delete_query \<Rightarrow> delete_query result" where
  "delete_all_rows self = (case delete_of self of DeleteNode t p bounded returning \<Rightarrow>
     Inr (DeleteQuery (DeleteNode t p True returning) (delete_adapter self) (delete_relation self)))"

fun delete_with_returning where
  "delete_with_returning nodes (DeleteNode t p bounded _) = DeleteNode t p bounded nodes"

definition delete_returning_of :: "delete_query \<Rightarrow> operand list \<Rightarrow> bool \<Rightarrow> delete_query result" where
  "delete_returning_of self items named = and_then (returning_nodes (delete_returning (delete_of self)) items named)
     (\<lambda>nodes. Inr (DeleteQuery (delete_with_returning nodes (delete_of self)) None (delete_relation self)))"

definition delete_returning_all :: "delete_query \<Rightarrow> relation \<Rightarrow> delete_query result" where
  "delete_returning_all self source = and_then (returning_all_nodes (delete_returning (delete_of self)) source)
     (\<lambda>nodes. Inr (DeleteQuery (delete_with_returning nodes (delete_of self)) None (delete_relation self)))"

definition delete_decode :: "delete_query \<Rightarrow> decode_model \<Rightarrow> delete_query result" where
  "delete_decode self model = and_then (adapter_for model) (\<lambda>adapter. and_then (decode_returning (delete_returning (delete_of self)) adapter)
     (\<lambda>_. Inr (DeleteQuery (delete_of self) (Some adapter) (delete_relation self))))"

lemmas insert_defs = insert_into_def insert_with_node_def with_source_def insert_values_of_def
  values_many_def from_select_def default_values_def insert_returning_of_def insert_returning_all_def
  insert_decode_def on_conflict_def conflict_where_def do_nothing_def do_update_def update_only_where_def

lemmas update_defs = update_table_of_def update_values_of_def update_where_of_def update_all_rows_def
  update_returning_of_def update_returning_all_def update_decode_def

lemmas delete_defs = delete_from_def delete_where_of_def delete_all_rows_def delete_returning_of_def
  delete_returning_all_def delete_decode_def

section \<open>Target columns\<close>

lemma length_card_iff: "length xs = card (set xs) \<longleftrightarrow> distinct xs"
  by (metis card_distinct distinct_card)

lemma dml_values_ok: "dml_values table entries = Inr assigned \<longleftrightarrow>
    entries \<noteq> [] \<and> set (map fst entries) \<subseteq> column_names table
    \<and> assigned = map (\<lambda>(name, item). (name, operand_node item)) entries"
  by (auto simp: dml_values_def and_then_ok checks_ok Let_def)

lemma target_columns_all: "map_results (target_column table) columns = Inr names \<longleftrightarrow>
    map column_node columns = map (\<lambda>name. Some (relation_reference table, name)) names
    \<and> set names \<subseteq> column_names table"
proof -
  have step: "target_column table c = Inr n \<longleftrightarrow>
      column_node c = Some (relation_reference table, n) \<and> n \<in> column_names table" for c n
    by (auto simp: target_column_def split: option.splits)
  show ?thesis by (induction columns arbitrary: names) (auto simp: and_then_ok step)
qed

lemma target_columns_sound:
  assumes "target_column_names table columns allow_empty = Inr names"
  shows "distinct names" "set names \<subseteq> column_names table" "length names = length columns"
    "columns \<noteq> [] \<or> allow_empty"
  using assms by (auto simp: target_column_names_def and_then_ok target_columns_all length_card_iff
    dest: map_eq_imp_length_eq)

lemma map_results_mem:
  assumes "map_results f xs = Inr ys" "y \<in> set ys"
  shows "\<exists>x \<in> set xs. f x = Inr y"
  using assms by (induction xs arbitrary: ys) (auto simp: and_then_ok)

text \<open>
  The target columns of an INSERT are accepted exactly when each is a column of the INSERT's own
  table, by the reference and the declared names of that table, and no column occurs twice.
\<close>

theorem target_columns_exact:
  "target_column_names table columns allow_empty = Inr names \<longleftrightarrow>
     (columns \<noteq> [] \<or> allow_empty)
     \<and> map column_node columns = map (\<lambda>name. Some (relation_reference table, name)) names
     \<and> set names \<subseteq> column_names table \<and> distinct names"
  by (auto simp: target_column_names_def and_then_ok target_columns_all length_card_iff)

section \<open>What every built INSERT satisfies\<close>

inductive built_insert :: "insert_query \<Rightarrow> bool" and built_conflict :: "conflict_builder \<Rightarrow> bool" where
  insert_start: "insert_into table = Inr q \<Longrightarrow> built_insert q"
| insert_values: "built_insert q \<Longrightarrow> insert_values_of q given = Inr q' \<Longrightarrow> built_insert q'"
| insert_many: "built_insert q \<Longrightarrow> values_many q rows = Inr q' \<Longrightarrow> built_insert q'"
| insert_select: "built_insert q \<Longrightarrow> from_select q query columns = Inr q' \<Longrightarrow> built_insert q'"
| insert_default: "built_insert q \<Longrightarrow> default_values q = Inr q' \<Longrightarrow> built_insert q'"
| insert_returning: "built_insert q \<Longrightarrow> insert_returning_of q items named = Inr q' \<Longrightarrow> built_insert q'"
| insert_return_all: "built_insert q \<Longrightarrow> insert_returning_all q source = Inr q' \<Longrightarrow> built_insert q'"
| insert_decoded: "built_insert q \<Longrightarrow> insert_decode q model = Inr q' \<Longrightarrow> built_insert q'"
| insert_nothing: "built_conflict b \<Longrightarrow> built_insert (do_nothing b)"
| insert_update: "built_conflict b \<Longrightarrow> do_update b given = Inr q' \<Longrightarrow> built_insert q'"
| insert_narrowed: "built_insert q \<Longrightarrow> narrowable q \<Longrightarrow> update_only_where q p = Inr q' \<Longrightarrow> built_insert q'"
| conflict_start: "built_insert q \<Longrightarrow> on_conflict q columns = Inr b \<Longrightarrow> built_conflict b"
| conflict_narrowed: "built_conflict b \<Longrightarrow> conflict_where b p = Inr b' \<Longrightarrow> built_conflict b'"

fun sound_source :: "string set \<Rightarrow> py_value insert_src \<Rightarrow> bool" where
  "sound_source names (InsertValuesSourceNode assigned) \<longleftrightarrow>
     assigned \<noteq> [] \<and> set (map fst assigned) \<subseteq> names"
| "sound_source names (InsertRowsSourceNode rows) \<longleftrightarrow>
     rows \<noteq> [] \<and> (\<forall>row \<in> set rows. row \<noteq> [] \<and> map fst row = map fst (hd rows) \<and> set (map fst row) \<subseteq> names)"
| "sound_source names (InsertSelectSourceNode query columns) \<longleftrightarrow>
     columns \<noteq> [] \<and> distinct columns \<and> set columns \<subseteq> names \<and> length (selections query) = length columns"
| "sound_source names DefaultValuesSourceNode = True"

definition sound_conflict :: "string set \<Rightarrow> py_value node conflict_node \<Rightarrow> bool" where
  "sound_conflict names c \<longleftrightarrow>
     conflict_action c \<in> {''nothing'', ''update''}
     \<and> (conflict_action c = ''update'' \<longleftrightarrow> conflict_update_values c \<noteq> [])
     \<and> (conflict_target_where c \<noteq> None \<or> conflict_action c = ''update'' \<longrightarrow> conflict_columns c \<noteq> [])
     \<and> distinct (conflict_columns c) \<and> set (conflict_columns c) \<subseteq> names
     \<and> set (map fst (conflict_update_values c)) \<subseteq> names"

definition sound_insert :: "insert_query \<Rightarrow> bool" where
  "sound_insert q \<longleftrightarrow>
     (\<exists>columns. insert_relation q = Relation (TableSource (insert_table (insert_of q))) columns)
     \<and> (\<forall>source \<in> set_option (insert_source (insert_of q)).
          sound_source (column_names (insert_relation q)) source)
     \<and> (\<forall>c \<in> set_option (insert_conflict (insert_of q)).
          insert_source (insert_of q) \<notin> {None, Some DefaultValuesSourceNode}
          \<and> sound_conflict (column_names (insert_relation q)) c)"

lemma sound_with_source:
  assumes "sound_insert q" "with_source q source = Inr q'"
    and "sound_source (column_names (insert_relation q)) source"
  shows "sound_insert q'"
  using assms by (cases "insert_of q")
    (auto simp: with_source_def insert_with_node_def sound_insert_def and_then_ok)

lemma sound_set_returning:
  "sound_insert q \<Longrightarrow> sound_insert (InsertQuery (set_returning nodes (insert_of q)) a (insert_relation q) f)"
  by (cases "insert_of q") (simp add: sound_insert_def)

lemma sound_set_adapter: "sound_insert q \<Longrightarrow> sound_insert (InsertQuery (insert_of q) a (insert_relation q) f)"
  by (simp add: sound_insert_def)

lemma sound_set_conflict:
  assumes "sound_insert q" "insert_source (insert_of q) \<notin> {None, Some DefaultValuesSourceNode}"
    and "sound_conflict (column_names (insert_relation q)) c"
  shows "sound_insert (InsertQuery (set_conflict c (insert_of q)) a (insert_relation q) f)"
  using assms by (cases "insert_of q") (simp add: sound_insert_def)

lemma sound_values:
  "dml_values table given = Inr assigned \<Longrightarrow> assigned \<noteq> [] \<and> set (map fst assigned) \<subseteq> column_names table"
  by (auto simp: dml_values_ok)

lemma sound_rows:
  assumes "map_results (dml_values table) rows = Inr (first # rest)"
    and "\<forall>row \<in> set rest. map fst row = map fst first"
  shows "sound_source (column_names table) (InsertRowsSourceNode (first # rest))"
proof -
  have "row \<noteq> [] \<and> set (map fst row) \<subseteq> column_names table" if "row \<in> set (first # rest)" for row
    using map_results_mem [OF assms(1) that] sound_values by blast
  with assms(2) show ?thesis by auto
qed

lemma on_conflict_ok:
  assumes "on_conflict q columns = Inr b"
  shows "conflict_query b = q" "conflict_table b = insert_relation q" "arbiter b = None"
    "insert_source (insert_of q) \<notin> {None, Some DefaultValuesSourceNode}"
    "distinct (conflict_targets b)" "set (conflict_targets b) \<subseteq> column_names (insert_relation q)"
  using assms by (auto simp: on_conflict_def and_then_ok dest: target_columns_sound(1) subsetD [OF target_columns_sound(2)]
    split: option.splits insert_source.splits)

definition sound_builder :: "conflict_builder \<Rightarrow> bool" where
  "sound_builder b \<longleftrightarrow> sound_insert (conflict_query b)
     \<and> insert_source (insert_of (conflict_query b)) \<notin> {None, Some DefaultValuesSourceNode}
     \<and> conflict_table b = insert_relation (conflict_query b)
     \<and> distinct (conflict_targets b) \<and> set (conflict_targets b) \<subseteq> column_names (conflict_table b)
     \<and> (arbiter b \<noteq> None \<longrightarrow> conflict_targets b \<noteq> [])"

lemma sound_actions:
  "sound_builder b \<Longrightarrow> sound_insert (do_nothing b)"
  "sound_builder b \<Longrightarrow> do_update b given = Inr q \<Longrightarrow> sound_insert q"
  "sound_builder b \<Longrightarrow> conflict_where b p = Inr b' \<Longrightarrow> sound_builder b'"
  by (auto simp: sound_builder_def do_nothing_def insert_with_node_def do_update_def conflict_where_def
    and_then_ok checks_ok sound_conflict_def dest: sound_values intro!: sound_set_conflict)

lemma sound_narrowed:
  assumes "sound_insert q" "update_only_where q p = Inr q'"
  shows "sound_insert q'"
  using assms by (auto simp: update_only_where_def split: option.splits conflict_node.splits
    intro!: sound_set_conflict) (auto simp: sound_insert_def sound_conflict_def)

lemma sound_from_select:
  assumes "target_column_names table columns False = Inr names" "length (selections s) = length names"
  shows "sound_source (column_names table) (InsertSelectSourceNode s names)"
  using assms target_columns_sound [OF assms(1)] by auto



section \<open>Bounded changes\<close>

text \<open>The calls a program makes on an UPDATE it started, and on a DELETE.\<close>

datatype update_call =
    UpdateValues entries
  | UpdateWhere expr
  | UpdateAllRows
  | UpdateReturning "operand list" bool
  | UpdateReturningAll relation
  | UpdateDecode decode_model

fun update_step :: "update_call \<Rightarrow> update_query \<Rightarrow> update_query result" where
  "update_step (UpdateValues given) q = update_values_of q given"
| "update_step (UpdateWhere p) q = update_where_of q p"
| "update_step UpdateAllRows q = update_all_rows q"
| "update_step (UpdateReturning items named) q = update_returning_of q items named"
| "update_step (UpdateReturningAll source) q = update_returning_all q source"
| "update_step (UpdateDecode model) q = update_decode q model"

datatype delete_call =
    DeleteWhere expr
  | DeleteAllRows
  | DeleteReturning "operand list" bool
  | DeleteReturningAll relation
  | DeleteDecode decode_model

fun delete_step :: "delete_call \<Rightarrow> delete_query \<Rightarrow> delete_query result" where
  "delete_step (DeleteWhere p) q = delete_where_of q p"
| "delete_step DeleteAllRows q = delete_all_rows q"
| "delete_step (DeleteReturning items named) q = delete_returning_of q items named"
| "delete_step (DeleteReturningAll source) q = delete_returning_all q source"
| "delete_step (DeleteDecode model) q = delete_decode q model"

fun run_calls :: "('c \<Rightarrow> 'q \<Rightarrow> 'q result) \<Rightarrow> 'c list \<Rightarrow> 'q \<Rightarrow> 'q result" where
  "run_calls step [] q = Inr q"
| "run_calls step (c # cs) q = and_then (step c q) (run_calls step cs)"

text \<open>What a WHERE was last set to, and whether the call authorizes the change.\<close>

fun update_bound :: "update_call \<Rightarrow> bool" where
  "update_bound (UpdateWhere p) = True"
| "update_bound UpdateAllRows = True"
| "update_bound _ = False"

fun delete_bound :: "delete_call \<Rightarrow> bool" where
  "delete_bound (DeleteWhere p) = True"
| "delete_bound DeleteAllRows = True"
| "delete_bound _ = False"

lemma update_step_bounded:
  assumes "update_step c q = Inr q'"
  shows "update_bounded (update_of q') \<longleftrightarrow> update_bounded (update_of q) \<or> update_bound c"
    "set_option (update_where (update_of q')) =
       set_option (update_where (update_of q)) \<union> {node_of p | p. c = UpdateWhere p}"
  using assms by (cases c; cases "update_of q"; auto simp: update_defs and_then_ok)+

lemma update_run_bounded:
  "run_calls update_step cs q = Inr q' \<Longrightarrow>
     (update_bounded (update_of q') \<longleftrightarrow> update_bounded (update_of q) \<or> (\<exists>c \<in> set cs. update_bound c))
     \<and> set_option (update_where (update_of q')) =
         set_option (update_where (update_of q)) \<union> {node_of p | p. UpdateWhere p \<in> set cs}"
proof (induction cs arbitrary: q)
  case (Cons c cs)
  then obtain q1 where "update_step c q = Inr q1" "run_calls update_step cs q1 = Inr q'"
    by (auto simp: and_then_ok)
  with Cons.IH [of q1] update_step_bounded [of c q q1] show ?case by auto
qed simp

lemma delete_step_bounded:
  assumes "delete_step c q = Inr q'"
  shows "delete_bounded (delete_of q') \<longleftrightarrow> delete_bounded (delete_of q) \<or> delete_bound c"
    "set_option (delete_where (delete_of q')) =
       set_option (delete_where (delete_of q)) \<union> {node_of p | p. c = DeleteWhere p}"
  using assms by (cases c; cases "delete_of q"; auto simp: delete_defs and_then_ok)+

lemma delete_run_bounded:
  "run_calls delete_step cs q = Inr q' \<Longrightarrow>
     (delete_bounded (delete_of q') \<longleftrightarrow> delete_bounded (delete_of q) \<or> (\<exists>c \<in> set cs. delete_bound c))
     \<and> set_option (delete_where (delete_of q')) =
         set_option (delete_where (delete_of q)) \<union> {node_of p | p. DeleteWhere p \<in> set cs}"
proof (induction cs arbitrary: q)
  case (Cons c cs)
  then obtain q1 where "delete_step c q = Inr q1" "run_calls delete_step cs q1 = Inr q'"
    by (auto simp: and_then_ok)
  with Cons.IH [of q1] delete_step_bounded [of c q q1] show ?case by auto
qed simp

lemma compiled_bounded:
  "compile (DmlQ (UpdateDml u)) d = Inr r \<Longrightarrow> update_bounded u"
  "compile (DmlQ (DeleteDml e)) d = Inr r \<Longrightarrow> delete_bounded e"
  by (auto simp: compile_def and_then_ok validate_query_def checks_ok)

text \<open>
  C24.  From the first call to the compiled statement: an UPDATE or DELETE that compiles was given a
  \<open>where()\<close> or an explicit \<open>all_rows()\<close>, and one that was not given \<open>all_rows()\<close> carries the predicate
  of its \<open>where()\<close>.  No order of the other calls loses the predicate.
\<close>

theorem changes_need_authorization:
  assumes "run_calls update_step ucalls u = Inr u'" "update_table_of table = Inr u"
    and "compile (DmlQ (UpdateDml (update_of u'))) d = Inr ur"
    and "run_calls delete_step dcalls e = Inr e'" "delete_from table = Inr e"
    and "compile (DmlQ (DeleteDml (delete_of e'))) d = Inr er"
  shows "(UpdateAllRows \<in> set ucalls \<or> (\<exists>p. UpdateWhere p \<in> set ucalls \<and> update_where (update_of u') = Some (node_of p)))
    \<and> (DeleteAllRows \<in> set dcalls \<or> (\<exists>p. DeleteWhere p \<in> set dcalls \<and> delete_where (delete_of e') = Some (node_of p)))"
proof -
  from assms(2,5) have start: "\<not> update_bounded (update_of u)" "update_where (update_of u) = None"
      "\<not> delete_bounded (delete_of e)" "delete_where (delete_of e) = None"
    by (auto simp: update_table_of_def delete_from_def and_then_ok)
  have "\<exists>c \<in> set ucalls. update_bound c"
    using update_run_bounded [OF assms(1)] compiled_bounded(1) [OF assms(3)] start by auto
  then have u: "UpdateAllRows \<in> set ucalls \<or> (\<exists>p. UpdateWhere p \<in> set ucalls)"
    by (metis update_bound.elims(2))
  have "\<exists>c \<in> set dcalls. delete_bound c"
    using delete_run_bounded [OF assms(4)] compiled_bounded(2) [OF assms(6)] start by auto
  then have e: "DeleteAllRows \<in> set dcalls \<or> (\<exists>p. DeleteWhere p \<in> set dcalls)"
    by (metis delete_bound.elims(2))
  have "update_where (update_of u') \<in> {Some (node_of p) | p. UpdateWhere p \<in> set ucalls}"
    if "UpdateWhere p \<in> set ucalls" for p
    using update_run_bounded [OF assms(1)] start that by (cases "update_where (update_of u')") auto
  moreover have "delete_where (delete_of e') \<in> {Some (node_of p) | p. DeleteWhere p \<in> set dcalls}"
    if "DeleteWhere p \<in> set dcalls" for p
    using delete_run_bounded [OF assms(4)] start that by (cases "delete_where (delete_of e')") auto
  ultimately show ?thesis using u e by auto
qed

theorem changes_need_authorization_witness:
  "(let p = expr_eq (expression (ColumnNode ''t'' ''a'')) (Literal (PyInt 2)) in
     UpdateAllRows \<in> set [UpdateValues [(''a'', Literal (PyInt 1))], UpdateWhere p]
     \<or> (\<exists>p'. UpdateWhere p' \<in> set [UpdateValues [(''a'', Literal (PyInt 1))], UpdateWhere p]
          \<and> Some (node_of p) = Some (node_of p')))"
proof -
  let ?t = "TableSourceNode ''t'' None None"
  let ?table = "Relation (TableSource ?t) [(''a'', ''a'')]"
  let ?p = "expr_eq (expression (ColumnNode ''t'' ''a'')) (Literal (PyInt 2))"
  let ?u = "UpdateNode ?t [(''a'', ValueNode (PyInt 1))] (Some (node_of ?p)) True []"
  let ?e = "DeleteNode ?t None True []"
  have uc: "run_calls update_step [UpdateValues [(''a'', Literal (PyInt 1))], UpdateWhere ?p]
      (UpdateQuery (UpdateNode ?t [] None False []) None ?table) = Inr (UpdateQuery ?u None ?table)"
    by (simp add: update_defs dml_values_def checks_ok column_names_def checks.simps)
  have us: "update_table_of ?table = Inr (UpdateQuery (UpdateNode ?t [] None False []) None ?table)"
    by (simp add: update_defs)
  have ucc: "compile (DmlQ (UpdateDml (update_of (UpdateQuery ?u None ?table)))) sqlite
      = Inr \<lparr>sql = ''update \"t\" set \"a\" = ? where (\"t\".\"a\" = ?)'', parameters = [PyInt 1, PyInt 2]\<rparr>"
    by (simp add: py_eval checks.simps comparison_defs wrappers)
  have ec: "run_calls delete_step [DeleteAllRows] (DeleteQuery (DeleteNode ?t None False []) None ?table)
      = Inr (DeleteQuery ?e None ?table)"
    by (simp add: delete_defs)
  have es: "delete_from ?table = Inr (DeleteQuery (DeleteNode ?t None False []) None ?table)"
    by (simp add: delete_defs)
  have ecc: "compile (DmlQ (DeleteDml (delete_of (DeleteQuery ?e None ?table)))) sqlite
      = Inr \<lparr>sql = ''delete from \"t\"'', parameters = []\<rparr>"
    by (simp add: py_eval checks.simps)
  show ?thesis
    using changes_need_authorization [OF uc us ucc ec es ecc] by (simp add: Let_def)
qed

theorem target_columns_exact_witness:
  "target_column_names (Relation (TableSource (TableSourceNode ''t'' None None)) [(''a'', ''a'')])
     [Operand (get_column (Relation (TableSource (TableSourceNode ''t'' None None)) [(''a'', ''a'')]) ''a'')] False
   = Inr [''a'']"
  by (subst target_columns_exact) (simp add: relation_defs)

end
