(* ===== verification/Batching.thy ===== *)
theory Batching
  imports Dml_Builder
begin

text \<open>
  \<open>relq/_batching.py\<close>: splitting a stream of rows into INSERT statements that fit a parameter limit.
  \<open>batch_rows\<close> is a generator; \<open>batch_loop\<close> returns what a consumer that exhausts it sees: the
  statements yielded, in order, and the exception it ends with, if any.  The loop is over the type of
  the rows and of the statements, so that its contract with the \<open>statement\<close> callback can be stated as
  a locale and then proved of the callbacks programs pass: a chain of INSERT builder calls.
\<close>

section \<open>The cost of rows and statements\<close>

definition cell_parameters :: "operand \<Rightarrow> dialect \<Rightarrow> nat result" where
  "cell_parameters cell d = (case cell of
       Operand e \<Rightarrow> count_parameters (Inl (node_of e)) d
     | Literal _ \<Rightarrow> Inr 1)"

definition row_parameters :: "entries \<Rightarrow> dialect \<Rightarrow> nat result" where
  "row_parameters row d = and_then
     (raise_if (row = []) (ValueError ''a row must contain at least one column'' []))
     (\<lambda>_. and_then (map_results (\<lambda>(name, cell). cell_parameters cell d) row) (\<lambda>costs. Inr (sum_list costs)))"

definition statement_parameters :: "insert_query \<Rightarrow> dialect \<Rightarrow> nat result" where
  "statement_parameters q d = count_parameters (Inr (DmlQ (InsertDml (insert_of q)))) d"

definition fixed_parameters :: "dialect \<Rightarrow> insert_query \<Rightarrow> nat \<Rightarrow> int result" where
  "fixed_parameters d q row_cost =
     (if \<not> (case insert_source (insert_of q) of Some (InsertRowsSourceNode rows) \<Rightarrow> length rows = 1 | _ \<Rightarrow> False)
      then Inl (TypeError ''the statement must insert exactly the rows it is given with values_many'' [])
      else and_then (statement_parameters q d) (\<lambda>n. Inr (int n - int row_cost)))"

section \<open>The loop\<close>

text \<open>\<open>yield statement(batch)\<close>: the statement, then what follows; an exception ends the generator.\<close>

definition yield_then :: "'s result \<Rightarrow> 's list \<times> exn option \<Rightarrow> 's list \<times> exn option" where
  "yield_then r rest = (case r of Inl e \<Rightarrow> ([], Some e) | Inr s \<Rightarrow> (s # fst rest, snd rest))"

definition over_ceiling :: "int \<Rightarrow> int \<Rightarrow> exn" where
  "over_ceiling needed limit = ValueError ''a statement of one row needs more parameters than the statement ceiling''
     [str_of_int needed, str_of_int limit]"

fun batch_loop :: "('r list \<Rightarrow> 's result) \<Rightarrow> ('r \<Rightarrow> nat result) \<Rightarrow> ('s \<Rightarrow> nat \<Rightarrow> int result) \<Rightarrow> int \<Rightarrow>
    'r list \<Rightarrow> 'r list \<Rightarrow> int option \<Rightarrow> int \<Rightarrow> 's list \<times> exn option" where
  "batch_loop statement cost fixed_of limit [] batch fixed used =
     (if batch = [] then ([], None) else yield_then (statement batch) ([], None))"
| "batch_loop statement cost fixed_of limit (row # rest) batch fixed used = (case cost row of
       Inl e \<Rightarrow> ([], Some e)
     | Inr c \<Rightarrow> (case (case fixed of
           Some f \<Rightarrow> Inr (f, used)
         | None \<Rightarrow> and_then (statement [row]) (\<lambda>s. and_then (fixed_of s c) (\<lambda>f. Inr (f, f)))) of
             Inl e \<Rightarrow> ([], Some e)
           | Inr (f, u) \<Rightarrow>
               if f + int c > limit then ([], Some (over_ceiling (f + int c) limit))
               else if u + int c > limit
               then yield_then (statement batch)
                 (batch_loop statement cost fixed_of limit rest [row] (Some f) (f + int c))
               else batch_loop statement cost fixed_of limit rest (batch @ [row]) (Some f) (u + int c)))"

definition batch_rows ::
  "entries list \<Rightarrow> (entries list \<Rightarrow> insert_query result) \<Rightarrow> dialect \<Rightarrow> int \<Rightarrow> insert_query list \<times> exn option" where
  "batch_rows rows statement d limit =
     batch_loop statement (\<lambda>row. row_parameters row d) (fixed_parameters d) limit rows [] None 0"

section \<open>The contract of the callback\<close>

text \<open>The cost of a batch of rows whose costs are known.\<close>

definition cost_of :: "('r \<Rightarrow> nat result) \<Rightarrow> 'r \<Rightarrow> nat" where
  "cost_of cost r = (case cost r of Inr c \<Rightarrow> c | Inl _ \<Rightarrow> 0)"

definition batch_cost :: "('r \<Rightarrow> nat result) \<Rightarrow> 'r list \<Rightarrow> nat" where
  "batch_cost cost b = sum_list (map (cost_of cost) b)"

text \<open>No batch has room for the first row of the next one.\<close>

fun greedy :: "('r \<Rightarrow> nat result) \<Rightarrow> nat \<Rightarrow> int \<Rightarrow> 'r list list \<Rightarrow> bool" where
  "greedy cost fixed limit (b # b' # bs) \<longleftrightarrow>
     limit < int (fixed + batch_cost cost b + cost_of cost (hd b')) \<and> greedy cost fixed limit (b' # bs)"
| "greedy cost fixed limit _ = True"

lemma list_all2_partner: "list_all2 P xs ys \<Longrightarrow> y \<in> set ys \<Longrightarrow> \<exists>x \<in> set xs. P x y"
  by (induction rule: list_all2_induct) auto

lemma yield_then_done: "yield_then r rest = (ss, None) \<longleftrightarrow> (\<exists>s ss'. r = Inr s \<and> rest = (ss', None) \<and> ss = s # ss')"
  by (cases rest) (auto simp: yield_then_def split: sum.splits)

lemma batch_cost_simps [simp]:
  "batch_cost cost [] = 0" "batch_cost cost (b @ [r]) = batch_cost cost b + cost_of cost r"
  "batch_cost cost [r] = cost_of cost r"
  by (simp_all add: batch_cost_def)

text \<open>
  What \<open>batch_rows\<close> needs of the statements its callback makes: each binds a fixed number of
  parameters beside those of its rows, and \<open>fixed_of\<close> measures that number on a one-row statement.
  \<open>good\<close> are the rows whose expressions can be rendered on their own.
\<close>

locale statement_cost =
  fixes statement :: "'r list \<Rightarrow> 's result"
    and cost :: "'r \<Rightarrow> nat result"
    and fixed_of :: "'s \<Rightarrow> nat \<Rightarrow> int result"
    and total :: "'s \<Rightarrow> nat result"
    and base :: "nat result"
    and good :: "'r \<Rightarrow> bool"
  assumes total_rows: "rows \<noteq> [] \<Longrightarrow> (\<And>r. r \<in> set rows \<Longrightarrow> good r \<and> succeeds (cost r)) \<Longrightarrow>
      statement rows = Inr s \<Longrightarrow> total s = map_sum id (\<lambda>n. n + batch_cost cost rows) base"
    and fixed_row: "good r \<Longrightarrow> cost r = Inr c \<Longrightarrow> statement [r] = Inr s \<Longrightarrow> fixed_of s c = map_sum id int base"
begin

lemma loop_sound:
  assumes "\<And>r. r \<in> set (batch @ rows) \<Longrightarrow> good r" "\<And>r. r \<in> set batch \<Longrightarrow> succeeds (cost r)"
    and "used = int (fixed + batch_cost cost batch)" "batch \<noteq> [] \<Longrightarrow> used \<le> limit"
    and "batch_loop statement cost fixed_of limit rows batch (Some (int fixed)) used = (ss, None)"
  shows "\<exists>bs. concat bs = batch @ rows \<and> list_all2 (\<lambda>b s. statement b = Inr s) bs ss
    \<and> (\<forall>b \<in> set bs. b \<noteq> [] \<and> int (fixed + batch_cost cost b) \<le> limit \<and> (\<forall>r \<in> set b. succeeds (cost r)))
    \<and> greedy cost fixed limit bs \<and> (batch \<noteq> [] \<longrightarrow> (\<exists>x bs'. bs = (batch @ x) # bs'))"
  using assms
proof (induction rows arbitrary: batch used ss)
  case Nil
  show ?case
  proof (cases "batch = []")
    case True
    with Nil show ?thesis by (intro exI [of _ "[]"]) simp
  next
    case False
    with Nil show ?thesis
      by (intro exI [of _ "[batch]"]) (auto simp: yield_then_def split: sum.splits)
  qed
next
  case (Cons row rest)
  from Cons.prems(5) obtain c where c: "cost row = Inr c" by (auto split: sum.splits)
  then have co: "cost_of cost row = c" by (simp add: cost_of_def)
  from Cons.prems(5) c have fits: "int (fixed + c) \<le> limit" by (auto split: if_splits)
  show ?case
  proof (cases "used + int c > limit")
    case True
    with Cons.prems(5) c fits obtain s ss' where s: "statement batch = Inr s" "ss = s # ss'"
        "batch_loop statement cost fixed_of limit rest [row] (Some (int fixed)) (int fixed + int c) = (ss', None)"
      by (auto simp: yield_then_done)
    have "batch \<noteq> []" using True Cons.prems(3) fits by auto
    obtain bs where bs: "concat bs = row # rest" "list_all2 (\<lambda>b s. statement b = Inr s) bs ss'"
        "\<forall>b \<in> set bs. b \<noteq> [] \<and> int (fixed + batch_cost cost b) \<le> limit \<and> (\<forall>r \<in> set b. succeeds (cost r))"
        "greedy cost fixed limit bs" "\<exists>x bs'. bs = ([row] @ x) # bs'"
      using Cons.IH [OF _ _ _ _ s(3)] Cons.prems(1) c co fits by auto
    from bs(5) obtain x bs' where shape: "bs = (row # x) # bs'" by auto
    show ?thesis
      using s bs \<open>batch \<noteq> []\<close> Cons.prems(2-4) True shape co
      by (intro exI [of _ "batch # bs"]) auto
  next
    case False
    with Cons.prems(5) c fits
    have "batch_loop statement cost fixed_of limit rest (batch @ [row]) (Some (int fixed)) (used + int c) = (ss, None)"
      by (auto split: if_splits)
    moreover have "succeeds (cost r)" if "r \<in> set (batch @ [row])" for r
      using that Cons.prems(2) c by auto
    ultimately obtain bs where "concat bs = (batch @ [row]) @ rest" "list_all2 (\<lambda>b s. statement b = Inr s) bs ss"
        "\<forall>b \<in> set bs. b \<noteq> [] \<and> int (fixed + batch_cost cost b) \<le> limit \<and> (\<forall>r \<in> set b. succeeds (cost r))"
        "greedy cost fixed limit bs" "\<exists>x bs'. bs = ((batch @ [row]) @ x) # bs'"
      using Cons.IH [of "batch @ [row]" "used + int c" ss] Cons.prems(1,3) co False by auto
    then show ?thesis by (intro exI [of _ bs]) auto
  qed
qed

text \<open>
  What an exhausted \<open>batch_rows\<close> has yielded: consecutive batches that make up the rows, none empty,
  each within the limit with everything its statement binds, and none with room for one row more.
\<close>

lemma batches_sound:
  assumes "\<And>r. r \<in> set rows \<Longrightarrow> good r"
    and "batch_loop statement cost fixed_of limit rows [] None used = (ss, None)"
  shows "\<exists>bs fixed. concat bs = rows \<and> list_all2 (\<lambda>b s. statement b = Inr s) bs ss \<and> [] \<notin> set bs
    \<and> (\<forall>s \<in> set ss. \<exists>n. total s = Inr n \<and> int n \<le> limit) \<and> greedy cost fixed limit bs
    \<and> (rows \<noteq> [] \<longrightarrow> base = Inr fixed)"
proof (cases rows)
  case Nil
  with assms show ?thesis by (intro exI [of _ "[]"]) auto
next
  case (Cons row rest)
  from assms(2) Cons obtain c where c: "cost row = Inr c" by (auto split: sum.splits)
  with assms(2) Cons obtain s f where s: "statement [row] = Inr s" "fixed_of s c = Inr f"
    by (auto simp: and_then_def split: sum.splits)
  have "good row" using assms(1) Cons by simp
  with fixed_row [OF this c s(1)] s(2) obtain fixed where fixed: "base = Inr fixed" "f = int fixed"
    by (cases base) auto
  have "batch_loop statement cost fixed_of limit rows [] (Some (int fixed)) (int fixed) = (ss, None)"
    using assms(2) Cons c s fixed by simp
  from loop_sound [OF _ _ _ _ this] assms(1)
  obtain bs where bs: "concat bs = rows" "list_all2 (\<lambda>b s. statement b = Inr s) bs ss"
      "\<forall>b \<in> set bs. b \<noteq> [] \<and> int (fixed + batch_cost cost b) \<le> limit \<and> (\<forall>r \<in> set b. succeeds (cost r))"
      "greedy cost fixed limit bs" by auto
  have "\<exists>n. total s = Inr n \<and> int n \<le> limit" if "s \<in> set ss" for s
  proof -
    from list_all2_partner [OF bs(2) that] obtain b where b: "b \<in> set bs" "statement b = Inr s" by blast
    have "set b \<subseteq> set rows" using b(1) bs(1) by auto
    with b(1) bs(3) assms(1) have "b \<noteq> []" "\<And>r. r \<in> set b \<Longrightarrow> good r \<and> succeeds (cost r)" by blast+
    from total_rows [OF this b(2)] fixed(1) b(1) bs(3) show ?thesis by auto
  qed
  with bs fixed(1) show ?thesis by blast
qed

end

section \<open>Statements made with \<open>values_many\<close>\<close>

text \<open>What several renderers bind, one after the other.\<close>

fun flat :: "py_value list result list \<Rightarrow> py_value list result" where
  "flat [] = Inr []"
| "flat (r # rs) = and_then r (\<lambda>xs. map_sum id ((@) xs) (flat rs))"

lemma flat_nothing [simp]: "flat (Inr [] # rs) = flat rs"
  by (cases "flat rs") simp_all

lemma binds_lit: "binds (lit s) (Inr [])"
  by (simp add: binds_def lit_def)

lemma binds_then_lit: "binds m r \<Longrightarrow> binds (bind_sql m (\<lambda>s. lit (h s))) r"
  by (drule binds_bind [OF _ binds_lit [where s = "h _"]], cases r) simp_all

lemma binds_cat: "list_all2 binds ms rs \<Longrightarrow> binds (cat ms) (flat rs)"
  by (induction rule: list_all2_induct)
    (auto simp: cat_Nil cat_Cons binds_lit intro!: binds_bind binds_then_lit)

lemma binds_join: "list_all2 binds ms rs \<Longrightarrow> binds (join_sql sep ms) (flat rs)"
proof (induction rule: list_all2_induct)
  case (Cons m ms r rs)
  show ?case
  proof (cases ms)
    case Nil
    with Cons binds_then_lit [of m r "\<lambda>s. s"] show ?thesis by (cases r) (simp_all add: join_single)
  next
    case (Cons m' ms')
    with Cons.hyps Cons.IH show ?thesis
      by (auto simp: join_Cons2 intro!: binds_bind binds_then_lit)
  qed
qed (simp add: join_Nil binds_lit)

text \<open>A renderer that binds a given number of values and does not fail.\<close>

definition binds_n :: "sql_renderer \<Rightarrow> nat \<Rightarrow> bool" where
  "binds_n m n \<longleftrightarrow> (\<exists>xs. binds m (Inr xs) \<and> length xs = n)"

lemma binds_n_list:
  assumes "list_all2 binds_n ms cs"
  shows "\<exists>xss. list_all2 binds ms (map Inr xss) \<and> map length xss = cs"
  using assms
proof (induction rule: list_all2_induct)
  case (Cons m ms c cs)
  then obtain xs xss where "binds m (Inr xs)" "length xs = c" "list_all2 binds ms (map Inr xss)" "map length xss = cs"
    by (auto simp: binds_n_def)
  then show ?case by (intro exI [of _ "xs # xss"]) simp
qed simp

lemma flat_Inr: "flat (map Inr xss) = Inr (concat xss)"
  by (induction xss) simp_all

lemma binds_n_join: "list_all2 binds_n ms cs \<Longrightarrow> binds_n (join_sql sep ms) (sum_list cs)"
  using binds_n_list [of ms cs] binds_join [of ms _ sep] unfolding binds_n_def
  by (metis flat_Inr length_concat)

lemma binds_n_cat: "list_all2 binds_n ms cs \<Longrightarrow> binds_n (cat ms) (sum_list cs)"
  using binds_n_list [of ms cs] binds_cat [of ms] unfolding binds_n_def
  by (metis flat_Inr length_concat)

lemma binds_n_lit: "binds_n (lit s) 0"
  unfolding binds_n_def using binds_lit by (intro exI [of _ "[]"]) simp

lemma binds_count:
  assumes "binds m r"
  shows "and_then (m []) (\<lambda>(text, ps). Inr (length ps)) = map_sum id length r"
  using spec [OF assms [unfolded binds_def], of "[]"] by (cases "m []"; cases r) auto

lemma binds_n_count: "binds m r \<Longrightarrow> and_then (m []) (\<lambda>(text, ps). Inr (length ps)) = Inr n \<Longrightarrow> binds_n m n"
  using binds_count [of m r] by (cases r) (auto simp: binds_n_def)

lemma node_binds: "ok_expression d n \<Longrightarrow> \<exists>r. binds (compile_node n d sc) r"
  using bindings.compile_related(12) [OF refl, of d n sc] by (auto simp: binds_same_def)

text \<open>Rows whose cells only embed accepted queries.\<close>

definition good_row :: "dialect \<Rightarrow> entries \<Rightarrow> bool" where
  "good_row d row \<longleftrightarrow> (\<forall>(name, cell) \<in> set row. ok_expression d (operand_node cell))"

lemma cell_binds:
  assumes "ok_expression d (operand_node cell)" "cell_parameters cell d = Inr c"
  shows "binds_n (compile_node (operand_node cell) d {}) c"
proof (cases cell)
  case (Operand e)
  obtain r where "binds (compile_node (node_of e) d {}) r"
    using node_binds [of d "node_of e"] assms(1) Operand by auto
  then show ?thesis
    using assms(2) Operand by (auto simp: cell_parameters_def count_parameters_def intro: binds_n_count)
next
  case (Literal v)
  then have "binds (compile_node (operand_node cell) d {}) (Inr [v])"
    by (simp add: binds_def compile_value_def Let_def)
  then show ?thesis using assms(2) Literal by (auto simp: binds_n_def cell_parameters_def)
qed

lemma row_binds:
  assumes "good_row d row" "row_parameters row d = Inr c"
  shows "binds_n (join_sql sep (map (\<lambda>(column, value). compile_node value d {})
    (map (\<lambda>(name, item). (name, operand_node item)) row))) c"
proof -
  obtain cs where cs: "map_results (\<lambda>(name, cell). cell_parameters cell d) row = Inr cs" "c = sum_list cs"
    using assms(2) by (auto simp: row_parameters_def and_then_ok)
  have "list_all2 binds_n (map (\<lambda>(column, value). compile_node value d {})
      (map (\<lambda>(name, item). (name, operand_node item)) row)) cs"
    using cs(1) assms(1)
    by (induction row arbitrary: cs) (auto simp: good_row_def and_then_ok intro: cell_binds)
  then show ?thesis unfolding cs(2) by (rule binds_n_join)
qed

text \<open>
  The statement of a callback: the rows, by \<open>values_many\<close>, then whatever \<open>finish\<close> adds.  What \<open>finish\<close>
  adds does not depend on the rows: always the same conflict clause and the same RETURNING.
\<close>

definition values_statement ::
  "insert_query \<Rightarrow> (insert_query \<Rightarrow> insert_query result) \<Rightarrow> entries list \<Rightarrow> insert_query result" where
  "values_statement start finish rows = and_then (values_many start rows) finish"

definition completes :: "dialect \<Rightarrow> insert_query \<Rightarrow> (insert_query \<Rightarrow> insert_query result) \<Rightarrow>
    py_value node conflict_node option \<Rightarrow> py_value node list \<Rightarrow> bool" where
  "completes d start finish conflict returning \<longleftrightarrow>
     (\<forall>c \<in> set_option conflict. ok_conflict d c) \<and> (\<forall>n \<in> set returning. ok_expression d n)
     \<and> (\<forall>source q. finish (insert_with_node start (set_source source (insert_of start))) = Inr q \<longrightarrow>
          insert_of q = InsertNode (insert_table (insert_of start)) (Some source) conflict returning)"

text \<open>What such a statement binds beside its rows.\<close>

definition base_parameters :: "dialect \<Rightarrow> insert_query \<Rightarrow> py_value node conflict_node option \<Rightarrow>
    py_value node list \<Rightarrow> nat result" where
  "base_parameters d start conflict returning = and_then
     (cat [lift_sql (compile_table (insert_table (insert_of start)) d),
           case conflict of None \<Rightarrow> lit '''' | Some c \<Rightarrow> compile_conflict c d,
           compile_returning returning d] [])
     (\<lambda>(text, ps). Inr (length ps))"

lemma values_statement_node:
  assumes "completes d start finish conflict returning" "values_statement start finish rows = Inr q"
  shows "insert_of q = InsertNode (insert_table (insert_of start))
      (Some (InsertRowsSourceNode (map (map (\<lambda>(name, item). (name, operand_node item))) rows))) conflict returning"
    and "rows \<noteq> []"
proof -
  have many: "values_many start rows = Inr q' \<Longrightarrow> \<exists>xs. xs \<noteq> [] \<and> map_results (dml_values (insert_relation start)) rows = Inr xs
      \<and> with_source start (InsertRowsSourceNode xs) = Inr q'" for q'
    by (auto simp: values_many_def and_then_ok neq_Nil_conv split: list.splits)
  have prepared: "map_results (dml_values table) rows = Inr xs \<Longrightarrow>
      xs = map (map (\<lambda>(name, item). (name, operand_node item))) rows" for table xs
    by (induction rows arbitrary: xs) (auto simp: and_then_ok dml_values_ok)
  from assms(2) obtain q' where q': "values_many start rows = Inr q'" "finish q' = Inr q"
    by (auto simp: values_statement_def and_then_ok)
  from q'(1) have "q' = insert_with_node start (set_source
        (InsertRowsSourceNode (map (map (\<lambda>(name, item). (name, operand_node item))) rows)) (insert_of start))"
      and "rows \<noteq> []"
    by (auto simp: with_source_def and_then_ok dest!: many dest: prepared)
  with q'(2) assms(1) show "rows \<noteq> []" "insert_of q = InsertNode (insert_table (insert_of start))
      (Some (InsertRowsSourceNode (map (map (\<lambda>(name, item). (name, operand_node item))) rows))) conflict returning"
    by (auto simp: completes_def)
qed

lemma fixed_binds:
  assumes "completes d start finish conflict returning"
  shows "\<exists>q. map_sum id length q = base_parameters d start conflict returning
    \<and> (\<forall>a b. binds (cat [lit a, lift_sql (compile_table (insert_table (insert_of start)) d), lit b,
         case conflict of None \<Rightarrow> lit '''' | Some c \<Rightarrow> compile_conflict c d, compile_returning returning d]) q)"
proof -
  let ?table = "lift_sql (compile_table (insert_table (insert_of start)) d)"
  let ?conflict = "case conflict of None \<Rightarrow> lit '''' | Some c \<Rightarrow> compile_conflict c d"
  obtain rt where rt: "binds ?table rt"
    by (cases "compile_table (insert_table (insert_of start)) d")
      (auto simp: lift_sql_def binds_def raise_sql_def lit_def intro: that [of "Inl _"] that [of "Inr []"])
  obtain rc where rc: "binds ?conflict rc"
  proof (cases conflict)
    case None
    then show ?thesis using that [OF _] binds_lit [of "[]"] by (metis option.case(1))
  next
    case (Some c)
    then have "ok_conflict d c" using assms by (simp add: completes_def)
    then show ?thesis using bindings.compile_related(5) [OF refl, of d c] that Some by (auto simp: binds_same_def)
  qed
  obtain rr where rr: "binds (compile_returning returning d) rr"
    using bindings.compile_related(8) [OF refl, of returning d] assms by (auto simp: completes_def binds_same_def)
  have "binds (cat [?table, ?conflict, compile_returning returning d]) (flat [rt, rc, rr])"
    by (rule binds_cat) (simp add: rt rc rr)
  then have "map_sum id length (flat [rt, rc, rr]) = base_parameters d start conflict returning"
    by (simp add: base_parameters_def binds_count)
  moreover have "binds (cat [lit a, ?table, lit b, ?conflict, compile_returning returning d])
      (flat [Inr [], rt, Inr [], rc, rr])" for a b
    by (rule binds_cat) (simp add: rt rc rr binds_lit)
  moreover have "flat [Inr [], rt, Inr [], rc, rr] = flat [rt, rc, rr]" 
    by (simp only: flat_nothing) (simp only: flat.simps(2) [of rt] flat_nothing)
  ultimately show ?thesis by metis
qed

lemma statement_cost_rows:
  assumes "completes d start finish conflict returning" "\<And>row. row \<in> set rows \<Longrightarrow> good_row d row"
    and "\<And>row. row \<in> set rows \<Longrightarrow> succeeds (row_parameters row d)"
    and "values_statement start finish rows = Inr q"
  shows "statement_parameters q d =
    map_sum id (\<lambda>n. n + batch_cost (\<lambda>row. row_parameters row d) rows) (base_parameters d start conflict returning)"
proof -
  let ?prepare = "map (\<lambda>(name, item). (name, operand_node item))"
  let ?cells = "\<lambda>row. join_sql '', '' (map (\<lambda>(column, value). compile_node value d {}) row)"
  let ?body = "cat [lit ''values '', join_sql '', '' (map (\<lambda>row. cat [lit ''('', ?cells row, lit '')'']) (map ?prepare rows))]"
  let ?n = "batch_cost (\<lambda>row. row_parameters row d) rows"
  note node = values_statement_node [OF assms(1,4)]
  have "binds_n (cat [lit ''('', ?cells (?prepare row), lit '')'']) (cost_of (\<lambda>row. row_parameters row d) row)"
    if "row \<in> set rows" for row
  proof -
    from assms(3) [OF that] obtain c where c: "row_parameters row d = Inr c" by (auto simp: succeeds_iff)
    have "binds_n (cat [lit ''('', ?cells (?prepare row), lit '')'']) (sum_list [0, c, 0])"
      using row_binds [OF assms(2) [OF that] c] by (intro binds_n_cat) (simp add: binds_n_lit)
    then show ?thesis using c by (simp add: cost_of_def)
  qed
  then have "list_all2 binds_n (map (\<lambda>row. cat [lit ''('', ?cells row, lit '')'']) (map ?prepare rows))
      (map (cost_of (\<lambda>row. row_parameters row d)) rows)"
    by (simp add: list_all2_conv_all_nth)
  then have "binds_n ?body (sum_list [0, ?n])"
    unfolding batch_cost_def by (intro binds_n_cat) (simp add: binds_n_lit binds_n_join)
  then obtain xs where xs: "binds ?body (Inr xs)" "length xs = ?n" by (auto simp: binds_n_def)
  obtain r where r: "map_sum id length r = base_parameters d start conflict returning"
      "\<And>a b. binds (cat [lit a, lift_sql (compile_table (insert_table (insert_of start)) d), lit b,
         case conflict of None \<Rightarrow> lit '''' | Some c \<Rightarrow> compile_conflict c d, compile_returning returning d]) r"
    using fixed_binds [OF assms(1)] by blast
  obtain first rest where rows: "map ?prepare rows = first # rest" using node(2) by (cases rows) auto
  have "binds (compile_insert (insert_of q) d) (and_then (Inr xs) (\<lambda>xs. map_sum id ((@) xs) r))"
    unfolding node(1) rows compile_insert.simps Let_def option.case insert_source.case list.case
    using xs(1) r(2) unfolding rows by (rule binds_bind)
  from binds_count [OF this] show ?thesis
    unfolding statement_parameters_def count_parameters_def
    by (cases r) (simp_all add: r(1) [symmetric] xs(2) add.commute)
qed

text \<open>The contract holds of these statements; \<open>good\<close> carries what the callback must satisfy.\<close>

interpretation values_rows: statement_cost "values_statement start finish" "\<lambda>row. row_parameters row d"
  "fixed_parameters d" "\<lambda>q. statement_parameters q d" "base_parameters d start conflict returning"
  "\<lambda>row. completes d start finish conflict returning \<and> good_row d row" for d start finish conflict returning
proof unfold_locales
  fix rows q
  assume "rows \<noteq> []" and rows: "\<And>row. row \<in> set rows \<Longrightarrow>
      (completes d start finish conflict returning \<and> good_row d row) \<and> succeeds (row_parameters row d)"
    and q: "values_statement start finish rows = Inr q"
  then have "completes d start finish conflict returning" by (cases rows) auto
  from statement_cost_rows [OF this _ _ q] rows show "statement_parameters q d =
      map_sum id (\<lambda>n. n + batch_cost (\<lambda>row. row_parameters row d) rows) (base_parameters d start conflict returning)"
    by blast
next
  fix row c q
  assume row: "completes d start finish conflict returning \<and> good_row d row" and c: "row_parameters row d = Inr c"
    and q: "values_statement start finish [row] = Inr q"
  from row have completes: "completes d start finish conflict returning" by simp
  have "statement_parameters q d = map_sum id (\<lambda>n. n + c) (base_parameters d start conflict returning)"
    using statement_cost_rows [OF completes _ _ q] row c by (simp add: cost_of_def)
  then show "fixed_parameters d q c = map_sum id int (base_parameters d start conflict returning)"
    by (cases "base_parameters d start conflict returning")
      (simp_all add: fixed_parameters_def values_statement_node(1) [OF completes q])
qed

text \<open>
  C20.  Exhausting \<open>batch_rows\<close> without an exception yields one INSERT per batch, for consecutive
  batches that are together exactly the rows: no row is lost, repeated or reordered, no batch is empty,
  no statement binds more parameters than the limit, counting those of its conflict clause and
  RETURNING, and each batch is as large as possible: with the next row it would exceed the limit.
\<close>

theorem batches_fit_and_are_maximal:
  assumes "batch_rows rows (values_statement start finish) d limit = (qs, None)"
    and "completes d start finish conflict returning" "\<And>row. row \<in> set rows \<Longrightarrow> good_row d row"
  shows "\<exists>bs fixed. concat bs = rows \<and> [] \<notin> set bs
    \<and> list_all2 (\<lambda>b q. values_statement start finish b = Inr q) bs qs
    \<and> (\<forall>q \<in> set qs. \<exists>n. statement_parameters q d = Inr n \<and> int n \<le> limit)
    \<and> greedy (\<lambda>row. row_parameters row d) fixed limit bs
    \<and> (rows \<noteq> [] \<longrightarrow> base_parameters d start conflict returning = Inr fixed)"
  using values_rows.batches_sound [OF _ assms(1) [unfolded batch_rows_def]] assms(2,3) by blast

text \<open>The upsert chain of the documentation: \<open>values_many(...).on_conflict(...).do_update(...).returning(...)\<close>.\<close>

definition upsert :: "operand list \<Rightarrow> entries \<Rightarrow> operand list \<Rightarrow> insert_query \<Rightarrow> insert_query result" where
  "upsert targets given items q = and_then (on_conflict q targets)
     (\<lambda>b. and_then (do_update b given) (\<lambda>q'. insert_returning_of q' items False))"

lemma returning_nodes_ok:
  "returning_nodes existing items named = Inr nodes \<longleftrightarrow> existing = [] \<and> \<not> named \<and> length items \<le> 8
     \<and> (\<exists>es. items = map Operand es \<and> nodes = map node_of es)"
proof -
  have "map_results (\<lambda>x. case x of Literal _ \<Rightarrow> Inl e | Operand y \<Rightarrow> Inr (node_of y)) items = Inr nodes
      \<longleftrightarrow> (\<exists>es. items = map Operand es \<and> nodes = map node_of es)" for e :: exn
    by (induction items arbitrary: nodes) (auto simp: and_then_ok Cons_eq_map_conv split: operand.splits)
  then show ?thesis by (auto simp: returning_nodes_def and_then_ok checks_ok)
qed

lemma upsert_completes:
  assumes "target_column_names (insert_relation start) targets True = Inr names"
    and "\<And>name item. (name, item) \<in> set given \<Longrightarrow> ok_expression d (operand_node item)"
    and "\<And>e. e \<in> set es \<Longrightarrow> ok_expression d (node_of e)"
  shows "completes d start (upsert targets given (map Operand es))
    (Some (ConflictNode names ''update'' (map (\<lambda>(name, item). (name, operand_node item)) given) None None))
    (map node_of es)"
proof -
  have "inj Operand" by (simp add: inj_def)
  then show ?thesis
    using assms
    by (cases "insert_of start") (auto simp: completes_def upsert_def on_conflict_def do_update_def insert_returning_of_def
      insert_with_node_def returning_nodes_ok dml_values_ok and_then_ok ok_conflict_def inj_map_eq_map
      split: option.splits insert_source.splits)
qed

lemma ok_leaves [simp]: "ok_expression d (ValueNode v)" "ok_expression d (ColumnNode source name)"
  by (simp_all add: ok_expression_def set_subqueries ast.set_visit [of "ValueNode v" for v]
    ast.set_visit [of "ColumnNode source name" for source name])

text \<open>Three rows under a limit of three parameters, one of which the upsert itself binds.\<close>

theorem batches_fit_and_are_maximal_witness:
  "let t = Relation (TableSource (TableSourceNode ''t'' None None)) [(''id'', ''id''), (''n'', ''n'')];
       start = InsertQuery (InsertNode (TableSourceNode ''t'' None None) None None []) None t False;
       finish = upsert [Operand (get_column t ''id'')] [(''n'', Literal (PyInt 0))] [Operand (get_column t ''id'')];
       row = (\<lambda>k. [(''id'', Literal (PyInt k))])
   in map (\<lambda>q. insert_source (insert_of q)) (fst (batch_rows [row 1, row 2, row 3] (values_statement start finish) sqlite 3))
        = [Some (InsertRowsSourceNode [[(''id'', ValueNode (PyInt 1))], [(''id'', ValueNode (PyInt 2))]]),
           Some (InsertRowsSourceNode [[(''id'', ValueNode (PyInt 3))]])]
      \<and> (\<exists>bs fixed. concat bs = [row 1, row 2, row 3] \<and> greedy (\<lambda>row. row_parameters row sqlite) fixed 3 bs)"
proof -
  let ?t = "Relation (TableSource (TableSourceNode ''t'' None None)) [(''id'', ''id''), (''n'', ''n'')]"
  let ?start = "InsertQuery (InsertNode (TableSourceNode ''t'' None None) None None []) None ?t False"
  let ?given = "[(''n'', Literal (PyInt 0))]"
  let ?finish = "upsert [Operand (get_column ?t ''id'')] ?given (map Operand [get_column ?t ''id''])"
  let ?rows = "[[(''id'', Literal (PyInt 1))], [(''id'', Literal (PyInt 2))], [(''id'', Literal (PyInt 3))]]"
  have targets: "target_column_names (insert_relation ?start) [Operand (get_column ?t ''id'')] True = Inr [''id'']"
    by (simp add: target_column_names_def target_column_def relation_defs)
  have completes: "completes sqlite ?start ?finish
      (Some (ConflictNode [''id''] ''update'' (map (\<lambda>(name, item). (name, operand_node item)) ?given) None None))
      (map node_of [get_column ?t ''id''])"
    by (rule upsert_completes [OF targets]) (auto simp: relation_defs)
  have run: "batch_rows ?rows (values_statement ?start ?finish) sqlite 3 = (map (\<lambda>assigned. InsertQuery
       (InsertNode (TableSourceNode ''t'' None None) (Some (InsertRowsSourceNode assigned))
         (Some (ConflictNode [''id''] ''update'' [(''n'', ValueNode (PyInt 0))] None None))
         [ColumnNode ''t'' ''id'']) None ?t False)
       [[[(''id'', ValueNode (PyInt 1))], [(''id'', ValueNode (PyInt 2))]], [[(''id'', ValueNode (PyInt 3))]]], None)"
    by (simp add: batch_rows_def row_parameters_def cell_parameters_def fixed_parameters_def statement_parameters_def
      values_statement_def upsert_def insert_defs dml_values_def checks.simps column_names_def target_column_names_def
      target_column_def relation_defs returning_nodes_def yield_then_def py_eval)
  have good: "good_row sqlite row" if "row \<in> set ?rows" for row
    using that by (auto simp: good_row_def)
  from batches_fit_and_are_maximal [OF run completes good]
  show ?thesis using run by (auto simp: Let_def)
qed

end
