(* ===== verification/Divergences.thy ===== *)
theory Divergences
  imports Batching
begin

text \<open>
  Concrete statements on which the builders or the compiler do something their documentation or their
  intent does not say.  Each is evaluated with the model: no hypothesis, no abstraction of the values.
\<close>

text \<open>
  The clauses of a window are rendered before the expression they follow in the text, so with
  SQLite's positional placeholders the two values are bound the wrong way round: the \<open>?\<close> of the FILTER
  condition, first in the text, receives the value written for the PARTITION BY.
\<close>

theorem window_parameters_out_of_order:
  "compile_sqlite (SelectQ (select_where
     [WindowNode (AggregateNode ''count'' [StarNode]
          (Some (BinaryNode (ColumnNode ''t'' ''a'') ''='' (ValueNode (PyStr ''first'')))))
        [FunctionNode ''nullif'' [ColumnNode ''t'' ''b'', ValueNode (PyStr ''second'')]] [] None None]
     (plain_table ''t'') None))
   = Inr \<lparr>sql = ''select count(*) filter (where (\"t\".\"a\" = ?)) over (partition by nullif(\"t\".\"b\", ?)) from \"t\"'',
         parameters = [PyStr ''second'', PyStr ''first'']\<rparr>"
  by (simp add: py_eval checks.simps)

text \<open>
  The grouping check does not look into embedded subqueries: a grouped query whose selected
  subquery reads an ungrouped column of the group is accepted for every dialect, although SQLite
  answers it from an arbitrary row.
\<close>

theorem grouping_ignores_correlated_subqueries:
  "validate_query (SelectQ (SelectNode
     [ColumnNode ''t'' ''k'', AggregateNode ''count'' [StarNode] None,
      ScalarSubqueryNode (select_where [ColumnNode ''u'' ''a''] (plain_table ''u'')
        (Some (BinaryNode (ColumnNode ''u'' ''id'') ''='' (ColumnNode ''t'' ''v''))))]
     (Some (plain_table ''t'')) [] None [ColumnNode ''t'' ''k''] None [] None None False [] [] [])) d = Inr ()"
  by (simp add: py_eval)

text \<open>
  An aggregate that occurs only in the ORDER BY of a window does not make the query an aggregate
  query for the check, so an ungrouped column beside it is accepted for every dialect.
\<close>

theorem aggregates_in_window_clauses_ignored:
  "validate_query (SelectQ (select_where
     [ColumnNode ''t'' ''k'',
      WindowNode (FunctionNode ''row_number'' []) [] [OrderNode (AggregateNode ''count'' [StarNode] None) ''asc'' None]
        None None]
     (plain_table ''t'') None)) d = Inr ()"
  by (simp add: py_eval)

text \<open>
  The nested-scope analysis does not visit ON CONFLICT predicates: a data-modifying CTE inside a
  subquery of \<open>do_update(...).where(...)\<close> is accepted, although it is not on the outermost query.
\<close>

theorem conflict_predicates_hide_nested_ctes:
  "validate_query (DmlQ (InsertDml (InsertNode (TableSourceNode ''t'' None None)
     (Some (InsertValuesSourceNode [(''a'', ValueNode (PyInt 1))]))
     (Some (ConflictNode [''a''] ''update'' [(''a'', ValueNode (PyInt 2))] None
       (Some (ExistsNode (SelectNode [ColumnNode ''d'' ''id''] (Some (CteSourceNode ''d'')) [] None [] None [] None None
          False [CteNode ''d'' (DmlQ (DeleteDml (DeleteNode (TableSourceNode ''u'' None None) None True
             [ColumnNode ''u'' ''id'']))) False False] [] []) False)))) []))) postgres = Inr ()"
  by (auto simp: py_eval)

text \<open>
  Every visible CTE name counts as an available relation: a query that selects a column of a CTE
  it does not have in its FROM clause is accepted for every dialect.
\<close>

theorem cte_columns_without_from:
  "validate_query (SelectQ (SelectNode [ColumnNode ''c'' ''a''] (Some (plain_table ''t'')) [] None [] None [] None None
     False [CteNode ''c'' (SelectQ (select_where [ColumnNode ''t'' ''a''] (plain_table ''t'') None)) False False]
     [] [])) d = Inr ()"
  by (simp add: py_eval)

text \<open>
  The seed check of recursive CTEs does not visit the seed's own WITH clause: a seed that reads
  the recursive CTE through a nested CTE is accepted for every dialect.
\<close>

theorem recursive_seed_through_with:
  "validate_query (SelectQ (SelectNode [ColumnNode ''r'' ''n''] (Some (CteSourceNode ''r'')) [] None [] None [] None None
     False [CteNode ''r'' (SelectQ (SelectNode [ColumnNode ''x'' ''n''] (Some (CteSourceNode ''x'')) [] None [] None []
       None None False
       [CteNode ''x'' (SelectQ (select_where [ColumnNode ''r'' ''n''] (CteSourceNode ''r'') None)) False False]
       [CompoundNode ''union all'' (select_where [ColumnNode ''r'' ''n''] (CteSourceNode ''r'') None)] []))
       True False] [] [])) d = Inr ()"
  by (simp add: py_eval)

text \<open>
  Grouping hashes the nodes it compares, so a grouped query that binds a list (an array
  parameter) raises \<open>TypeError\<close> instead of compiling, on every dialect.
\<close>

theorem grouped_list_parameter_raises_type_error:
  "compile (SelectQ (SelectNode
     [BinaryNode (ColumnNode ''t'' ''tags'') ''='' (ValueNode (PyList []))] (Some (plain_table ''t'')) [] None
     [ColumnNode ''t'' ''tags''] None [] None None False [] [] [])) d = Inl (TypeError ''unhashable type'' [''list''])"
  by (simp add: py_eval checks.simps unhashable_list_def)

text \<open>
  \<open>~predicate\<close> builds the unary operator \<open>not\<close>, and the renderer writes every unary operator after its
  operand, as \<open>is null\<close> needs it: the negation of a comparison is text no dialect parses.
\<close>

theorem negation_is_rendered_postfix:
  "let adult = predicate (BinaryNode (ColumnNode ''t'' ''age'') ''>'' (ValueNode (PyInt 17))) in
   compile_sqlite (SelectQ (select_where [ColumnNode ''t'' ''id''] (plain_table ''t'')
     (Some (node_of (predicate_invert adult)))))
   = Inr \<lparr>sql = ''select \"t\".\"id\" from \"t\" where ((\"t\".\"age\" > ?) not)'', parameters = [PyInt 17]\<rparr>"
proof -
  let ?adult = "BinaryNode (ColumnNode ''t'' ''age'') ''>'' (ValueNode (PyInt 17)) :: py_value node"
  have "node_of (predicate_invert (predicate ?adult)) = UnaryNode ''not'' ?adult"
    by (simp add: predicate_invert_def predicate_def)
  then show ?thesis
    unfolding Let_def by (simp add: py_eval checks.simps)
qed

text \<open>
  Frame bounds are compared as floats, so beyond \<open>2 ^ 53\<close> the check accepts a frame that starts one row
  after it ends.
\<close>

theorem frame_bounds_round:
  "validate_frame_bounds (FrameBoundaryNode ''following'' (Some 9007199254740993))
     (FrameBoundaryNode ''following'' (Some 9007199254740992)) = Inr ()"
proof -
  have "floorlog 2 9007199254740993 = 54" "floorlog 2 9007199254740992 = 54"
    by ((rule antisym; (rule floorlog_leI floorlog_geI; simp)+))+
  then show ?thesis
    by (simp add: validate_frame_bounds_def checks.simps frame_position_def float_of_def Let_def py_eval)
qed

end
