(* ===== verification/Execution.thy ===== *)
theory Execution
  imports Dml_Builder
begin

text \<open>
  What both executors share (\<open>_execution.py\<close>): the guards on the query they are given, result mapping
  and the events of observers; and the actions in which their methods are written.  An action takes
  the state of the process and returns a value or an exception with the new state: Python keeps
  the effects of a method that raises.
\<close>

section \<open>Actions\<close>

type_synonym ('s, 'a) action = "'s \<Rightarrow> 'a result \<times> 's"

definition ret :: "'a \<Rightarrow> ('s, 'a) action" where
  "ret x = (\<lambda>s. (Inr x, s))"

definition raise :: "exn \<Rightarrow> ('s, 'a) action" where
  "raise e = (\<lambda>s. (Inl e, s))"

definition bind :: "('s, 'a) action \<Rightarrow> ('a \<Rightarrow> ('s, 'b) action) \<Rightarrow> ('s, 'b) action" where
  "bind m f = (\<lambda>s. case m s of (Inl e, s') \<Rightarrow> (Inl e, s') | (Inr x, s') \<Rightarrow> f x s')"

text \<open>\<open>try: m except BaseException as error: handler\<close>\<close>

definition on_error :: "('s, 'a) action \<Rightarrow> (exn \<Rightarrow> ('s, 'a) action) \<Rightarrow> ('s, 'a) action" where
  "on_error m handler = (\<lambda>s. case m s of (Inl e, s') \<Rightarrow> handler e s' | (Inr x, s') \<Rightarrow> (Inr x, s'))"

text \<open>\<open>try: m except BaseException as error: handler else: f\<close>\<close>

definition try_else :: "('s, 'a) action \<Rightarrow> (exn \<Rightarrow> ('s, 'b) action) \<Rightarrow> ('a \<Rightarrow> ('s, 'b) action) \<Rightarrow> ('s, 'b) action" where
  "try_else m handler f = (\<lambda>s. case m s of (Inl e, s') \<Rightarrow> handler e s' | (Inr x, s') \<Rightarrow> f x s')"

text \<open>The outcome of an action as a value: how a method keeps an exception for later.\<close>

definition outcome :: "('s, 'a) action \<Rightarrow> ('s, 'a result) action" where
  "outcome m = (\<lambda>s. case m s of (r, s') \<Rightarrow> (Inr r, s'))"

definition ask :: "('s \<Rightarrow> 'a) \<Rightarrow> ('s, 'a) action" where
  "ask f = (\<lambda>s. (Inr (f s), s))"

definition act :: "('s \<Rightarrow> 's) \<Rightarrow> ('s, unit) action" where
  "act f = (\<lambda>s. (Inr (), f s))"

text \<open>A computation that may raise and has no effect.\<close>

definition pure :: "'a result \<Rightarrow> ('s, 'a) action" where
  "pure r = (\<lambda>s. (r, s))"

lemmas action_defs = ret_def raise_def bind_def on_error_def try_else_def outcome_def ask_def act_def pure_def

section \<open>Queries and their results\<close>

text \<open>Any query object of the builders, and \<open>extract_query\<close>.\<close>

datatype any_query =
    AnySelect select_query
  | AnyModifying modifying_query
  | AnyInsert insert_query
  | AnyUpdate update_query
  | AnyDelete delete_query

fun extract_query :: "any_query \<Rightarrow> query_state" where
  "extract_query (AnySelect q) = QueryState (SelectQ (select_of q)) (adapter_of q)"
| "extract_query (AnyModifying q) = QueryState (SelectQ (modifying_select q)) (modifying_adapter q)"
| "extract_query (AnyInsert q) = QueryState (DmlQ (InsertDml (insert_of q))) (insert_adapter q)"
| "extract_query (AnyUpdate q) = QueryState (DmlQ (UpdateDml (update_of q))) (update_adapter q)"
| "extract_query (AnyDelete q) = QueryState (DmlQ (DeleteDml (delete_of q))) (delete_adapter q)"

definition require_command :: "any_query \<Rightarrow> unit result" where
  "require_command query = raise_if
     (case state_node (extract_query query) of SelectQ _ \<Rightarrow> True | DmlQ dml \<Rightarrow> returning_of dml \<noteq> [])
     (TypeError ''execute() cannot consume RETURNING rows; use fetch_all() or fetch_one()'' [])"

definition require_select :: "any_query \<Rightarrow> unit result" where
  "require_select query = raise_if (case query of AnySelect _ \<Rightarrow> False | _ \<Rightarrow> True) (TypeError
     ''streaming needs a SELECT query; use fetch_all() for RETURNING queries and write CTEs'' [])"

text \<open>\<open>error\<close> is the callable of an \<open>or_raise\<close> method: the exception it makes, or raises while making it.\<close>

definition raise_no_result :: "exn option \<Rightarrow> 'a result" where
  "raise_no_result error = Inl (case error of None \<Rightarrow> NoResultError | Some e \<Rightarrow> e)"

text \<open>A result row: the tuple of the driver, or the model an adapter made of it.\<close>

datatype mapped = RawRow "datum list" | ModelRow datum

definition map_row :: "any_query \<Rightarrow> datum list \<Rightarrow> mapped result" where
  "map_row query row = (case state_adapter (extract_query query) of
       None \<Rightarrow> Inr (RawRow row)
     | Some a \<Rightarrow> and_then (adapter_map a row) (\<lambda>m. Inr (ModelRow m)))"

definition map_all :: "any_query \<Rightarrow> datum list list \<Rightarrow> mapped list result" where
  "map_all query rows = (case state_adapter (extract_query query) of
       None \<Rightarrow> Inr (map RawRow rows)
     | Some a \<Rightarrow> map_results (\<lambda>row. and_then (adapter_map a row) (\<lambda>m. Inr (ModelRow m))) rows)"

fun map_one :: "any_query \<Rightarrow> datum list option \<Rightarrow> mapped option result" where
  "map_one query None = Inr None"
| "map_one query (Some row) = and_then (map_row query row) (\<lambda>m. Inr (Some m))"

record event =
  event_sql :: string
  event_parameters :: "py_value list"
  duration :: int
  row_count :: "int option"
  event_error :: "exn option"

end
