(* ===== verification/Sqlite.thy ===== *)
theory Sqlite
  imports Execution
begin

text \<open>
  The SQLite executor (\<open>relq_sqlite/__init__.py\<close>) on one physical connection: the transaction registry
  that all database wrappers of the connection share, controlled transactions, savepoints and queries.

  The Python objects with identity are numbered and live in the state: registries
  (\<open>_SQLiteTransactionState\<close>), transactions (\<open>_SQLiteControlledTransaction\<close>) and savepoints
  (\<open>_SQLiteSavepoint\<close>).  \<open>current\<close> is the entry of \<open>_TRANSACTION_STATES_BY_CONNECTION\<close> for the connection.
  The driver, the clock and the observers are code outside the repository: the fields of \<open>driver\<close>, functions
  on an environment \<open>'w\<close> of their own.  An observer is called without access to relq's objects: one that
  calls back into the executor is not modelled.  A plain \<open>SQLiteDatabase\<close> refreshes its reference to the
  registry before each use, so its observer is all that is left of it.
\<close>

section \<open>State\<close>

datatype entry = TransactionEntry nat | SavepointEntry nat

record registry =
  stack :: "nat list"
  entries :: "entry list"
  savepoint_names :: "string set"

record transaction =
  state_of :: nat
  transaction_observer :: "nat option"
  own_names :: "string set"
  own_savepoints :: "nat list"
  generated_name :: "string option"
  closed_flag :: bool

record savepoint =
  owner :: nat
  quoted_name :: string
  released :: bool
  invalidated :: bool

record 'w world =
  registries :: "nat \<Rightarrow> registry"
  registry_count :: nat
  current :: "nat option"
  transactions :: "nat \<Rightarrow> transaction"
  transaction_count :: nat
  savepoints :: "nat \<Rightarrow> savepoint"
  savepoint_count :: nat
  sequence :: nat
  env :: 'w

record 'w driver =
  execute_sql :: "string \<Rightarrow> py_value list \<Rightarrow> 'w \<Rightarrow> nat result \<times> 'w"
  rowcount :: "nat \<Rightarrow> 'w \<Rightarrow> int"
  fetchall :: "nat \<Rightarrow> 'w \<Rightarrow> datum list list result \<times> 'w"
  fetchone :: "nat \<Rightarrow> 'w \<Rightarrow> datum list option result \<times> 'w"
  commit_connection :: "'w \<Rightarrow> unit result \<times> 'w"
  rollback_connection :: "'w \<Rightarrow> unit result \<times> 'w"
  in_transaction :: "'w \<Rightarrow> bool"
  autocommit :: "'w \<Rightarrow> bool"
  isolation_level :: "'w \<Rightarrow> string option"
  perf_counter :: "'w \<Rightarrow> int"
  notify :: "nat \<Rightarrow> event \<Rightarrow> 'w \<Rightarrow> unit result \<times> 'w"

text \<open>A wrapper a program holds: a plain database with its observer, or a transaction.\<close>

datatype handle = Database "nat option" | Transaction nat

section \<open>The registry\<close>

definition update_registry :: "nat \<Rightarrow> (registry \<Rightarrow> registry) \<Rightarrow> 'w world \<Rightarrow> 'w world" where
  "update_registry r f s = s\<lparr>registries := (registries s)(r := f (registries s r))\<rparr>"

definition update_transaction :: "nat \<Rightarrow> (transaction \<Rightarrow> transaction) \<Rightarrow> 'w world \<Rightarrow> 'w world" where
  "update_transaction t f s = s\<lparr>transactions := (transactions s)(t := f (transactions s t))\<rparr>"

definition update_savepoint :: "nat \<Rightarrow> (savepoint \<Rightarrow> savepoint) \<Rightarrow> 'w world \<Rightarrow> 'w world" where
  "update_savepoint p f s = s\<lparr>savepoints := (savepoints s)(p := f (savepoints s p))\<rparr>"

text \<open>\<open>_savepoint_name_key\<close>: ASCII letters to lower case, as SQLite compares names.\<close>

definition savepoint_name_key :: "string \<Rightarrow> string" where
  "savepoint_name_key name = map (\<lambda>c. if CHR ''A'' \<le> c \<and> c \<le> CHR ''Z'' then char_of (of_char c + (32 :: nat)) else c) name"

definition quote_savepoint :: "string \<Rightarrow> string result" where
  "quote_savepoint name = and_then (raise_if (name = []) (ValueError ''savepoint name must not be empty'' []))
     (\<lambda>_. Inr (CHR 0x22 # replace_char (CHR 0x22) [CHR 0x22, CHR 0x22] name @ [CHR 0x22]))"

definition ascii_upper :: "string \<Rightarrow> string" where
  "ascii_upper = map (\<lambda>c. if CHR ''a'' \<le> c \<and> c \<le> CHR ''z'' then char_of (of_char c - (32 :: nat)) else c)"

definition begin_statement :: "string option \<Rightarrow> string result" where
  "begin_statement level = (case level of
       None \<Rightarrow> Inr ''begin''
     | Some l \<Rightarrow> if l = [] then Inr ''begin''
         else if ascii_upper l \<in> {''DEFERRED'', ''IMMEDIATE'', ''EXCLUSIVE''}
         then Inr (''begin '' @ savepoint_name_key (ascii_upper l))
         else Inl (ValueError ''unsupported SQLite isolation level'' [l]))"

definition empty_registry :: registry where
  "empty_registry = \<lparr>stack = [], entries = [], savepoint_names = {}\<rparr>"

definition transaction_state_for_connection :: "('w world, nat) action" where
  "transaction_state_for_connection = (\<lambda>s. case current s of
       Some r \<Rightarrow> (Inr r, s)
     | None \<Rightarrow> (Inr (registry_count s),
         s\<lparr>registries := (registries s)(registry_count s := empty_registry),
           registry_count := Suc (registry_count s), current := Some (registry_count s)\<rparr>))"

definition discard_transaction_state :: "nat \<Rightarrow> 'w world \<Rightarrow> 'w world" where
  "discard_transaction_state r s =
     (if entries (registries s r) = [] \<and> current s = Some r then s\<lparr>current := None\<rparr> else s)"

definition register_transaction :: "nat \<Rightarrow> nat \<Rightarrow> 'w world \<Rightarrow> 'w world" where
  "register_transaction r t = update_registry r
     (\<lambda>g. g\<lparr>stack := stack g @ [t], entries := entries g @ [TransactionEntry t]\<rparr>)"

definition register_savepoint :: "nat \<Rightarrow> nat \<Rightarrow> 'w world \<Rightarrow> 'w world" where
  "register_savepoint r p = update_registry r (\<lambda>g. g\<lparr>entries := entries g @ [SavepointEntry p]\<rparr>)"

definition remove_entry :: "nat \<Rightarrow> entry \<Rightarrow> 'w world \<Rightarrow> 'w world" where
  "remove_entry r e = update_registry r (\<lambda>g. g\<lparr>entries := remove1 e (entries g)\<rparr>)"

definition reserve_savepoint_name :: "nat \<Rightarrow> string \<Rightarrow> ('w world, unit) action" where
  "reserve_savepoint_name r name = bind (ask (\<lambda>s. savepoint_names (registries s r)))
     (\<lambda>names. bind (pure (raise_if (savepoint_name_key name \<in> names)
         (ValueError ''savepoint name is already active'' [name])))
       (\<lambda>_. act (update_registry r (\<lambda>g. g\<lparr>savepoint_names := insert (savepoint_name_key name) (savepoint_names g)\<rparr>))))"

definition release_savepoint_names :: "nat \<Rightarrow> string set \<Rightarrow> 'w world \<Rightarrow> 'w world" where
  "release_savepoint_names r names = update_registry r
     (\<lambda>g. g\<lparr>savepoint_names := savepoint_names g - savepoint_name_key ` names\<rparr>)"

section \<open>Invalidation\<close>

definition forget_savepoint :: "nat \<Rightarrow> nat \<Rightarrow> 'w world \<Rightarrow> 'w world" where
  "forget_savepoint t p s =
     (let r = state_of (transactions s t); name = quoted_name (savepoints s p) in
      release_savepoint_names r {name}
        (update_transaction t (\<lambda>x. x\<lparr>own_names := own_names x - {name}\<rparr>)
          (remove_entry r (SavepointEntry p)
            (update_transaction t (\<lambda>x. x\<lparr>own_savepoints := remove1 p (own_savepoints x)\<rparr>) s))))"

definition invalidate_savepoint :: "nat \<Rightarrow> 'w world \<Rightarrow> 'w world" where
  "invalidate_savepoint p s =
     (if released (savepoints s p) \<or> invalidated (savepoints s p) then s
      else update_savepoint p (\<lambda>x. x\<lparr>invalidated := True\<rparr>) (forget_savepoint (owner (savepoints s p)) p s))"

definition clear_savepoint_names :: "nat \<Rightarrow> 'w world \<Rightarrow> 'w world" where
  "clear_savepoint_names t s =
     (let s1 = fold invalidate_savepoint (own_savepoints (transactions s t)) s;
          s2 = update_transaction t (\<lambda>x. x\<lparr>own_savepoints := []\<rparr>) s1
      in update_transaction t (\<lambda>x. x\<lparr>own_names := {}\<rparr>)
        (release_savepoint_names (state_of (transactions s2 t)) (own_names (transactions s2 t)) s2))"

definition close_transaction :: "nat \<Rightarrow> 'w world \<Rightarrow> 'w world" where
  "close_transaction t s =
     (let s1 = update_transaction t (\<lambda>x. x\<lparr>closed_flag := True\<rparr>) (clear_savepoint_names t s);
          r = state_of (transactions s1 t)
      in discard_transaction_state r
        (update_registry r (\<lambda>g. g\<lparr>stack := remove1 t (stack g)\<rparr>) (remove_entry r (TransactionEntry t) s1)))"

fun invalidate_entry :: "entry \<Rightarrow> 'w world \<Rightarrow> 'w world" where
  "invalidate_entry (TransactionEntry t) s = close_transaction t s"
| "invalidate_entry (SavepointEntry p) s = invalidate_savepoint p s"

definition invalidate_after :: "nat \<Rightarrow> entry \<Rightarrow> 'w world \<Rightarrow> 'w world" where
  "invalidate_after r e s = fold invalidate_entry (tl (dropWhile (\<lambda>x. x \<noteq> e) (entries (registries s r)))) s"

definition invalidate_all :: "nat \<Rightarrow> 'w world \<Rightarrow> 'w world" where
  "invalidate_all r s = update_registry r (\<lambda>_. empty_registry)
     (fold invalidate_entry (entries (registries s r)) s)"

definition release_savepoint_object :: "nat \<Rightarrow> nat \<Rightarrow> 'w world \<Rightarrow> 'w world" where
  "release_savepoint_object t p s =
     forget_savepoint t p (invalidate_after (state_of (transactions s t)) (SavepointEntry p) s)"

section \<open>Calls to the driver and the observer\<close>

text \<open>A call outside, with its effect on the environment.\<close>

definition outside :: "('w \<Rightarrow> 'a result \<times> 'w) \<Rightarrow> ('w world, 'a) action" where
  "outside f = (\<lambda>s. case f (env s) of (r, w) \<Rightarrow> (r, s\<lparr>env := w\<rparr>))"

definition observe ::
  "'w driver \<Rightarrow> nat option \<Rightarrow> string \<Rightarrow> py_value list \<Rightarrow> int \<Rightarrow> int option \<Rightarrow> exn option \<Rightarrow> ('w world, unit) action" where
  "observe c observer text params started count error = (case observer of
       None \<Rightarrow> ret ()
     | Some watcher \<Rightarrow> bind (ask (\<lambda>s. perf_counter c (env s))) (\<lambda>now.
         on_error (outside (notify c watcher \<lparr>event_sql = text, event_parameters = params, duration = now - started,
             row_count = count, event_error = error\<rparr>))
           (\<lambda>e. if is_exception e then ret () else raise e)))"

definition run_control ::
  "'w driver \<Rightarrow> nat option \<Rightarrow> string \<Rightarrow> ('w world, 'a) action \<Rightarrow> ('w world, int) action" where
  "run_control c observer text operation = bind (ask (\<lambda>s. perf_counter c (env s)))
     (\<lambda>started. on_error (bind operation (\<lambda>_. ret started))
       (\<lambda>e. bind (observe c observer text [] started None (Some e)) (\<lambda>_. raise e)))"

definition execute_control :: "'w driver \<Rightarrow> string \<Rightarrow> ('w world, nat) action" where
  "execute_control c text = outside (execute_sql c text [])"

definition top_level_control :: "'w driver \<Rightarrow> string \<Rightarrow> ('w world, unit) action" where
  "top_level_control c text = bind (ask (\<lambda>s. autocommit c (env s)))
     (\<lambda>auto. if auto then bind (execute_control c text) (\<lambda>_. ret ())
       else if text = ''commit'' then outside (commit_connection c) else outside (rollback_connection c))"

text \<open>\<open>except BaseException: _LOGGER.debug(...)\<close>: failures of a clean-up are only logged.\<close>

definition quietly :: "('w world, 'a) action \<Rightarrow> ('w world, unit) action" where
  "quietly m = on_error (bind m (\<lambda>_. ret ())) (\<lambda>_. ret ())"

definition cleanup_interrupted_savepoint :: "'w driver \<Rightarrow> string \<Rightarrow> ('w world, unit) action" where
  "cleanup_interrupted_savepoint c name = quietly
     (bind (execute_control c (''rollback to savepoint '' @ name))
       (\<lambda>_. execute_control c (''release savepoint '' @ name)))"

definition cleanup_interrupted_transaction :: "'w driver \<Rightarrow> ('w world, unit) action" where
  "cleanup_interrupted_transaction c = quietly (execute_control c ''rollback'')"

section \<open>Transactions\<close>

definition ensure_usable :: "handle \<Rightarrow> ('w world, unit) action" where
  "ensure_usable h = (case h of
       Database _ \<Rightarrow> ret ()
     | Transaction t \<Rightarrow> bind (ask (\<lambda>s. closed_flag (transactions s t)))
         (\<lambda>closed. pure (raise_if closed
           (TransactionUnavailableError ''controlled transaction is no longer usable''))))"

definition observer_of :: "handle \<Rightarrow> 'w world \<Rightarrow> nat option" where
  "observer_of h s = (case h of Database watcher \<Rightarrow> watcher | Transaction t \<Rightarrow> transaction_observer (transactions s t))"

text \<open>\<open>SQLiteDatabase(connection, observer)\<close>.\<close>

definition new_database :: "nat option \<Rightarrow> ('w world, handle) action" where
  "new_database observer = bind transaction_state_for_connection (\<lambda>_. ret (Database observer))"

text \<open>\<open>_SQLiteControlledTransaction.__init__\<close>, the constructor of the base class included.\<close>

definition new_transaction :: "nat option \<Rightarrow> string option \<Rightarrow> nat \<Rightarrow> ('w world, nat) action" where
  "new_transaction observer generated r = bind transaction_state_for_connection (\<lambda>_.
     bind (ask transaction_count) (\<lambda>t.
       bind (act (\<lambda>s. register_transaction r t (s\<lparr>transaction_count := Suc t,
           transactions := (transactions s)(t := \<lparr>state_of = r, transaction_observer = observer,
             own_names = set_option generated, own_savepoints = [], generated_name = generated,
             closed_flag = False\<rparr>)\<rparr>)))
         (\<lambda>_. ret t)))"

definition begin_nested :: "'w driver \<Rightarrow> nat option \<Rightarrow> nat \<Rightarrow> ('w world, nat) action" where
  "begin_nested c observer r = bind (ask sequence) (\<lambda>n.
     bind (act (\<lambda>s. s\<lparr>sequence := Suc n\<rparr>)) (\<lambda>_.
     bind (pure (quote_savepoint (''__relq_controlled_'' @ str_of_nat n))) (\<lambda>name.
     bind (reserve_savepoint_name r name) (\<lambda>_.
     bind (on_error (run_control c observer (''savepoint '' @ name) (execute_control c (''savepoint '' @ name)))
         (\<lambda>e. bind (act (release_savepoint_names r {name})) (\<lambda>_. raise e))) (\<lambda>started.
     bind (on_error (observe c observer (''savepoint '' @ name) [] started (Some 0) None)
         (\<lambda>e. bind (act (release_savepoint_names r {name})) (\<lambda>_.
           bind (cleanup_interrupted_savepoint c name) (\<lambda>_. raise e)))) (\<lambda>_.
     new_transaction observer (Some name) r))))))"

definition begin_top_level :: "'w driver \<Rightarrow> nat option \<Rightarrow> nat \<Rightarrow> ('w world, nat) action" where
  "begin_top_level c observer r = bind (ask (\<lambda>s. in_transaction c (env s))) (\<lambda>open.
     bind (if open then ret ()
       else bind (ask (\<lambda>s. isolation_level c (env s))) (\<lambda>level.
         bind (pure (begin_statement level)) (\<lambda>text.
           on_error (bind (run_control c observer text (execute_control c text))
               (\<lambda>started. observe c observer text [] started (Some 0) None))
             (\<lambda>e. bind (cleanup_interrupted_transaction c) (\<lambda>_. raise e)))))
       (\<lambda>_. new_transaction observer None r))"

definition begin_transaction :: "'w driver \<Rightarrow> handle \<Rightarrow> ('w world, nat) action" where
  "begin_transaction c h = bind (ensure_usable h) (\<lambda>_.
     bind transaction_state_for_connection (\<lambda>r.
     bind (act (\<lambda>s. case h of Database _ \<Rightarrow> s | Transaction t \<Rightarrow> update_transaction t (\<lambda>x. x\<lparr>state_of := r\<rparr>) s)) (\<lambda>_.
     bind (ask (observer_of h)) (\<lambda>observer.
     bind (ask (\<lambda>s. stack (registries s r))) (\<lambda>open.
       if open \<noteq> [] then begin_nested c observer r else begin_top_level c observer r)))))"

definition recover_after_control_failure :: "'w driver \<Rightarrow> nat \<Rightarrow> exn \<Rightarrow> ('w world, 'a) action" where
  "recover_after_control_failure c t operation_error = bind (ask (\<lambda>s. transactions s t)) (\<lambda>x.
     bind (act (invalidate_all (state_of x))) (\<lambda>_.
     bind (bind (run_control c (transaction_observer x) ''rollback'' (execute_control c ''rollback''))
         (\<lambda>started. observe c (transaction_observer x) ''rollback'' [] started (Some 0) None))
       (\<lambda>_. raise operation_error)))"

definition commit_transaction :: "'w driver \<Rightarrow> nat \<Rightarrow> ('w world, unit) action" where
  "commit_transaction c t = bind (ensure_usable (Transaction t)) (\<lambda>_.
     bind (ask (\<lambda>s. transactions s t)) (\<lambda>x.
     bind (act (invalidate_after (state_of x) (TransactionEntry t))) (\<lambda>_.
     let text = (case generated_name x of None \<Rightarrow> ''commit'' | Some name \<Rightarrow> ''release savepoint '' @ name);
         operation = (case generated_name x of None \<Rightarrow> top_level_control c text
           | Some _ \<Rightarrow> bind (execute_control c text) (\<lambda>_. ret ()))
     in try_else (run_control c (transaction_observer x) text operation)
         (recover_after_control_failure c t)
         (\<lambda>started. bind (act (close_transaction t))
           (\<lambda>_. observe c (transaction_observer x) text [] started (Some 0) None)))))"

text \<open>
  The second half of a nested rollback.  \<open>first\<close> is what observing the \<open>rollback to\<close> gave: its exception
  is kept while the savepoint is released, and wins over a later one of the observer.
\<close>

definition release_rolled_back :: "'w driver \<Rightarrow> nat \<Rightarrow> nat option \<Rightarrow> string \<Rightarrow> unit result \<Rightarrow> ('w world, unit) action" where
  "release_rolled_back c t observer text first =
     try_else (run_control c observer text (execute_control c text))
       (recover_after_control_failure c t)
       (\<lambda>started. bind (act (close_transaction t)) (\<lambda>_.
         bind (outcome (observe c observer text [] started (Some 0) None))
           (\<lambda>second. pure (case first of Inl e \<Rightarrow> Inl e | Inr _ \<Rightarrow> second))))"

definition rollback_transaction :: "'w driver \<Rightarrow> nat \<Rightarrow> ('w world, unit) action" where
  "rollback_transaction c t = bind (ensure_usable (Transaction t)) (\<lambda>_.
     bind (ask (\<lambda>s. transactions s t)) (\<lambda>x.
     bind (act (invalidate_after (state_of x) (TransactionEntry t))) (\<lambda>_.
     case generated_name x of
       None \<Rightarrow> try_else (run_control c (transaction_observer x) ''rollback'' (top_level_control c ''rollback''))
         (recover_after_control_failure c t)
         (\<lambda>started. bind (act (close_transaction t))
           (\<lambda>_. observe c (transaction_observer x) ''rollback'' [] started (Some 0) None))
     | Some name \<Rightarrow> try_else
         (run_control c (transaction_observer x) (''rollback to savepoint '' @ name)
           (execute_control c (''rollback to savepoint '' @ name)))
         (recover_after_control_failure c t)
         (\<lambda>started. bind (outcome (observe c (transaction_observer x) (''rollback to savepoint '' @ name) [] started
             (Some 0) None))
           (release_rolled_back c t (transaction_observer x) (''release savepoint '' @ name))))))"

text \<open>
  \<open>with database.transaction() as handle: body\<close>.  The body is what the program does with the handle.
\<close>

definition with_transaction :: "'w driver \<Rightarrow> handle \<Rightarrow> (nat \<Rightarrow> ('w world, 'a) action) \<Rightarrow> ('w world, 'a) action" where
  "with_transaction c h body = bind (begin_transaction c h) (\<lambda>t.
     try_else (body t)
       (\<lambda>e. bind (on_error (rollback_transaction c t)
           (\<lambda>e'. case e' of TransactionUnavailableError _ \<Rightarrow> ret () | _ \<Rightarrow> raise e')) (\<lambda>_. raise e))
       (\<lambda>x. bind (commit_transaction c t) (\<lambda>_. ret x)))"

section \<open>Savepoints\<close>

definition create_savepoint :: "'w driver \<Rightarrow> nat \<Rightarrow> string \<Rightarrow> ('w world, nat) action" where
  "create_savepoint c t name = bind (ensure_usable (Transaction t)) (\<lambda>_.
     bind (ask (\<lambda>s. transactions s t)) (\<lambda>x.
     bind (pure (quote_savepoint name)) (\<lambda>quoted.
     bind (reserve_savepoint_name (state_of x) quoted) (\<lambda>_.
     bind (on_error (run_control c (transaction_observer x) (''savepoint '' @ quoted)
           (execute_control c (''savepoint '' @ quoted)))
         (\<lambda>e. bind (act (release_savepoint_names (state_of x) {quoted})) (\<lambda>_. raise e))) (\<lambda>started.
     bind (ask savepoint_count) (\<lambda>p.
     bind (act (\<lambda>s. register_savepoint (state_of x) p (update_transaction t
         (\<lambda>y. y\<lparr>own_names := insert quoted (own_names y), own_savepoints := own_savepoints y @ [p]\<rparr>)
         (s\<lparr>savepoint_count := Suc p, savepoints := (savepoints s)(p :=
           \<lparr>owner = t, quoted_name = quoted, released = False, invalidated = False\<rparr>)\<rparr>)))) (\<lambda>_.
     on_error (bind (observe c (transaction_observer x) (''savepoint '' @ quoted) [] started (Some 0) None) (\<lambda>_. ret p))
       (\<lambda>e. bind (act (invalidate_savepoint p)) (\<lambda>_.
         bind (quietly (execute_control c (''release savepoint '' @ quoted))) (\<lambda>_. raise e))))))))))"

definition ensure_usable_savepoint :: "nat \<Rightarrow> ('w world, unit) action" where
  "ensure_usable_savepoint p = bind (ask (\<lambda>s. savepoints s p)) (\<lambda>x.
     bind (ensure_usable (Transaction (owner x))) (\<lambda>_.
       pure (raise_if (released x \<or> invalidated x) (TransactionUnavailableError ''savepoint is no longer usable''))))"

definition savepoint_failed :: "'w driver \<Rightarrow> nat \<Rightarrow> exn \<Rightarrow> ('w world, unit) action" where
  "savepoint_failed c p e = bind (ask (\<lambda>s. owner (savepoints s p))) (\<lambda>t.
     bind (act (\<lambda>s. invalidate_savepoint p (invalidate_after (state_of (transactions s t)) (SavepointEntry p) s)))
       (\<lambda>_. recover_after_control_failure c t e))"

definition release_savepoint :: "'w driver \<Rightarrow> nat \<Rightarrow> ('w world, unit) action" where
  "release_savepoint c p = bind (ensure_usable_savepoint p) (\<lambda>_.
     bind (ask (\<lambda>s. savepoints s p)) (\<lambda>x.
     bind (ask (\<lambda>s. transaction_observer (transactions s (owner x)))) (\<lambda>observer.
     let text = ''release savepoint '' @ quoted_name x in
     try_else (run_control c observer text (execute_control c text))
       (savepoint_failed c p)
       (\<lambda>started. bind (act (\<lambda>s. update_savepoint p (\<lambda>y. y\<lparr>released := True\<rparr>)
           (release_savepoint_object (owner x) p s)))
         (\<lambda>_. observe c observer text [] started (Some 0) None)))))"

definition rollback_savepoint :: "'w driver \<Rightarrow> nat \<Rightarrow> ('w world, unit) action" where
  "rollback_savepoint c p = bind (ensure_usable_savepoint p) (\<lambda>_.
     bind (ask (\<lambda>s. savepoints s p)) (\<lambda>x.
     bind (ask (\<lambda>s. transaction_observer (transactions s (owner x)))) (\<lambda>observer.
     let text = ''rollback to savepoint '' @ quoted_name x in
     try_else (run_control c observer text (execute_control c text))
       (savepoint_failed c p)
       (\<lambda>started. bind (act (\<lambda>s. invalidate_after (state_of (transactions s (owner x))) (SavepointEntry p) s))
         (\<lambda>_. observe c observer text [] started (Some 0) None)))))"

section \<open>Queries\<close>

definition compile_any :: "any_query \<Rightarrow> compiled_query result" where
  "compile_any query = compile_sqlite (state_node (extract_query query))"

text \<open>
  The frame of every query method: the work between the clock and the event.  \<open>work\<close> returns the
  result with the row count of the event.
\<close>

definition observed ::
  "'w driver \<Rightarrow> handle \<Rightarrow> compiled_query \<Rightarrow> ('w world, 'a \<times> int) action \<Rightarrow> ('w world, 'a) action" where
  "observed c h compiled work = bind (ask (\<lambda>s. perf_counter c (env s))) (\<lambda>started.
     bind (ask (observer_of h)) (\<lambda>observer.
     try_else work
       (\<lambda>e. bind (observe c observer (sql compiled) (parameters compiled) started None (Some e)) (\<lambda>_. raise e))
       (\<lambda>(result, count). bind (observe c observer (sql compiled) (parameters compiled) started (Some count) None)
         (\<lambda>_. ret result))))"

definition send :: "'w driver \<Rightarrow> compiled_query \<Rightarrow> ('w world, nat) action" where
  "send c compiled = outside (execute_sql c (sql compiled) (parameters compiled))"

definition fetch_all :: "'w driver \<Rightarrow> handle \<Rightarrow> any_query \<Rightarrow> ('w world, mapped list) action" where
  "fetch_all c h query = bind (ensure_usable h) (\<lambda>_. bind (pure (compile_any query)) (\<lambda>compiled.
     observed c h compiled (bind (send c compiled) (\<lambda>cursor. bind (outside (fetchall c cursor)) (\<lambda>rows.
       bind (pure (map_all query rows)) (\<lambda>result. ret (result, int (length rows))))))))"

definition fetch_one :: "'w driver \<Rightarrow> handle \<Rightarrow> any_query \<Rightarrow> ('w world, mapped option) action" where
  "fetch_one c h query = bind (ensure_usable h) (\<lambda>_. bind (pure (compile_any query)) (\<lambda>compiled.
     observed c h compiled (bind (send c compiled) (\<lambda>cursor. bind (outside (fetchone c cursor)) (\<lambda>row.
       bind (pure (map_one query row)) (\<lambda>result. ret (result, if row = None then 0 else 1)))))))"

definition reject_adapter :: "any_query \<Rightarrow> string \<Rightarrow> unit result" where
  "reject_adapter query method = raise_if (state_adapter (extract_query query) \<noteq> None)
     (TypeError ''query already declares a result model'' [method])"

definition fetch_all_as :: "'w driver \<Rightarrow> handle \<Rightarrow> any_query \<Rightarrow> row_adapter \<Rightarrow> ('w world, mapped list) action" where
  "fetch_all_as c h query adapter = bind (ensure_usable h) (\<lambda>_.
     bind (pure (reject_adapter query ''fetch_all'')) (\<lambda>_. bind (pure (compile_any query)) (\<lambda>compiled.
     observed c h compiled (bind (send c compiled) (\<lambda>cursor. bind (outside (fetchall c cursor)) (\<lambda>rows.
       bind (pure (map_results (\<lambda>row. and_then (adapter_map adapter row) (\<lambda>m. Inr (ModelRow m))) rows))
         (\<lambda>result. ret (result, int (length rows)))))))))"

definition fetch_one_as :: "'w driver \<Rightarrow> handle \<Rightarrow> any_query \<Rightarrow> row_adapter \<Rightarrow> ('w world, mapped option) action" where
  "fetch_one_as c h query adapter = bind (ensure_usable h) (\<lambda>_.
     bind (pure (reject_adapter query ''fetch_one'')) (\<lambda>_. bind (pure (compile_any query)) (\<lambda>compiled.
     observed c h compiled (bind (send c compiled) (\<lambda>cursor. bind (outside (fetchone c cursor)) (\<lambda>row.
       bind (pure (case row of None \<Rightarrow> Inr None
           | Some r \<Rightarrow> and_then (adapter_map adapter r) (\<lambda>m. Inr (Some (ModelRow m)))))
         (\<lambda>result. ret (result, if row = None then 0 else 1))))))))"

text \<open>\<open>result is None\<close> also for a model that is \<open>None\<close>.\<close>

definition or_raise :: "exn option \<Rightarrow> mapped option \<Rightarrow> mapped result" where
  "or_raise error result = (case result of
       None \<Rightarrow> raise_no_result error
     | Some m \<Rightarrow> if m = ModelRow NoneValue then raise_no_result error else Inr m)"

definition fetch_one_or_raise ::
  "'w driver \<Rightarrow> handle \<Rightarrow> any_query \<Rightarrow> exn option \<Rightarrow> ('w world, mapped) action" where
  "fetch_one_or_raise c h query error = bind (fetch_one c h query) (\<lambda>result. pure (or_raise error result))"

definition fetch_one_as_or_raise ::
  "'w driver \<Rightarrow> handle \<Rightarrow> any_query \<Rightarrow> row_adapter \<Rightarrow> exn option \<Rightarrow> ('w world, mapped) action" where
  "fetch_one_as_or_raise c h query adapter error =
     bind (fetch_one_as c h query adapter) (\<lambda>result. pure (or_raise error result))"

definition execute_command :: "'w driver \<Rightarrow> handle \<Rightarrow> any_query \<Rightarrow> ('w world, int) action" where
  "execute_command c h query = bind (ensure_usable h) (\<lambda>_.
     bind (pure (require_command query)) (\<lambda>_. bind (pure (compile_any query)) (\<lambda>compiled.
     observed c h compiled (bind (send c compiled)
       (\<lambda>cursor. bind (ask (\<lambda>s. rowcount c cursor (env s))) (\<lambda>count. ret (count, count)))))))"

end
