(* ===== verification/Sqlite_Registry.thy ===== *)
theory Sqlite_Registry
  imports Sqlite
begin

text \<open>
  The invariant of the transaction registry of \<open>Sqlite\<close> and what closing and invalidating objects does
  to it.  Every change that takes objects away is one fact, \<open>dropped D\<close>: the objects of \<open>D\<close> become
  inactive and leave the registry, and nothing else changes.
\<close>

section \<open>What is active\<close>

definition active_transaction :: "'w world \<Rightarrow> nat \<Rightarrow> bool" where
  "active_transaction s t \<longleftrightarrow> t < transaction_count s \<and> \<not> closed_flag (transactions s t)"

definition active_savepoint :: "'w world \<Rightarrow> nat \<Rightarrow> bool" where
  "active_savepoint s p \<longleftrightarrow> p < savepoint_count s \<and> \<not> released (savepoints s p) \<and> \<not> invalidated (savepoints s p)"

fun entry_active :: "'w world \<Rightarrow> entry \<Rightarrow> bool" where
  "entry_active s (TransactionEntry t) = active_transaction s t"
| "entry_active s (SavepointEntry p) = active_savepoint s p"

definition entries_of :: "'w world \<Rightarrow> entry list" where
  "entries_of s = (case current s of None \<Rightarrow> [] | Some r \<Rightarrow> entries (registries s r))"

fun entry_name :: "'w world \<Rightarrow> entry \<Rightarrow> string option" where
  "entry_name s (TransactionEntry t) = generated_name (transactions s t)"
| "entry_name s (SavepointEntry p) = Some (quoted_name (savepoints s p))"

definition entry_keys :: "'w world \<Rightarrow> entry list \<Rightarrow> string list" where
  "entry_keys s es = map savepoint_name_key (present (map (entry_name s) es))"

fun transaction_of :: "entry \<Rightarrow> nat option" where
  "transaction_of (TransactionEntry t) = Some t"
| "transaction_of (SavepointEntry p) = None"

section \<open>The invariant of the registry\<close>

fun owners_precede :: "(nat \<Rightarrow> nat) \<Rightarrow> nat set \<Rightarrow> entry list \<Rightarrow> bool" where
  "owners_precede own seen [] = True"
| "owners_precede own seen (TransactionEntry t # es) = owners_precede own (insert t seen) es"
| "owners_precede own seen (SavepointEntry p # es) = (own p \<in> seen \<and> owners_precede own seen es)"

text \<open>
  The current registry lists exactly the active objects, each transaction before its savepoints; its
  stack and its names are those of the entries; an active transaction refers to it and knows its own
  savepoints and names.
\<close>

definition consistent :: "'w world \<Rightarrow> bool" where
  "consistent s \<longleftrightarrow>
     (\<forall>r. current s = Some r \<longrightarrow> r < registry_count s
        \<and> stack (registries s r) = present (map transaction_of (entries_of s))
        \<and> savepoint_names (registries s r) = set (entry_keys s (entries_of s)))
     \<and> distinct (entries_of s) \<and> distinct (entry_keys s (entries_of s))
     \<and> (\<forall>e. e \<in> set (entries_of s) \<longleftrightarrow> entry_active s e)
     \<and> (\<forall>t. active_transaction s t \<longrightarrow> current s = Some (state_of (transactions s t))
          \<and> distinct (own_savepoints (transactions s t))
          \<and> set (own_savepoints (transactions s t)) = {p. active_savepoint s p \<and> owner (savepoints s p) = t}
          \<and> own_names (transactions s t) = set_option (generated_name (transactions s t))
              \<union> quoted_name ` savepoints s ` {p. active_savepoint s p \<and> owner (savepoints s p) = t})
     \<and> owners_precede (\<lambda>p. owner (savepoints s p)) {} (entries_of s)"

text \<open>Only the oldest entry is a transaction without a savepoint of its own.\<close>

definition rooted :: "'w world \<Rightarrow> bool" where
  "rooted s \<longleftrightarrow> (case entries_of s of [] \<Rightarrow> True
     | e # es \<Rightarrow> entry_name s e = None \<and> (\<forall>e' \<in> set es. entry_name s e' \<noteq> None))"

text \<open>What closing objects leaves as it was, and what it makes of the entries: those in \<open>D\<close> go.\<close>

definition dropped :: "entry set \<Rightarrow> 'w world \<Rightarrow> 'w world \<Rightarrow> bool" where
  "dropped D s s' \<longleftrightarrow> consistent s'
     \<and> env s' = env s \<and> sequence s' = sequence s \<and> registry_count s' = registry_count s
     \<and> transaction_count s' = transaction_count s \<and> savepoint_count s' = savepoint_count s
     \<and> (\<forall>t. state_of (transactions s' t) = state_of (transactions s t)
          \<and> transaction_observer (transactions s' t) = transaction_observer (transactions s t)
          \<and> generated_name (transactions s' t) = generated_name (transactions s t))
     \<and> (\<forall>p. owner (savepoints s' p) = owner (savepoints s p) \<and> quoted_name (savepoints s' p) = quoted_name (savepoints s p))
     \<and> (\<forall>e. entry_active s' e \<longleftrightarrow> entry_active s e \<and> e \<notin> D)
     \<and> entries_of s' = filter (\<lambda>e. e \<notin> D) (entries_of s)"

lemma dropped_consistent: "dropped D s s' \<Longrightarrow> consistent s'"
  by (simp add: dropped_def)

lemma dropped_nothing:
  assumes "consistent s" "\<And>e. e \<in> D \<Longrightarrow> \<not> entry_active s e"
  shows "dropped D s s"
proof -
  have "filter (\<lambda>e. e \<notin> D) (entries_of s) = entries_of s"
    using assms by (intro filter_True) (auto simp: consistent_def)
  then show ?thesis using assms by (auto simp: dropped_def)
qed

lemma dropped_trans:
  assumes "dropped D s s'" "dropped E s' s''"
  shows "dropped (D \<union> E) s s''"
proof -
  have "filter (\<lambda>e. e \<notin> E) (filter (\<lambda>e. e \<notin> D) (entries_of s)) = filter (\<lambda>e. e \<notin> D \<union> E) (entries_of s)"
    by (simp add: conj_commute)
  then show ?thesis using assms unfolding dropped_def by (auto simp del: filter_filter)
qed

lemma entry_keys_simps [simp]:
  "entry_keys s [] = []" "entry_keys s (es @ es') = entry_keys s es @ entry_keys s es'"
  by (simp_all add: entry_keys_def)

lemma entry_keys_Cons:
  "entry_keys s (e # es) = (case entry_name s e of None \<Rightarrow> entry_keys s es
     | Some name \<Rightarrow> savepoint_name_key name # entry_keys s es)"
  by (simp add: entry_keys_def split: option.splits)

lemma set_entry_keys: "set (entry_keys s es) = {savepoint_name_key n | n e. e \<in> set es \<and> entry_name s e = Some n}"
  by (induction es) (auto simp: entry_keys_Cons split: option.splits)

lemma distinct_entry_keys_filter:
  "distinct (entry_keys s es) \<Longrightarrow> distinct (entry_keys s (filter P es))"
  by (induction es) (auto simp: entry_keys_Cons set_entry_keys split: option.splits)

lemma entry_keys_inj:
  assumes "distinct (entry_keys s es)" "e \<in> set es" "e' \<in> set es" "e \<noteq> e'"
    and "entry_name s e = Some n" "entry_name s e' = Some n'"
  shows "savepoint_name_key n \<noteq> savepoint_name_key n'"
  using assms by (induction es) (auto simp: entry_keys_Cons set_entry_keys split: option.splits)

lemma entry_keys_cong:
  "(\<And>e. e \<in> set es \<Longrightarrow> entry_name s' e = entry_name s e) \<Longrightarrow> entry_keys s' es = entry_keys s es"
  by (simp add: entry_keys_def cong: map_cong)

lemma owners_precede_append [simp]:
  "owners_precede own seen (es @ es') \<longleftrightarrow>
     owners_precede own seen es \<and> owners_precede own (seen \<union> {t. TransactionEntry t \<in> set es}) es'"
proof (induction own seen es rule: owners_precede.induct)
  case (2 own seen t es)
  have "insert t seen \<union> {u. TransactionEntry u \<in> set es} = seen \<union> {u. TransactionEntry u \<in> set (TransactionEntry t # es)}"
    by auto
  with 2 show ?case by simp
qed simp_all

lemma owners_precede_owner:
  "owners_precede own seen es \<Longrightarrow> SavepointEntry p \<in> set es \<Longrightarrow> own p \<in> seen \<or> TransactionEntry (own p) \<in> set es"
  by (induction own seen es rule: owners_precede.induct) auto

lemma owners_precede_filter:
  assumes "owners_precede own seen es" "\<And>p. SavepointEntry p \<in> set es \<Longrightarrow> P (SavepointEntry p) \<Longrightarrow> P (TransactionEntry (own p))"
  shows "owners_precede own {t \<in> seen. P (TransactionEntry t)} (filter P es)"
  using assms
proof (induction own seen es rule: owners_precede.induct)
  case (2 own seen t es)
  moreover have "{u \<in> insert t seen. P (TransactionEntry u)} =
      (if P (TransactionEntry t) then insert t {u \<in> seen. P (TransactionEntry u)} else {u \<in> seen. P (TransactionEntry u)})"
    by auto
  ultimately show ?case by auto
qed auto

lemma owners_precede_cong:
  "owners_precede own seen es \<Longrightarrow> (\<And>p. SavepointEntry p \<in> set es \<Longrightarrow> own' p = own p) \<Longrightarrow> owners_precede own' seen es"
  by (induction own seen es rule: owners_precede.induct) auto

lemma stack_filter:
  "present (map transaction_of (filter P es)) = filter (\<lambda>t. P (TransactionEntry t)) (present (map transaction_of es))"
proof (induction es)
  case (Cons e es)
  then show ?case by (cases e) auto
qed simp

lemma stack_set: "set (present (map transaction_of es)) = {t. TransactionEntry t \<in> set es}"
proof (induction es)
  case (Cons e es)
  then show ?case by (cases e) (auto simp del: set_present)
qed simp

lemma stack_distinct: "distinct es \<Longrightarrow> distinct (present (map transaction_of es))"
proof (induction es)
  case (Cons e es)
  then show ?case by (cases e) (auto simp del: set_present simp: stack_set)
qed simp

section \<open>Closing one object\<close>

lemmas update_defs' = update_registry_def update_transaction_def update_savepoint_def

lemma updated_transaction [simp]:
  "transactions (update_transaction t f s) t = f (transactions s t)"
  by (simp add: update_transaction_def)

lemma consistent_active:
  assumes "consistent s" "active_transaction s t"
  shows "current s = Some (state_of (transactions s t))" "TransactionEntry t \<in> set (entries_of s)"
    "entries_of s = entries (registries s (state_of (transactions s t)))"
    "distinct (own_savepoints (transactions s t))"
    "set (own_savepoints (transactions s t)) = {p. active_savepoint s p \<and> owner (savepoints s p) = t}"
proof -
  show "current s = Some (state_of (transactions s t))" using assms by (simp add: consistent_def)
  then show "entries_of s = entries (registries s (state_of (transactions s t)))" by (simp add: entries_of_def)
  show "TransactionEntry t \<in> set (entries_of s)" using assms by (simp add: consistent_def)
qed (use assms in \<open>simp_all add: consistent_def\<close>)

lemma consistent_owner:
  assumes "consistent s" "active_savepoint s p"
  shows "SavepointEntry p \<in> set (entries_of s)" "active_transaction s (owner (savepoints s p))"
proof -
  show p: "SavepointEntry p \<in> set (entries_of s)" using assms by (simp add: consistent_def)
  have "owners_precede (\<lambda>p. owner (savepoints s p)) {} (entries_of s)" using assms by (simp add: consistent_def)
  from owners_precede_owner [OF this p] have "TransactionEntry (owner (savepoints s p)) \<in> set (entries_of s)" by simp
  then show "active_transaction s (owner (savepoints s p))" using assms by (simp add: consistent_def)
qed

text \<open>An update of the state that takes one active object away, without savepoints if it is a transaction.\<close>

definition removes :: "entry \<Rightarrow> 'w world \<Rightarrow> 'w world \<Rightarrow> bool" where
  "removes e s s' \<longleftrightarrow> (\<exists>r. current s = Some r \<and> current s' = Some r
       \<and> entries (registries s' r) = remove1 e (entries (registries s r))
       \<and> stack (registries s' r) = (case e of TransactionEntry t \<Rightarrow> remove1 t (stack (registries s r))
           | SavepointEntry p \<Rightarrow> stack (registries s r))
       \<and> savepoint_names (registries s' r) = savepoint_names (registries s r) - savepoint_name_key ` set_option (entry_name s e))
     \<and> env s' = env s \<and> sequence s' = sequence s \<and> registry_count s' = registry_count s
     \<and> transaction_count s' = transaction_count s \<and> savepoint_count s' = savepoint_count s
     \<and> (\<forall>t. state_of (transactions s' t) = state_of (transactions s t)
          \<and> transaction_observer (transactions s' t) = transaction_observer (transactions s t)
          \<and> generated_name (transactions s' t) = generated_name (transactions s t)
          \<and> (active_transaction s t \<and> e \<noteq> TransactionEntry t \<longrightarrow>
               own_savepoints (transactions s' t) = filter (\<lambda>p. SavepointEntry p \<noteq> e) (own_savepoints (transactions s t))
               \<and> own_names (transactions s' t) = own_names (transactions s t)
                   - {quoted_name (savepoints s p) | p. e = SavepointEntry p \<and> owner (savepoints s p) = t}))
     \<and> (\<forall>p. owner (savepoints s' p) = owner (savepoints s p) \<and> quoted_name (savepoints s' p) = quoted_name (savepoints s p))
     \<and> (\<forall>e'. entry_active s' e' \<longleftrightarrow> entry_active s e' \<and> e' \<noteq> e)"

lemma removes_entries:
  assumes c: "consistent s" and e: "entry_active s e" and rem: "removes e s s'"
  shows "entries_of s' = filter (\<lambda>e'. e' \<notin> {e}) (entries_of s)"
    and "entry_keys s' es = entry_keys s es"
    and "set (entry_keys s (entries_of s')) = set (entry_keys s (entries_of s)) - savepoint_name_key ` set_option (entry_name s e)"
proof -
  from rem obtain r where "current s = Some r" "current s' = Some r"
    "entries (registries s' r) = remove1 e (entries (registries s r))" by (auto simp: removes_def)
  moreover have "distinct (entries_of s)" and mem: "e \<in> set (entries_of s)" using c e by (simp_all add: consistent_def)
  moreover have "filter (\<lambda>e'. e \<noteq> e') es = filter (\<lambda>e'. e' \<noteq> e) es" for es by (metis (no_types))
  ultimately show ent: "entries_of s' = filter (\<lambda>e'. e' \<notin> {e}) (entries_of s)"
    by (simp add: entries_of_def distinct_remove1_removeAll removeAll_filter_not_eq)
  show "entry_keys s' es = entry_keys s es"
  proof (rule entry_keys_cong)
    show "entry_name s' e' = entry_name s e'" for e' using rem by (cases e') (simp_all add: removes_def)
  qed
  have "distinct (entry_keys s (entries_of s))" using c by (simp add: consistent_def)
  from entry_keys_inj [OF this _ mem]
  show "set (entry_keys s (entries_of s')) = set (entry_keys s (entries_of s)) - savepoint_name_key ` set_option (entry_name s e)"
    by (auto simp: set_entry_keys ent elim!: option.set_cases) (metis imageI option.set_intros)
qed

lemma removes_children:
  assumes c: "consistent s" and e: "entry_active s e" and rem: "removes e s s'"
    and t: "active_transaction s' t"
  shows "distinct (own_savepoints (transactions s' t))
      \<and> set (own_savepoints (transactions s' t)) = {p. active_savepoint s' p \<and> owner (savepoints s' p) = t}
      \<and> own_names (transactions s' t) = set_option (generated_name (transactions s' t))
         \<union> quoted_name ` savepoints s' ` {p. active_savepoint s' p \<and> owner (savepoints s' p) = t}"
proof -
  have act: "\<And>e'. entry_active s' e' \<longleftrightarrow> entry_active s e' \<and> e' \<noteq> e" using rem by (simp add: removes_def)
  have told: "active_transaction s t" "e \<noteq> TransactionEntry t" using t act [of "TransactionEntry t"] by auto
  have old: "distinct (own_savepoints (transactions s t))"
    "set (own_savepoints (transactions s t)) = {p. active_savepoint s p \<and> owner (savepoints s p) = t}"
    "own_names (transactions s t) = set_option (generated_name (transactions s t))
       \<union> quoted_name ` savepoints s ` {p. active_savepoint s p \<and> owner (savepoints s p) = t}"
    using c told(1) unfolding consistent_def by simp_all
  have new: "own_savepoints (transactions s' t) = filter (\<lambda>p. SavepointEntry p \<noteq> e) (own_savepoints (transactions s t))"
    "own_names (transactions s' t) = own_names (transactions s t)
       - {quoted_name (savepoints s p) | p. e = SavepointEntry p \<and> owner (savepoints s p) = t}"
    "generated_name (transactions s' t) = generated_name (transactions s t)"
    "\<And>p. owner (savepoints s' p) = owner (savepoints s p)" "\<And>p. quoted_name (savepoints s' p) = quoted_name (savepoints s p)"
    using rem told by (simp_all add: removes_def)
  have sp: "active_savepoint s' p \<longleftrightarrow> active_savepoint s p \<and> SavepointEntry p \<noteq> e" for p
    using act [of "SavepointEntry p"] by simp
  have mem: "e \<in> set (entries_of s)" "TransactionEntry t \<in> set (entries_of s)" and keys: "distinct (entry_keys s (entries_of s))"
    using c e told(1) by (simp_all add: consistent_def)
  have other: "SavepointEntry p = e" if "active_savepoint s p" "e = SavepointEntry q" "quoted_name (savepoints s p) = quoted_name (savepoints s q)" for p q
    using entry_keys_inj [OF keys consistent_owner(1) [OF c that(1)] mem(1)] that(2,3) by auto
  have gen: "generated_name (transactions s t) \<noteq> Some (quoted_name (savepoints s q))" if "e = SavepointEntry q" for q
    using entry_keys_inj [OF keys mem(2,1)] that by auto
  have "own_names (transactions s' t) = set_option (generated_name (transactions s t))
      \<union> quoted_name ` savepoints s ` {p. active_savepoint s' p \<and> owner (savepoints s p) = t}"
    unfolding new old(3) using other gen by (cases e) (auto simp: sp image_iff elim!: option.set_cases)
  then show ?thesis
    using old(1,2) new by (auto simp: sp image_image)
qed

lemma removes_dropped:
  assumes c: "consistent s" and e: "entry_active s e" and rem: "removes e s s'"
    and childless: "\<And>p t. e = TransactionEntry t \<Longrightarrow> active_savepoint s p \<Longrightarrow> owner (savepoints s p) \<noteq> t"
  shows "dropped {e} s s'"
proof -
  note ent = removes_entries [OF c e rem]
  have frame: "\<And>p. owner (savepoints s' p) = owner (savepoints s p)" "\<And>e'. entry_active s' e' \<longleftrightarrow> entry_active s e' \<and> e' \<noteq> e"
    using rem by (simp_all add: removes_def)
  have dist: "distinct (entries_of s)" using c by (simp add: consistent_def)
  have "owners_precede (\<lambda>p. owner (savepoints s p)) {} (filter (\<lambda>e'. e' \<notin> {e}) (entries_of s))"
    using c childless owners_precede_filter [of "\<lambda>p. owner (savepoints s p)" "{}" "entries_of s" "\<lambda>e'. e' \<notin> {e}"]
    by (auto simp: consistent_def)
  then have order: "owners_precede (\<lambda>p. owner (savepoints s' p)) {} (entries_of s')" by (simp add: ent(1) frame)
  have reg: "u < registry_count s' \<and> stack (registries s' u) = present (map transaction_of (entries_of s'))
      \<and> savepoint_names (registries s' u) = set (entry_keys s' (entries_of s'))" if u: "current s' = Some u" for u
  proof -
    have "u < registry_count s" and st: "stack (registries s u) = present (map transaction_of (entries_of s))"
      and "savepoint_names (registries s u) = set (entry_keys s (entries_of s))"
      using c rem u by (auto simp: consistent_def removes_def)
    moreover have "filter (\<lambda>u. u \<noteq> t) xs = remove1 t xs" if "distinct xs" for t :: nat and xs
      using that by (simp add: distinct_remove1_removeAll removeAll_filter_not_eq) (metis (no_types))
    then have "(case e of TransactionEntry t \<Rightarrow> remove1 t (stack (registries s u)) | SavepointEntry p \<Rightarrow> stack (registries s u))
        = present (map transaction_of (entries_of s'))"
      unfolding ent(1) stack_filter st using stack_distinct [OF dist]
      by (cases e) (simp_all add: filter_id_conv)
    ultimately show ?thesis using rem u unfolding ent(2,3) by (auto simp: removes_def)
  qed
  have trans: "current s' = Some (state_of (transactions s' t))" if "active_transaction s' t" for t
  proof -
    have "active_transaction s t" using that frame(2) [of "TransactionEntry t"] by simp
    then show ?thesis using consistent_active(1) [OF c] rem by (auto simp: removes_def)
  qed
  have "consistent s'"
    unfolding consistent_def using reg trans removes_children [OF c e rem] order dist c
    by (simp add: ent frame) (simp add: consistent_def distinct_entry_keys_filter)
  then show ?thesis
    unfolding dropped_def ent(1) using rem by (auto simp: removes_def)
qed

text \<open>The two removals of the code.\<close>

lemma savepoint_dropped:
  assumes c: "consistent s" and p: "active_savepoint s p"
    and f: "\<And>x. owner (f x) = owner x \<and> quoted_name (f x) = quoted_name x \<and> (released (f x) \<or> invalidated (f x))"
  shows "dropped {SavepointEntry p} s (update_savepoint p f (forget_savepoint (owner (savepoints s p)) p s))"
    (is "dropped _ s ?s")
proof (rule removes_dropped [OF c])
  define t where "t = owner (savepoints s p)"
  have t: "active_transaction s t" using consistent_owner [OF c p] by (simp add: t_def)
  note ct = consistent_active [OF c t]
  have "entry_active ?s e \<longleftrightarrow> entry_active s e \<and> e \<noteq> SavepointEntry p" for e
    using f [of "savepoints s p"]
    by (cases e) (auto simp: forget_savepoint_def update_defs' remove_entry_def release_savepoint_names_def Let_def
      active_transaction_def active_savepoint_def)
  moreover have "own_savepoints (transactions s u) = filter (\<lambda>q. q \<noteq> p) (own_savepoints (transactions s u))"
    if "active_transaction s u" "u \<noteq> t" for u
    using consistent_active(5) [OF c that(1)] that(2) by (intro filter_True [symmetric]) (auto simp: t_def)
  moreover have "remove1 p (own_savepoints (transactions s t)) = filter (\<lambda>q. q \<noteq> p) (own_savepoints (transactions s t))"
    using ct(4) by (simp add: distinct_remove1_removeAll removeAll_filter_not_eq) (metis (no_types))
  ultimately show "removes (SavepointEntry p) s ?s"
    using ct(1) f [of "savepoints s p"]
    by (auto simp: removes_def forget_savepoint_def update_defs' remove_entry_def release_savepoint_names_def Let_def t_def)
qed (use p in simp_all)

lemma discard_dropped:
  assumes "consistent s"
  shows "dropped {} s (discard_transaction_state r s)"
proof (cases "entries (registries s r) = [] \<and> current s = Some r")
  case True
  then have none: "\<not> entry_active s e" for e using assms by (auto simp: consistent_def entries_of_def)
  have eq: "discard_transaction_state r s = s\<lparr>current := None\<rparr>" using True by (simp add: discard_transaction_state_def)
  have act: "entry_active (s\<lparr>current := None\<rparr>) e = entry_active s e" for e
    by (cases e) (simp_all add: active_transaction_def active_savepoint_def)
  have "\<not> active_transaction (s\<lparr>current := None\<rparr>) t" for t
    using none [of "TransactionEntry t"] act [of "TransactionEntry t"] by simp
  then have "consistent (s\<lparr>current := None\<rparr>)"
    using none act by (simp add: consistent_def entries_of_def)
  then show ?thesis using True act unfolding eq by (simp add: dropped_def entries_of_def)
next
  case False
  then show ?thesis using dropped_nothing [OF assms, of "{}"] by (auto simp: discard_transaction_state_def)
qed

lemma invalidate_savepoint_dropped:
  assumes "consistent s" "p < savepoint_count s"
  shows "dropped {SavepointEntry p} s (invalidate_savepoint p s)"
proof (cases "active_savepoint s p")
  case True
  then show ?thesis
    using savepoint_dropped [OF assms(1) True, of "\<lambda>x. x\<lparr>invalidated := True\<rparr>"]
    by (simp add: invalidate_savepoint_def active_savepoint_def)
next
  case False
  then show ?thesis
    using assms dropped_nothing [OF assms(1), of "{SavepointEntry p}"]
    by (auto simp: invalidate_savepoint_def active_savepoint_def)
qed

lemma invalidate_savepoints_dropped:
  "consistent s \<Longrightarrow> \<forall>p \<in> set ps. p < savepoint_count s \<Longrightarrow>
     dropped (SavepointEntry ` set ps) s (fold invalidate_savepoint ps s)"
proof (induction ps arbitrary: s)
  case (Cons p ps)
  then have step: "dropped {SavepointEntry p} s (invalidate_savepoint p s)"
    by (simp add: invalidate_savepoint_dropped)
  then have "dropped (SavepointEntry ` set ps) (invalidate_savepoint p s) (fold invalidate_savepoint ps (invalidate_savepoint p s))"
    using Cons by (intro Cons.IH) (auto simp: dropped_def)
  from dropped_trans [OF step this] show ?case by simp
qed (auto intro: dropped_nothing)

definition family :: "'w world \<Rightarrow> nat \<Rightarrow> entry set" where
  "family s t = insert (TransactionEntry t) {SavepointEntry p | p. owner (savepoints s p) = t}"

lemma dropped_inactive:
  "dropped D s s' \<Longrightarrow> (\<And>e. e \<in> E \<Longrightarrow> entry_active s e \<Longrightarrow> e \<in> D) \<Longrightarrow> (D \<subseteq> E) \<Longrightarrow> consistent s \<Longrightarrow> dropped E s s'"
proof -
  assume d: "dropped D s s'" "\<And>e. e \<in> E \<Longrightarrow> entry_active s e \<Longrightarrow> e \<in> D" "D \<subseteq> E" "consistent s"
  then have "filter (\<lambda>e. e \<notin> D) (entries_of s) = filter (\<lambda>e. e \<notin> E) (entries_of s)"
    by (intro filter_cong) (auto simp: consistent_def)
  with d show "dropped E s s'" by (auto simp: dropped_def)
qed

lemma close_dropped:
  assumes c: "consistent s" and t: "active_transaction s t"
  shows "dropped (family s t) s (close_transaction t s)"
proof -
  define s1 where "s1 = fold invalidate_savepoint (own_savepoints (transactions s t)) s"
  define r where "r = state_of (transactions s1 t)"
  note ct = consistent_active [OF c t]
  have d1: "dropped (SavepointEntry ` set (own_savepoints (transactions s t))) s s1"
    unfolding s1_def using ct(5) by (intro invalidate_savepoints_dropped [OF c]) (auto simp: active_savepoint_def)
  then have c1: "consistent s1" and act: "\<And>e. entry_active s1 e \<longleftrightarrow> entry_active s e \<and> e \<notin> SavepointEntry ` set (own_savepoints (transactions s t))"
    and own: "\<And>p. owner (savepoints s1 p) = owner (savepoints s p)"
    by (simp_all add: dropped_def)
  have t1: "active_transaction s1 t" using act [of "TransactionEntry t"] t by auto
  have childless: "active_savepoint s1 p \<Longrightarrow> owner (savepoints s1 p) \<noteq> t" for p
    using act [of "SavepointEntry p"] ct(5) own by auto
  define s3 where "s3 = update_registry r (\<lambda>g. g\<lparr>stack := remove1 t (stack g)\<rparr>) (remove_entry r (TransactionEntry t)
    (update_transaction t (\<lambda>x. x\<lparr>closed_flag := True\<rparr>) (clear_savepoint_names t s)))"
  have s3: "s3 = s1\<lparr>transactions := (transactions s1)(t := (transactions s1 t)\<lparr>own_savepoints := [], own_names := {}, closed_flag := True\<rparr>),
      registries := (registries s1)(r := (registries s1 r)\<lparr>savepoint_names :=
          savepoint_names (registries s1 r) - savepoint_name_key ` own_names (transactions s1 t),
        entries := remove1 (TransactionEntry t) (entries (registries s1 r)),
        stack := remove1 t (stack (registries s1 r))\<rparr>)\<rparr>"
    by (simp add: s3_def clear_savepoint_names_def s1_def [symmetric] Let_def update_defs' remove_entry_def
      release_savepoint_names_def r_def)
  have names: "own_names (transactions s1 t) = set_option (generated_name (transactions s1 t))"
    using c1 t1 childless by (auto simp: consistent_def)
  have d3: "dropped {TransactionEntry t} s1 s3"
  proof (rule removes_dropped [OF c1])
    have "entry_active s3 e \<longleftrightarrow> entry_active s1 e \<and> e \<noteq> TransactionEntry t" for e
      by (cases e) (auto simp: s3 active_transaction_def active_savepoint_def)
    then show "removes (TransactionEntry t) s1 s3"
      using consistent_active(1) [OF c1 t1] names by (auto simp: removes_def s3 r_def)
  qed (use t1 childless in auto)
  have "state_of (transactions (clear_savepoint_names t s) t) = r"
    by (simp add: clear_savepoint_names_def s1_def [symmetric] Let_def update_defs' release_savepoint_names_def r_def)
  then have "close_transaction t s = discard_transaction_state r s3"
    unfolding close_transaction_def s3_def Let_def by simp
  with dropped_trans [OF dropped_trans [OF d1 d3] discard_dropped [OF dropped_consistent [OF d3], of r]]
  have "dropped (SavepointEntry ` set (own_savepoints (transactions s t)) \<union> {TransactionEntry t}) s (close_transaction t s)"
    by simp
  then show ?thesis
    using ct(5) by (rule_tac dropped_inactive [OF _ _ _ c]) (auto simp: family_def)
qed

section \<open>Invalidating a run of entries\<close>

lemma dropped_active:
  assumes "dropped D s s'"
  shows "active_transaction s' t \<longleftrightarrow> active_transaction s t \<and> TransactionEntry t \<notin> D"
    "active_savepoint s' p \<longleftrightarrow> active_savepoint s p \<and> SavepointEntry p \<notin> D"
proof -
  have "entry_active s' e \<longleftrightarrow> entry_active s e \<and> e \<notin> D" for e using assms by (simp add: dropped_def)
  from this [of "TransactionEntry t"] this [of "SavepointEntry p"] show
    "active_transaction s' t \<longleftrightarrow> active_transaction s t \<and> TransactionEntry t \<notin> D"
    "active_savepoint s' p \<longleftrightarrow> active_savepoint s p \<and> SavepointEntry p \<notin> D" by simp_all
qed

lemma family_dropped:
  assumes "dropped D s s'" shows "family s' t = family s t"
  using assms by (auto simp: family_def dropped_def)

definition covers :: "'w world \<Rightarrow> entry set \<Rightarrow> entry set" where
  "covers s E = E \<union> \<Union> (family s ` {t. TransactionEntry t \<in> E})"

lemma invalidate_entries_dropped:
  assumes "consistent s" "distinct es"
    and "\<forall>t. TransactionEntry t \<in> set es \<longrightarrow> active_transaction s t"
    and "\<forall>p. SavepointEntry p \<in> set es \<longrightarrow> p < savepoint_count s"
  shows "dropped (covers s (set es)) s (fold invalidate_entry es s)"
  using assms
proof (induction es arbitrary: s)
  case Nil
  then show ?case by (auto intro!: dropped_nothing simp: covers_def)
next
  case (Cons e es)
  obtain D where step: "dropped D s (invalidate_entry e s)" and D: "D = covers s {e}"
  proof (cases e)
    case (TransactionEntry t)
    with Cons.prems close_dropped [of s t] that [of "family s t"] show thesis
      by (simp add: covers_def family_def)
  next
    case (SavepointEntry p)
    with Cons.prems invalidate_savepoint_dropped [of s p] that [of "{e}"] show thesis by (simp add: covers_def)
  qed
  have "active_transaction (invalidate_entry e s) t" if "TransactionEntry t \<in> set es" for t
  proof -
    have "TransactionEntry t \<notin> D" using that Cons.prems(2) by (cases e) (auto simp: D covers_def family_def)
    moreover have "active_transaction s t" using that Cons.prems(3) by simp
    ultimately show ?thesis using dropped_active(1) [OF step] by simp
  qed
  then have "dropped (covers (invalidate_entry e s) (set es)) (invalidate_entry e s) (fold invalidate_entry es (invalidate_entry e s))"
    using Cons.prems step by (intro Cons.IH) (auto simp: dropped_def)
  from dropped_trans [OF step this] have
    "dropped (D \<union> covers (invalidate_entry e s) (set es)) s (fold invalidate_entry (e # es) s)" by simp
  moreover have "D \<union> covers (invalidate_entry e s) (set es) = covers s (set (e # es))"
    unfolding D covers_def family_dropped [OF step] by auto
  ultimately show ?case by (simp del: fold_simps)
qed

lemma suffix_closed:
  assumes c: "consistent s" and es: "entries_of s = us @ vs"
    and p: "active_savepoint s p" and t: "TransactionEntry (owner (savepoints s p)) \<in> set vs"
  shows "SavepointEntry p \<in> set vs"
proof (rule ccontr)
  assume "SavepointEntry p \<notin> set vs"
  then have "SavepointEntry p \<in> set us" using consistent_owner(1) [OF c p] es by auto
  moreover have "owners_precede (\<lambda>p. owner (savepoints s p)) {} us" "distinct (us @ vs)"
    using c es by (simp_all add: consistent_def)
  ultimately show False using owners_precede_owner [of _ "{}" us p] t by auto
qed

lemma suffix_dropped:
  assumes c: "consistent s" and es: "entries_of s = us @ vs"
  shows "dropped (set vs) s (fold invalidate_entry vs s)" "entries_of (fold invalidate_entry vs s) = us"
proof -
  have act: "\<And>e. e \<in> set (us @ vs) \<longleftrightarrow> entry_active s e" and dist: "distinct (us @ vs)"
    using c es by (simp_all add: consistent_def)
  have "dropped (covers s (set vs)) s (fold invalidate_entry vs s)"
  proof (rule invalidate_entries_dropped [OF c])
    show "\<forall>t. TransactionEntry t \<in> set vs \<longrightarrow> active_transaction s t"
    proof (intro allI impI)
      fix t assume "TransactionEntry t \<in> set vs" then show "active_transaction s t" using act [of "TransactionEntry t"] by simp
    qed
    show "\<forall>p. SavepointEntry p \<in> set vs \<longrightarrow> p < savepoint_count s"
    proof (intro allI impI)
      fix p assume "SavepointEntry p \<in> set vs"
      then show "p < savepoint_count s" using act [of "SavepointEntry p"] by (simp add: active_savepoint_def)
    qed
  qed (use dist in simp)
  moreover have "\<Union> (family s ` {t. TransactionEntry t \<in> set vs}) \<inter> {e. entry_active s e} \<subseteq> set vs"
    using suffix_closed [OF c es] by (auto simp: family_def)
  ultimately show d: "dropped (set vs) s (fold invalidate_entry vs s)"
    unfolding covers_def dropped_def using act es
    by (auto intro!: filter_cong)
  show "entries_of (fold invalidate_entry vs s) = us"
    using d es dist by (auto simp: dropped_def intro!: filter_True filter_False)
qed

section \<open>Invalidation as the code calls it\<close>

lemma rooted_prefix:
  assumes "rooted s" "entries_of s = us @ vs" "entries_of s' = us" "\<And>e. entry_name s' e = entry_name s e"
  shows "rooted s'"
  using assms by (cases us) (auto simp: rooted_def)

lemma dropped_name: "dropped D s s' \<Longrightarrow> entry_name s' e = entry_name s e"
  by (cases e) (simp_all add: dropped_def)

lemma dropped_keys: "dropped D s s' \<Longrightarrow> entry_keys s' es = entry_keys s es"
  by (intro entry_keys_cong) (simp add: dropped_name)

lemma entries_split:
  assumes "e \<in> set es"
  shows "es = (takeWhile (\<lambda>x. x \<noteq> e) es @ [e]) @ tl (dropWhile (\<lambda>x. x \<noteq> e) es)"
  using assms by (induction es) auto

lemma invalidate_after_dropped:
  assumes c: "consistent s" and r: "rooted s" and e: "entry_active s e" and cur: "current s = Some k"
  defines "later \<equiv> tl (dropWhile (\<lambda>x. x \<noteq> e) (entries_of s))"
  shows "dropped (set later) s (invalidate_after k e s)"
    "entries_of (invalidate_after k e s) = takeWhile (\<lambda>x. x \<noteq> e) (entries_of s) @ [e]"
    "rooted (invalidate_after k e s)"
proof -
  have eq: "invalidate_after k e s = fold invalidate_entry later s"
    using cur by (simp add: invalidate_after_def later_def entries_of_def)
  have "e \<in> set (entries_of s)" using c e by (simp add: consistent_def)
  note split = entries_split [OF this, folded later_def]
  note d = suffix_dropped [OF c split, folded eq]
  show "dropped (set later) s (invalidate_after k e s)"
    "entries_of (invalidate_after k e s) = takeWhile (\<lambda>x. x \<noteq> e) (entries_of s) @ [e]" by (rule d)+
  then show "rooted (invalidate_after k e s)" using rooted_prefix [OF r split] dropped_name by blast
qed

lemma reset_registry_dropped:
  assumes "consistent s" "entries_of s = []"
  shows "dropped {} s (update_registry k (\<lambda>_. empty_registry) s)" (is "dropped {} s ?s")
proof -
  have act: "entry_active ?s e = entry_active s e" for e
    by (cases e) (simp_all add: update_registry_def active_transaction_def active_savepoint_def)
  have none: "\<not> entry_active s e" for e using assms by (simp add: consistent_def)
  have "entries_of ?s = []"
    using assms(2) by (simp add: entries_of_def update_registry_def empty_registry_def split: option.splits)
  moreover have "\<not> active_transaction ?s t" for t using none [of "TransactionEntry t"] act [of "TransactionEntry t"] by simp
  moreover from calculation assms none act have "consistent ?s"
    by (auto simp: consistent_def update_registry_def empty_registry_def)
  ultimately show ?thesis using act assms(2) by (simp add: dropped_def update_registry_def)
qed

lemma invalidate_all_dropped:
  assumes c: "consistent s" and cur: "current s = Some k"
  shows "dropped (set (entries_of s)) s (invalidate_all k s)" "entries_of (invalidate_all k s) = []"
proof -
  have eq: "invalidate_all k s = update_registry k (\<lambda>_. empty_registry) (fold invalidate_entry (entries_of s) s)"
    using cur by (simp add: invalidate_all_def entries_of_def)
  note d = suffix_dropped [OF c, of "[]" "entries_of s", simplified]
  from dropped_trans [OF d(1) reset_registry_dropped [OF dropped_consistent [OF d(1)] d(2)]]
  show "dropped (set (entries_of s)) s (invalidate_all k s)" by (simp add: eq)
  then show "entries_of (invalidate_all k s) = []" by (auto simp: dropped_def)
qed

end
