(* ===== verification/Triples.thy ===== *)
theory Triples
  imports Execution
begin

text \<open>
  Reasoning about actions: \<open>wp m Q E s\<close> holds when running \<open>m\<close> in \<open>s\<close> ends in a value and a state with
  \<open>Q\<close>, or in an exception and a state with \<open>E\<close>.  The equations \<open>wp_simps\<close> take an action apart along its
  control flow; \<open>wp_mono\<close> uses a specification already proved.
\<close>

definition wp :: "('s, 'a) action \<Rightarrow> ('a \<Rightarrow> 's \<Rightarrow> bool) \<Rightarrow> (exn \<Rightarrow> 's \<Rightarrow> bool) \<Rightarrow> 's \<Rightarrow> bool" where
  "wp m Q E s = (case m s of (Inl e, s') \<Rightarrow> E e s' | (Inr x, s') \<Rightarrow> Q x s')"

named_theorems wp_simps \<open>the control flow of actions\<close>

lemma wp_ret [wp_simps]: "wp (ret x) Q E s = Q x s"
  by (simp add: wp_def ret_def)

lemma wp_raise [wp_simps]: "wp (raise e) Q E s = E e s"
  by (simp add: wp_def raise_def)

lemma wp_bind [wp_simps]: "wp (bind m f) Q E s = wp m (\<lambda>x. wp (f x) Q E) E s"
  by (simp add: wp_def bind_def split: prod.splits sum.splits)

lemma wp_on_error [wp_simps]: "wp (on_error m h) Q E s = wp m Q (\<lambda>e. wp (h e) Q E) s"
  by (simp add: wp_def on_error_def split: prod.splits sum.splits)

lemma wp_try_else [wp_simps]: "wp (try_else m h f) Q E s = wp m (\<lambda>x. wp (f x) Q E) (\<lambda>e. wp (h e) Q E) s"
  by (simp add: wp_def try_else_def split: prod.splits sum.splits)

lemma wp_outcome [wp_simps]: "wp (outcome m) Q E s = wp m (\<lambda>x. Q (Inr x)) (\<lambda>e. Q (Inl e)) s"
  by (simp add: wp_def outcome_def split: prod.splits sum.splits)

lemma wp_ask [wp_simps]: "wp (ask f) Q E s = Q (f s) s"
  by (simp add: wp_def ask_def)

lemma wp_act [wp_simps]: "wp (act f) Q E s = Q () (f s)"
  by (simp add: wp_def act_def)

lemma wp_pure [wp_simps]: "wp (pure r) Q E s = (case r of Inl e \<Rightarrow> E e s | Inr x \<Rightarrow> Q x s)"
  by (simp add: wp_def pure_def)

lemma wp_mono:
  assumes "wp m Q E s" "\<And>x s'. Q x s' \<Longrightarrow> Q' x s'" "\<And>e s'. E e s' \<Longrightarrow> E' e s'"
  shows "wp m Q' E' s"
  using assms by (auto simp: wp_def split: prod.splits sum.splits)

lemma wp_final: "wp m (\<lambda>_. P) (\<lambda>_. P) s \<longleftrightarrow> P (snd (m s))"
  by (simp add: wp_def split: prod.splits sum.splits)

end
