(* ===== verification/Sqlite_Actions.thy ===== *)
theory Sqlite_Actions
  imports Sqlite_Registry Triples
begin

text \<open>
  The savepoints of the connection beside the registry: the documented behaviour of SQLite
  (\<open>savepoint_driver\<close>), the relation \<open>mirrors\<close> between the two, the invariant \<open>holds\<close> that the operations keep, and
  specifications of the control commands, of adding a transaction or a savepoint, and of the recovery
  after a failed command.
\<close>

section \<open>The savepoints of the connection\<close>

text \<open>
  The documented behaviour of SQLite that the registry relies on.  \<open>marks\<close> reads the open savepoints of
  the connection, the newest first, by the key under which SQLite compares their names: \<open>SAVEPOINT\<close>
  pushes one; \<open>ROLLBACK TO\<close> goes back to the newest of its name and keeps it, \<open>RELEASE\<close> removes that one
  too; both fail when there is none, and a command that fails changes nothing.  Observers leave the
  connection's savepoints alone.
\<close>

definition savepoint_driver :: "'w driver \<Rightarrow> ('w \<Rightarrow> string list) \<Rightarrow> bool" where
  "savepoint_driver c marks \<longleftrightarrow> (\<forall>name w.
     (case execute_sql c (''savepoint '' @ name) [] w of (r, w') \<Rightarrow>
        marks w' = (if succeeds r then savepoint_name_key name # marks w else marks w))
     \<and> (case execute_sql c (''rollback to savepoint '' @ name) [] w of (r, w') \<Rightarrow>
        (succeeds r \<longrightarrow> savepoint_name_key name \<in> set (marks w))
        \<and> marks w' = (if succeeds r then dropWhile (\<lambda>m. m \<noteq> savepoint_name_key name) (marks w) else marks w))
     \<and> (case execute_sql c (''release savepoint '' @ name) [] w of (r, w') \<Rightarrow>
        (succeeds r \<longrightarrow> savepoint_name_key name \<in> set (marks w))
        \<and> marks w' = (if succeeds r then tl (dropWhile (\<lambda>m. m \<noteq> savepoint_name_key name) (marks w)) else marks w)))
   \<and> (\<forall>watcher event w. marks (snd (notify c watcher event w)) = marks w)"

text \<open>
  How the registry sees them: each of its names, from the newest, is the newest mark of that name among
  those below the previous one.  Marks it does not know of may lie between.
\<close>

fun mirrors :: "string list \<Rightarrow> string list \<Rightarrow> bool" where
  "mirrors [] marks = True"
| "mirrors (k # ks) [] = False"
| "mirrors (k # ks) (m # marks) = (if m = k then mirrors ks marks else m \<notin> set ks \<and> mirrors (k # ks) marks)"

lemma mirrors_push: "mirrors ks marks \<Longrightarrow> mirrors (k # ks) (k # marks)"
  by simp

lemma mirrors_unknown: "mirrors ks marks \<Longrightarrow> k \<notin> set ks \<Longrightarrow> mirrors ks (k # marks)"
  by (cases ks) auto

lemma mirrors_mem: "mirrors ks marks \<Longrightarrow> set ks \<subseteq> set marks"
  by (induction ks marks rule: mirrors.induct) (auto split: if_splits)

lemma mirrors_skip:
  assumes "mirrors (us @ k # vs) marks" "distinct (us @ k # vs)"
  shows "mirrors (k # vs) (dropWhile (\<lambda>m. m \<noteq> k) marks)" "mirrors vs (tl (dropWhile (\<lambda>m. m \<noteq> k) marks))"
proof -
  have below: "mirrors vs (tl (dropWhile (\<lambda>m. m \<noteq> k) marks)) \<and> k \<in> set marks"
    using assms
  proof (induction marks arbitrary: us)
    case Nil
    then show ?case by (cases us) simp_all
  next
    case (Cons m marks)
    show ?case
    proof (cases us)
      case Nil
      then show ?thesis using Cons.prems Cons.IH [of "[]"] by (cases "m = k") simp_all
    next
      case us: (Cons u us')
      then have "m \<noteq> k" "mirrors (us' @ k # vs) marks \<or> mirrors (us @ k # vs) marks"
        using Cons.prems by (auto split: if_splits)
      then show ?thesis using Cons.IH [of us'] Cons.IH [of us] Cons.prems us by auto
    qed
  qed
  have "dropWhile (\<lambda>m. m \<noteq> k) marks = k # tl (dropWhile (\<lambda>m. m \<noteq> k) marks)" if "k \<in> set marks"
    using that by (induction marks) auto
  with below show "mirrors (k # vs) (dropWhile (\<lambda>m. m \<noteq> k) marks)" by (metis mirrors.simps(3))
  from below show "mirrors vs (tl (dropWhile (\<lambda>m. m \<noteq> k) marks))" ..
qed

section \<open>Calls outside\<close>

definition holds :: "('w \<Rightarrow> string list) \<Rightarrow> 'w world \<Rightarrow> bool" where
  "holds marks s \<longleftrightarrow> consistent s \<and> rooted s \<and> mirrors (rev (entry_keys s (entries_of s))) (marks (env s))"

text \<open>Only the environment changes, and its savepoints do not.\<close>

definition quiet :: "('w \<Rightarrow> string list) \<Rightarrow> 'w world \<Rightarrow> 'w world \<Rightarrow> bool" where
  "quiet marks s s' \<longleftrightarrow> (\<exists>w. s' = s\<lparr>env := w\<rparr> \<and> marks w = marks (env s))"

lemma entry_name_env [simp]: "entry_name (s\<lparr>env := w\<rparr>) = entry_name s"
proof
  show "entry_name (s\<lparr>env := w\<rparr>) e = entry_name s e" for e by (cases e) simp_all
qed

lemma entry_active_env [simp]: "entry_active (s\<lparr>env := w\<rparr>) = entry_active s"
proof
  show "entry_active (s\<lparr>env := w\<rparr>) e = entry_active s e" for e
    by (cases e) (simp_all add: active_transaction_def active_savepoint_def)
qed

lemma env_simps [simp]:
  "entries_of (s\<lparr>env := w\<rparr>) = entries_of s"
  "entry_keys (s\<lparr>env := w\<rparr>) = entry_keys s"
  "active_transaction (s\<lparr>env := w\<rparr>) = active_transaction s"
  "active_savepoint (s\<lparr>env := w\<rparr>) = active_savepoint s"
  "rooted (s\<lparr>env := w\<rparr>) = rooted s"
  "consistent (s\<lparr>env := w\<rparr>) = consistent s"
  by (simp_all add: entries_of_def entry_keys_def fun_eq_iff active_transaction_def active_savepoint_def
    rooted_def consistent_def cong: option.case_cong list.case_cong)

lemma holds_quiet: "quiet marks s s' \<Longrightarrow> holds marks s' = holds marks s"
  by (auto simp: quiet_def holds_def)

lemma quiet_refl [simp]: "quiet marks s s"
  by (auto simp: quiet_def intro!: exI [of _ "env s"])

lemma quiet_trans: "quiet marks s s' \<Longrightarrow> quiet marks s' s'' \<Longrightarrow> quiet marks s s''"
  by (auto simp: quiet_def)

lemma wp_outside [wp_simps]:
  "wp (outside f) Q E s = (case f (env s) of (Inl e, w) \<Rightarrow> E e (s\<lparr>env := w\<rparr>) | (Inr x, w) \<Rightarrow> Q x (s\<lparr>env := w\<rparr>))"
  by (simp add: wp_def outside_def split: prod.splits sum.splits)

lemma observe_quiet:
  assumes "savepoint_driver c marks"
  shows "wp (observe c observer text params started count error) (\<lambda>_. quiet marks s) (\<lambda>_. quiet marks s) s"
proof -
  have "quiet marks s (s\<lparr>env := w'\<rparr>)" if "notify c watcher event (env s) = (r, w')" for watcher event r w'
  proof -
    have "marks (snd (notify c watcher event (env s))) = marks (env s)" using assms by (simp add: savepoint_driver_def)
    then show ?thesis using that by (auto simp: quiet_def)
  qed
  then show ?thesis
    by (auto simp: observe_def wp_simps split: option.splits prod.splits sum.splits)
qed

text \<open>A control command with its event: the environment changes as the command says.\<close>

lemma run_control_outside:
  assumes "savepoint_driver c marks"
    and "wp operation (\<lambda>_ s'. \<exists>w. s' = s\<lparr>env := w\<rparr> \<and> Q (marks w)) (\<lambda>_ s'. \<exists>w. s' = s\<lparr>env := w\<rparr> \<and> E (marks w)) s"
  shows "wp (run_control c observer text operation)
    (\<lambda>_ s'. \<exists>w. s' = s\<lparr>env := w\<rparr> \<and> Q (marks w)) (\<lambda>_ s'. \<exists>w. s' = s\<lparr>env := w\<rparr> \<and> E (marks w)) s"
  unfolding run_control_def wp_simps
proof (rule wp_mono [OF assms(2)], simp)
  fix e s' assume "\<exists>w. s' = s\<lparr>env := w\<rparr> \<and> E (marks w)"
  then show "wp (observe c observer text [] (perf_counter c (env s)) None (Some e))
      (\<lambda>_ s'. \<exists>w. s' = s\<lparr>env := w\<rparr> \<and> E (marks w)) (\<lambda>_ s'. \<exists>w. s' = s\<lparr>env := w\<rparr> \<and> E (marks w)) s'"
    by (intro wp_mono [OF observe_quiet [OF assms(1)]]; simp add: quiet_def; elim exE conjE; hypsubst; simp; metis)
qed

section \<open>Adding objects\<close>

text \<open>A new transaction, its name reserved before.\<close>

definition with_new_transaction :: "nat option \<Rightarrow> string option \<Rightarrow> nat \<Rightarrow> 'w world \<Rightarrow> 'w world" where
  "with_new_transaction observer generated r s = s\<lparr>
     transaction_count := Suc (transaction_count s),
     transactions := (transactions s)(transaction_count s := \<lparr>state_of = r, transaction_observer = observer,
       own_names = set_option generated, own_savepoints = [], generated_name = generated, closed_flag = False\<rparr>),
     registries := (registries s)(r := (registries s r)\<lparr>
       savepoint_names := savepoint_names (registries s r) \<union> savepoint_name_key ` set_option generated,
       stack := stack (registries s r) @ [transaction_count s],
       entries := entries (registries s r) @ [TransactionEntry (transaction_count s)]\<rparr>)\<rparr>"

lemma new_transaction_adds:
  fixes observer
  assumes c: "consistent s" and cur: "current s = Some r"
    and fresh: "\<And>name. generated = Some name \<Longrightarrow> savepoint_name_key name \<notin> set (entry_keys s (entries_of s))"
  defines "s' \<equiv> with_new_transaction observer generated r s" and "t \<equiv> transaction_count s"
  shows "consistent s'" "entries_of s' = entries_of s @ [TransactionEntry t]"
    "entry_keys s' (entries_of s') = entry_keys s (entries_of s) @ map savepoint_name_key (present [generated])"
    "entry_active s' e \<longleftrightarrow> entry_active s e \<or> e = TransactionEntry t"
    "\<And>e. entry_active s e \<Longrightarrow> entry_name s' e = entry_name s e" "entry_name s' (TransactionEntry t) = generated"
proof -
  have tnew: "\<not> active_transaction s t" by (simp add: active_transaction_def t_def)
  show ent: "entries_of s' = entries_of s @ [TransactionEntry t]"
    using cur by (simp add: s'_def with_new_transaction_def entries_of_def t_def)
  have act: "entry_active s' e \<longleftrightarrow> entry_active s e \<or> e = TransactionEntry t" for e
    by (cases e) (auto simp: s'_def with_new_transaction_def active_transaction_def active_savepoint_def t_def less_Suc_eq)
  then show "entry_active s' e \<longleftrightarrow> entry_active s e \<or> e = TransactionEntry t" .
  have nm: "entry_name s' e = entry_name s e" if "entry_active s e" for e
    using that by (cases e) (auto simp: s'_def with_new_transaction_def active_transaction_def)
  then show "\<And>e. entry_active s e \<Longrightarrow> entry_name s' e = entry_name s e" .
  show gen: "entry_name s' (TransactionEntry t) = generated" by (simp add: s'_def with_new_transaction_def t_def)
  have mem: "e \<in> set (entries_of s) \<longleftrightarrow> entry_active s e" for e using c by (simp add: consistent_def)
  have old: "entry_keys s' (entries_of s) = entry_keys s (entries_of s)"
    by (rule entry_keys_cong) (simp add: mem nm)
  show keys: "entry_keys s' (entries_of s') = entry_keys s (entries_of s) @ map savepoint_name_key (present [generated])"
    unfolding ent entry_keys_simps old using gen by (simp add: entry_keys_def)
  have sp: "active_savepoint s' p \<longleftrightarrow> active_savepoint s p" "savepoints s' = savepoints s" for p
    using act [of "SavepointEntry p"] by (simp_all add: s'_def with_new_transaction_def)
  have orphan: "active_savepoint s p \<Longrightarrow> owner (savepoints s p) \<noteq> t" for p
    using consistent_owner(2) [OF c, of p] tnew by auto
  have trans: "current s' = Some (state_of (transactions s' u)) \<and> distinct (own_savepoints (transactions s' u))
      \<and> set (own_savepoints (transactions s' u)) = {p. active_savepoint s' p \<and> owner (savepoints s' p) = u}
      \<and> own_names (transactions s' u) = set_option (generated_name (transactions s' u))
         \<union> quoted_name ` savepoints s' ` {p. active_savepoint s' p \<and> owner (savepoints s' p) = u}"
    if u: "active_transaction s' u" for u
  proof (cases "u = t")
    case True
    then show ?thesis using cur orphan unfolding sp by (auto simp: s'_def with_new_transaction_def t_def)
  next
    case False
    then have "active_transaction s u" using u act [of "TransactionEntry u"] by auto
    then have "transactions s' u = transactions s u" "current s' = current s"
      using False by (simp_all add: s'_def with_new_transaction_def t_def)
    then show ?thesis using c \<open>active_transaction s u\<close> unfolding sp by (simp add: consistent_def)
  qed
  have "distinct (entry_keys s' (entries_of s'))"
    unfolding keys using c fresh by (cases generated) (auto simp: consistent_def)
  moreover have "distinct (entries_of s')" using c tnew mem [of "TransactionEntry t"] by (simp add: ent consistent_def)
  moreover have "owners_precede (\<lambda>p. owner (savepoints s' p)) {} (entries_of s')"
    using c by (simp add: ent sp consistent_def)
  moreover have "set (present [generated]) = set_option generated" by (cases generated) simp_all
  then have "r < registry_count s' \<and> stack (registries s' r) = present (map transaction_of (entries_of s'))
      \<and> savepoint_names (registries s' r) = set (entry_keys s' (entries_of s'))"
    unfolding keys unfolding ent using c cur
    by (auto simp: s'_def with_new_transaction_def consistent_def t_def simp del: set_present)
  moreover have "current s' = Some r" using cur by (simp add: s'_def with_new_transaction_def)
  ultimately show "consistent s'"
    unfolding consistent_def using trans act mem by (auto simp: ent)
qed

definition with_new_savepoint :: "nat \<Rightarrow> string \<Rightarrow> nat \<Rightarrow> 'w world \<Rightarrow> 'w world" where
  "with_new_savepoint t name r s = s\<lparr>
     savepoint_count := Suc (savepoint_count s),
     savepoints := (savepoints s)(savepoint_count s := \<lparr>owner = t, quoted_name = name, released = False, invalidated = False\<rparr>),
     transactions := (transactions s)(t := (transactions s t)\<lparr>own_names := insert name (own_names (transactions s t)),
       own_savepoints := own_savepoints (transactions s t) @ [savepoint_count s]\<rparr>),
     registries := (registries s)(r := (registries s r)\<lparr>
       savepoint_names := insert (savepoint_name_key name) (savepoint_names (registries s r)),
       entries := entries (registries s r) @ [SavepointEntry (savepoint_count s)]\<rparr>)\<rparr>"

lemma new_savepoint_adds:
  assumes c: "consistent s" and t: "active_transaction s t"
    and fresh: "savepoint_name_key name \<notin> set (entry_keys s (entries_of s))"
  defines "r \<equiv> state_of (transactions s t)"
  defines "s' \<equiv> with_new_savepoint t name r s" and "p \<equiv> savepoint_count s"
  shows "consistent s'" "entries_of s' = entries_of s @ [SavepointEntry p]"
    "entry_keys s' (entries_of s') = entry_keys s (entries_of s) @ [savepoint_name_key name]"
    "entry_active s' e \<longleftrightarrow> entry_active s e \<or> e = SavepointEntry p"
    "\<And>e. entry_active s e \<Longrightarrow> entry_name s' e = entry_name s e"
proof -
  note ct = consistent_active [OF c t, folded r_def]
  have pnew: "\<not> active_savepoint s p" by (simp add: active_savepoint_def p_def)
  show ent: "entries_of s' = entries_of s @ [SavepointEntry p]"
    using ct(1) by (simp add: s'_def with_new_savepoint_def entries_of_def p_def)
  have act: "entry_active s' e \<longleftrightarrow> entry_active s e \<or> e = SavepointEntry p" for e
    by (cases e) (auto simp: s'_def with_new_savepoint_def active_transaction_def active_savepoint_def p_def less_Suc_eq)
  then show "entry_active s' e \<longleftrightarrow> entry_active s e \<or> e = SavepointEntry p" .
  have nm: "entry_name s' e = entry_name s e" if "entry_active s e" for e
    using that by (cases e) (auto simp: s'_def with_new_savepoint_def active_savepoint_def)
  then show "\<And>e. entry_active s e \<Longrightarrow> entry_name s' e = entry_name s e" .
  have mem: "e \<in> set (entries_of s) \<longleftrightarrow> entry_active s e" for e using c by (simp add: consistent_def)
  have old: "entry_keys s' (entries_of s) = entry_keys s (entries_of s)"
    by (rule entry_keys_cong) (simp add: mem nm)
  show keys: "entry_keys s' (entries_of s') = entry_keys s (entries_of s) @ [savepoint_name_key name]"
    unfolding ent entry_keys_simps old by (simp add: entry_keys_def s'_def with_new_savepoint_def p_def)
  have sp: "active_savepoint s' q \<longleftrightarrow> active_savepoint s q \<or> q = p" for q using act [of "SavepointEntry q"] by simp
  have own: "owner (savepoints s' q) = (if q = p then t else owner (savepoints s q))"
    "quoted_name (savepoints s' q) = (if q = p then name else quoted_name (savepoints s q))" for q
    by (simp_all add: s'_def with_new_savepoint_def p_def)
  have sets: "{q. active_savepoint s' q \<and> owner (savepoints s' q) = u} =
      {q. active_savepoint s q \<and> owner (savepoints s q) = u} \<union> (if u = t then {p} else {})" for u
    using pnew by (auto simp: sp own)
  have trans: "current s' = Some (state_of (transactions s' u)) \<and> distinct (own_savepoints (transactions s' u))
      \<and> set (own_savepoints (transactions s' u)) = {q. active_savepoint s' q \<and> owner (savepoints s' q) = u}
      \<and> own_names (transactions s' u) = set_option (generated_name (transactions s' u))
         \<union> quoted_name ` savepoints s' ` {q. active_savepoint s' q \<and> owner (savepoints s' q) = u}"
    if u: "active_transaction s' u" for u
  proof -
    have ua: "active_transaction s u" using u act [of "TransactionEntry u"] by auto
    have im: "quoted_name ` savepoints s' ` A = quoted_name ` savepoints s ` A" if "p \<notin> A" for A
      unfolding image_image using that by (intro image_cong) (auto simp: own)
    have pA: "p \<notin> {q. active_savepoint s q \<and> owner (savepoints s q) = u}" using pnew by simp
    show ?thesis
      unfolding sets image_Un im [OF pA] using c ua pnew ct(5)
      by (auto simp: consistent_def s'_def with_new_savepoint_def p_def r_def)
  qed
  have "distinct (entry_keys s' (entries_of s'))" unfolding keys using c fresh by (simp add: consistent_def)
  moreover have "distinct (entries_of s')" using c pnew mem [of "SavepointEntry p"] by (simp add: ent consistent_def)
  moreover have "owners_precede (\<lambda>q. owner (savepoints s' q)) {} (entries_of s')"
    using c ct(2) pnew mem unfolding ent owners_precede_append
    by (auto simp: own consistent_def intro!: owners_precede_cong [of "\<lambda>q. owner (savepoints s q)"])
  moreover have "r < registry_count s' \<and> stack (registries s' r) = present (map transaction_of (entries_of s'))
      \<and> savepoint_names (registries s' r) = set (entry_keys s' (entries_of s'))"
    unfolding keys unfolding ent using c ct(1) by (simp add: s'_def with_new_savepoint_def consistent_def)
  moreover have "current s' = Some r" using ct(1) by (simp add: s'_def with_new_savepoint_def)
  ultimately show "consistent s'"
    unfolding consistent_def using trans act mem by (auto simp: ent)
qed

section \<open>Every operation keeps the invariant\<close>

lemma mirrors_drop:
  "mirrors (vs @ ks) marks \<Longrightarrow> distinct (vs @ ks) \<Longrightarrow> mirrors ks marks"
proof (induction marks arbitrary: vs)
  case Nil
  then show ?case by (cases vs; cases ks) auto
next
  case (Cons m marks)
  show ?case
  proof (cases vs)
    case Nil
    then show ?thesis using Cons.prems by simp
  next
    case vs: (Cons v vs')
    then have "mirrors ks marks"
      using Cons.prems Cons.IH [of vs'] Cons.IH [of vs] by (auto split: if_splits)
    moreover have "m \<notin> set ks" using Cons.prems vs by (auto split: if_splits)
    ultimately show ?thesis by (rule mirrors_unknown)
  qed
qed

definition moved :: "('w \<Rightarrow> string list) \<Rightarrow> (string list \<Rightarrow> bool) \<Rightarrow> 'w world \<Rightarrow> 'w world \<Rightarrow> bool" where
  "moved marks Q s s' \<longleftrightarrow> (\<exists>w. s' = s\<lparr>env := w\<rparr> \<and> Q (marks w))"

lemma moved_quiet: "moved marks Q s s' \<Longrightarrow> quiet marks s' s'' \<Longrightarrow> moved marks Q s s''"
  by (auto simp: moved_def quiet_def)

lemma quiet_moved [simp]: "moved marks (\<lambda>_. True) s s"
  by (auto simp: moved_def intro!: exI [of _ "env s"])

lemma moved_mono: "moved marks Q s s' \<Longrightarrow> (\<And>m. Q m \<Longrightarrow> R m) \<Longrightarrow> moved marks R s s'"
  by (auto simp: moved_def)

lemma moved_keeps: "moved marks (\<lambda>m. m = marks (env s)) s = quiet marks s"
  by (simp add: moved_def quiet_def fun_eq_iff)

lemmas control = run_control_outside [folded moved_def]

lemma control_any:
  "savepoint_driver c marks \<Longrightarrow> wp (run_control c watcher text (execute_control c text'))
     (\<lambda>_. moved marks (\<lambda>_. True) s) (\<lambda>_. moved marks (\<lambda>_. True) s) s"
  by (rule control) (auto simp: execute_control_def wp_simps moved_def split: prod.splits sum.splits)

lemma control_top_level:
  "savepoint_driver c marks \<Longrightarrow> wp (run_control c watcher text (top_level_control c text'))
     (\<lambda>_. moved marks (\<lambda>_. True) s) (\<lambda>_. moved marks (\<lambda>_. True) s) s"
  by (rule control)
    (auto simp: top_level_control_def execute_control_def wp_simps moved_def split: prod.splits sum.splits)

text \<open>The three savepoint commands, as \<open>execute_control\<close> runs them and under \<open>run_control\<close>.\<close>

lemma savepoint_commands:
  assumes "savepoint_driver c marks"
  shows "wp (execute_control c (''savepoint '' @ name))
      (\<lambda>_. moved marks (\<lambda>m. m = savepoint_name_key name # marks (env s)) s) (\<lambda>_. quiet marks s) s"
    "wp (execute_control c (''rollback to savepoint '' @ name))
      (\<lambda>_. moved marks (\<lambda>m. savepoint_name_key name \<in> set (marks (env s))
         \<and> m = dropWhile (\<lambda>x. x \<noteq> savepoint_name_key name) (marks (env s))) s) (\<lambda>_. quiet marks s) s"
    "wp (execute_control c (''release savepoint '' @ name))
      (\<lambda>_. moved marks (\<lambda>m. savepoint_name_key name \<in> set (marks (env s))
         \<and> m = tl (dropWhile (\<lambda>x. x \<noteq> savepoint_name_key name) (marks (env s)))) s) (\<lambda>_. quiet marks s) s"
proof -
  note laws = assms [unfolded savepoint_driver_def, THEN conjunct1, rule_format, of name "env s"]
  show "wp (execute_control c (''savepoint '' @ name))
      (\<lambda>_. moved marks (\<lambda>m. m = savepoint_name_key name # marks (env s)) s) (\<lambda>_. quiet marks s) s"
    using laws [THEN conjunct1] unfolding execute_control_def wp_simps
    by (auto simp: moved_def quiet_def split: prod.splits sum.splits)
  show "wp (execute_control c (''rollback to savepoint '' @ name))
      (\<lambda>_. moved marks (\<lambda>m. savepoint_name_key name \<in> set (marks (env s))
         \<and> m = dropWhile (\<lambda>x. x \<noteq> savepoint_name_key name) (marks (env s))) s) (\<lambda>_. quiet marks s) s"
    using laws [THEN conjunct2, THEN conjunct1] unfolding execute_control_def wp_simps
    by (auto simp: moved_def quiet_def split: prod.splits sum.splits)
  show "wp (execute_control c (''release savepoint '' @ name))
      (\<lambda>_. moved marks (\<lambda>m. savepoint_name_key name \<in> set (marks (env s))
         \<and> m = tl (dropWhile (\<lambda>x. x \<noteq> savepoint_name_key name) (marks (env s)))) s) (\<lambda>_. quiet marks s) s"
    using laws [THEN conjunct2, THEN conjunct2] unfolding execute_control_def wp_simps
    by (auto simp: moved_def quiet_def split: prod.splits sum.splits)
qed

lemma control_commands:
  assumes d: "savepoint_driver c marks"
  shows "wp (run_control c watcher text (execute_control c (''savepoint '' @ name)))
      (\<lambda>_. moved marks (\<lambda>m. m = savepoint_name_key name # marks (env s)) s) (\<lambda>_. quiet marks s) s"
    "wp (run_control c watcher text (execute_control c (''rollback to savepoint '' @ name)))
      (\<lambda>_. moved marks (\<lambda>m. savepoint_name_key name \<in> set (marks (env s))
         \<and> m = dropWhile (\<lambda>x. x \<noteq> savepoint_name_key name) (marks (env s))) s) (\<lambda>_. quiet marks s) s"
    "wp (run_control c watcher text (execute_control c (''release savepoint '' @ name)))
      (\<lambda>_. moved marks (\<lambda>m. savepoint_name_key name \<in> set (marks (env s))
         \<and> m = tl (dropWhile (\<lambda>x. x \<noteq> savepoint_name_key name) (marks (env s)))) s) (\<lambda>_. quiet marks s) s"
  using control [OF d savepoint_commands(1) [OF d, folded moved_keeps]] control [OF d savepoint_commands(2) [OF d, folded moved_keeps]]
    control [OF d savepoint_commands(3) [OF d, folded moved_keeps]]
  by (simp_all only: moved_keeps)

section \<open>Recovery\<close>

lemma holdsI:
  "consistent s \<Longrightarrow> rooted s \<Longrightarrow> mirrors (rev (entry_keys s (entries_of s))) (marks (env s)) \<Longrightarrow> holds marks s"
  by (simp add: holds_def)

lemma holds_empty: "consistent s \<Longrightarrow> entries_of s = [] \<Longrightarrow> holds marks s"
  by (simp add: holds_def rooted_def)

lemma recovery:
  assumes d: "savepoint_driver c marks" and s: "consistent s" and t: "active_transaction s t"
  shows "wp (recover_after_control_failure c t e) Q (\<lambda>_ s'. holds marks s' \<and> entries_of s' = []) s"
proof -
  define s1 where "s1 = invalidate_all (state_of (transactions s t)) s"
  have "consistent s1" "entries_of s1 = []"
    using invalidate_all_dropped [OF s consistent_active(1) [OF s t]] dropped_consistent by (auto simp: s1_def)
  then have finish: "holds marks s' \<and> entries_of s' = []" if "moved marks (\<lambda>_. True) s1 s'" for s'
    using that by (auto simp: moved_def holds_def rooted_def)
  show ?thesis
    unfolding recover_after_control_failure_def wp_simps s1_def [symmetric]
    by (rule wp_mono [OF control_any [OF d]], rule wp_mono [OF observe_quiet [OF d]])
      (auto dest: finish moved_quiet)
qed

end
