(* ===== verification/Sqlite_Operations.thy ===== *)
theory Sqlite_Operations
  imports Sqlite_Actions
begin

text \<open>
  One specification per operation of the executor on transactions and savepoints: from every state in which
  the registry mirrors the connection, the operation ends, normally or with an exception, in such a state,
  and which transactions and savepoints are left.
\<close>

section \<open>Completing transactions\<close>

definition before :: "entry \<Rightarrow> 'w world \<Rightarrow> entry list" where
  "before e s = takeWhile (\<lambda>x. x \<noteq> e) (entries_of s)"

lemma mirrored:
  assumes h: "holds marks s" and e: "entry_active s e" and name: "entry_name s e = Some name"
  shows "mirrors (rev (entry_keys s (before e s @ [e]))) (dropWhile (\<lambda>x. x \<noteq> savepoint_name_key name) (marks (env s)))"
    "mirrors (rev (entry_keys s (before e s))) (tl (dropWhile (\<lambda>x. x \<noteq> savepoint_name_key name) (marks (env s))))"
    "savepoint_name_key name \<in> set (marks (env s))"
proof -
  have mem: "e \<in> set (entries_of s)" and dist: "distinct (entry_keys s (entries_of s))"
    and m: "mirrors (rev (entry_keys s (entries_of s))) (marks (env s))"
    using h e by (simp_all add: holds_def consistent_def)
  let ?later = "tl (dropWhile (\<lambda>x. x \<noteq> e) (entries_of s))"
  have keys: "entry_keys s (entries_of s) = entry_keys s (before e s) @ savepoint_name_key name # entry_keys s ?later"
    by (subst entries_split [OF mem]) (simp add: before_def entry_keys_Cons name)
  have eq: "rev (entry_keys s (entries_of s)) = rev (entry_keys s ?later) @ savepoint_name_key name # rev (entry_keys s (before e s))"
    unfolding keys by simp
  have dr: "distinct (rev (entry_keys s ?later) @ savepoint_name_key name # rev (entry_keys s (before e s)))"
    using dist unfolding keys by auto
  note skip = mirrors_skip [OF m [unfolded eq] dr]
  show "mirrors (rev (entry_keys s (before e s @ [e]))) (dropWhile (\<lambda>x. x \<noteq> savepoint_name_key name) (marks (env s)))"
    using skip(1) by (simp add: entry_keys_Cons name)
  show "mirrors (rev (entry_keys s (before e s))) (tl (dropWhile (\<lambda>x. x \<noteq> savepoint_name_key name) (marks (env s))))"
    by (rule skip(2))
  show "savepoint_name_key name \<in> set (marks (env s))" using mirrors_mem [OF m] unfolding keys by auto
qed

lemma close_last:
  assumes c: "consistent s" and r: "rooted s" and t: "active_transaction s t" and es: "entries_of s = us @ [TransactionEntry t]"
  shows "dropped (family s t) s (close_transaction t s)" "entries_of (close_transaction t s) = us" "rooted (close_transaction t s)"
proof -
  show d: "dropped (family s t) s (close_transaction t s)" by (rule close_dropped [OF c t])
  have dist: "distinct (us @ [TransactionEntry t])" and order: "owners_precede (\<lambda>p. owner (savepoints s p)) {} us"
    using c by (simp_all add: consistent_def es)
  have "e \<notin> family s t" if "e \<in> set us" for e
    using owners_precede_owner [OF order] that dist by (auto simp: family_def)
  moreover have "TransactionEntry t \<in> family s t" by (simp add: family_def)
  ultimately show ent: "entries_of (close_transaction t s) = us"
    using d es by (simp add: dropped_def filter_True)
  show "rooted (close_transaction t s)" by (rule rooted_prefix [OF r es ent dropped_name [OF d]])
qed

text \<open>The state in which the driver is called: everything begun after \<open>e\<close> is invalid.\<close>

lemma invalidated_later:
  assumes h: "holds marks s" and e: "entry_active s e" and k: "current s = Some k"
  defines "s1 \<equiv> invalidate_after k e s"
  shows "consistent s1" "rooted s1" "entries_of s1 = before e s @ [e]" "entry_active s1 e" "env s1 = env s"
    "entry_name s1 = entry_name s" "entry_keys s1 = entry_keys s" "\<And>t. state_of (transactions s1 t) = state_of (transactions s t)"
    "\<And>t. transaction_observer (transactions s1 t) = transaction_observer (transactions s t)"
    "\<And>p. owner (savepoints s1 p) = owner (savepoints s p)" "transaction_count s1 = transaction_count s"
proof -
  from h have c: "consistent s" and r: "rooted s" by (simp_all add: holds_def)
  note d = invalidate_after_dropped [OF c r e k, folded s1_def]
  show c1: "consistent s1" by (rule dropped_consistent [OF d(1)])
  show "rooted s1" by (rule d(3))
  show ent: "entries_of s1 = before e s @ [e]" using d(2) by (simp add: before_def)
  then have "e \<in> set (entries_of s1)" by simp
  then show "entry_active s1 e" using c1 by (simp add: consistent_def)
  show "env s1 = env s" "\<And>t. state_of (transactions s1 t) = state_of (transactions s t)"
    "\<And>t. transaction_observer (transactions s1 t) = transaction_observer (transactions s t)"
    "\<And>p. owner (savepoints s1 p) = owner (savepoints s p)" "transaction_count s1 = transaction_count s"
    using d(1) by (simp_all add: dropped_def)
  show "entry_name s1 = entry_name s" "entry_keys s1 = entry_keys s"
    using dropped_name [OF d(1)] dropped_keys [OF d(1)] by (simp_all add: fun_eq_iff)
qed

text \<open>Closing the transaction once its command has succeeded.\<close>

lemma completed:
  assumes h: "holds marks s" and t: "active_transaction s t"
    and m: "case generated_name (transactions s t) of None \<Rightarrow> True
      | Some name \<Rightarrow> marks w = tl (dropWhile (\<lambda>x. x \<noteq> savepoint_name_key name) (marks (env s)))"
  defines "s1 \<equiv> invalidate_after (state_of (transactions s t)) (TransactionEntry t) s"
  shows "holds marks (close_transaction t (s1\<lparr>env := w\<rparr>))"
    "entries_of (close_transaction t (s1\<lparr>env := w\<rparr>)) = before (TransactionEntry t) s"
proof -
  let ?e = "TransactionEntry t"
  have c: "consistent s" using h by (simp add: holds_def)
  note k = consistent_active(1) [OF c t]
  have e: "entry_active s ?e" using t by simp
  note later = invalidated_later [OF h e k, folded s1_def]
  have t2: "active_transaction (s1\<lparr>env := w\<rparr>) t" using later(4) by simp
  note last = close_last [of "s1\<lparr>env := w\<rparr>" t "before ?e s", simplified, OF later(1,2) _ later(3)]
  have t1: "active_transaction s1 t" using later(4) by simp
  show ent: "entries_of (close_transaction t (s1\<lparr>env := w\<rparr>)) = before ?e s" using last(2) [OF t1] .
  have "mirrors (rev (entry_keys s (before ?e s))) (marks w)"
  proof (cases "generated_name (transactions s t)")
    case None
    then have "before ?e s = []"
      using h consistent_active(2) [OF c t] by (auto simp: holds_def rooted_def before_def split: list.splits)
    then show ?thesis by simp
  next
    case (Some name)
    then show ?thesis using mirrored(2) [OF h e, of name] m by simp
  qed
  moreover have "entry_keys (close_transaction t (s1\<lparr>env := w\<rparr>)) (before ?e s) = entry_keys s (before ?e s)"
    using dropped_keys [OF last(1) [OF t1]] later(7) by simp
  moreover have "env (close_transaction t (s1\<lparr>env := w\<rparr>)) = w" using last(1) [OF t1] by (simp add: dropped_def)
  ultimately show "holds marks (close_transaction t (s1\<lparr>env := w\<rparr>))"
    using last(3) [OF t1] dropped_consistent [OF last(1) [OF t1]] by (simp add: holds_def ent)
qed

text \<open>What completing a transaction leaves: the entries before it, or none after a recovery.\<close>

definition completed_state :: "('w \<Rightarrow> string list) \<Rightarrow> nat \<Rightarrow> 'w world \<Rightarrow> 'w world \<Rightarrow> bool" where
  "completed_state marks t s s' \<longleftrightarrow> holds marks s'
     \<and> (entries_of s' = before (TransactionEntry t) s \<or> entries_of s' = [])"

definition past_state :: "('w \<Rightarrow> string list) \<Rightarrow> nat \<Rightarrow> 'w world \<Rightarrow> 'w world \<Rightarrow> bool" where
  "past_state marks t s s' \<longleftrightarrow> holds marks s' \<and> entries_of s' = before (TransactionEntry t) s"

lemma past_completed: "past_state marks t s s' \<Longrightarrow> completed_state marks t s s'"
  by (simp add: past_state_def completed_state_def)

lemma past_quiet: "past_state marks t s s' \<Longrightarrow> quiet marks s' s'' \<Longrightarrow> past_state marks t s s''"
  by (auto simp: past_state_def holds_quiet) (auto simp: quiet_def)

lemma completed_quiet:
  "completed_state marks t s s' \<Longrightarrow> quiet marks s' s'' \<Longrightarrow> completed_state marks t s s''"
  by (auto simp: completed_state_def holds_quiet) (auto simp: quiet_def)

lemma recovered:
  assumes d: "savepoint_driver c marks" and s: "consistent s'" and t: "active_transaction s' t"
  shows "wp (recover_after_control_failure c t e) Q (\<lambda>_. completed_state marks t s) s'"
  by (rule wp_mono [OF recovery [OF d s t]]) (auto simp: completed_state_def)

lemma completed_moved:
  assumes "holds marks s" "active_transaction s t"
    and "moved marks (\<lambda>m. case generated_name (transactions s t) of None \<Rightarrow> True
      | Some name \<Rightarrow> m = tl (dropWhile (\<lambda>x. x \<noteq> savepoint_name_key name) (marks (env s))))
      (invalidate_after (state_of (transactions s t)) (TransactionEntry t) s) s'"
  shows "past_state marks t s (close_transaction t s')"
  using assms(3) completed [OF assms(1,2)] by (auto simp: moved_def past_state_def split: option.splits)

lemma commit_spec:
  assumes d: "savepoint_driver c marks" and h: "holds marks s" and t: "active_transaction s t"
  shows "wp (commit_transaction c t) (\<lambda>_. past_state marks t s) (\<lambda>_. completed_state marks t s) s"
proof -
  let ?x = "transactions s t"
  define s1 where "s1 = invalidate_after (state_of ?x) (TransactionEntry t) s"
  have c: "consistent s" using h by (simp add: holds_def)
  note later = invalidated_later [OF h _ consistent_active(1) [OF c t], of "TransactionEntry t", folded s1_def]
  have c1: "consistent s1" "active_transaction s1 t" "env s1 = env s" using later(1,4,5) t by simp_all
  have usable: "\<not> closed_flag ?x" using t by (simp add: active_transaction_def)
  have fail: "wp (recover_after_control_failure c t e) Q (\<lambda>_. completed_state marks t s) s'" if "moved marks P s1 s'" for e s' P Q
    using recovered [OF d, of s' t] that c1 by (auto simp: moved_def)
  have succeed: "wp (observe c watcher cmd [] started (Some 0) None) (\<lambda>_. past_state marks t s)
      (\<lambda>_. completed_state marks t s) (close_transaction t s')"
    if "moved marks (\<lambda>m. case generated_name ?x of None \<Rightarrow> True
        | Some name \<Rightarrow> m = tl (dropWhile (\<lambda>x. x \<noteq> savepoint_name_key name) (marks (env s)))) s1 s'" for watcher cmd started s'
    by (rule wp_mono [OF observe_quiet [OF d]]) (blast intro: past_quiet past_completed completed_moved [OF h t that [unfolded s1_def]])+
  show ?thesis
  proof (cases "generated_name ?x")
    case None
    show ?thesis
      unfolding commit_transaction_def ensure_usable_def
      by (simp add: wp_simps usable raise_if_def Let_def None s1_def [symmetric])
        (rule wp_mono [OF control_top_level [OF d]], auto intro!: fail succeed simp: None wp_simps)
  next
    case (Some name)
    have "wp (run_control c (transaction_observer ?x) (''release savepoint '' @ name)
        (bind (execute_control c (''release savepoint '' @ name)) (\<lambda>_. ret ())))
      (\<lambda>_. moved marks (\<lambda>m. m = tl (dropWhile (\<lambda>x. x \<noteq> savepoint_name_key name) (marks (env s)))) s1)
      (\<lambda>_. moved marks (\<lambda>m. m = marks (env s)) s1) s1"
      by (rule control [OF d], unfold wp_simps, rule wp_mono [OF savepoint_commands(3) [OF d]])
        (auto simp: moved_keeps c1(3) [symmetric] intro: moved_mono)
    then show ?thesis
      unfolding commit_transaction_def ensure_usable_def
      by (simp add: wp_simps usable raise_if_def Let_def Some s1_def [symmetric])
        (erule wp_mono, auto intro!: fail succeed simp: Some wp_simps)
  qed
qed

lemma rollback_spec:
  assumes d: "savepoint_driver c marks" and h: "holds marks s" and t: "active_transaction s t"
  shows "wp (rollback_transaction c t) (\<lambda>_. past_state marks t s) (\<lambda>_. completed_state marks t s) s"
proof -
  let ?x = "transactions s t"
  define s1 where "s1 = invalidate_after (state_of ?x) (TransactionEntry t) s"
  have c: "consistent s" using h by (simp add: holds_def)
  note later = invalidated_later [OF h _ consistent_active(1) [OF c t], of "TransactionEntry t", folded s1_def]
  have c1: "consistent s1" "active_transaction s1 t" "env s1 = env s" using later(1,4,5) t by simp_all
  have usable: "\<not> closed_flag ?x" using t by (simp add: active_transaction_def)
  have fail: "wp (recover_after_control_failure c t e) Q (\<lambda>_. completed_state marks t s) s'" if "moved marks P s1 s'" for e s' P Q
    using recovered [OF d, of s' t] that c1 by (auto simp: moved_def)
  have succeed: "wp (observe c watcher cmd [] started (Some 0) None) (\<lambda>_. past_state marks t s)
      (\<lambda>_. completed_state marks t s) (close_transaction t s')"
    if "moved marks (\<lambda>m. case generated_name ?x of None \<Rightarrow> True
        | Some name \<Rightarrow> m = tl (dropWhile (\<lambda>x. x \<noteq> savepoint_name_key name) (marks (env s)))) s1 s'" for watcher cmd started s'
    by (rule wp_mono [OF observe_quiet [OF d]]) (blast intro: past_quiet past_completed completed_moved [OF h t that [unfolded s1_def]])+
  show ?thesis
  proof (cases "generated_name ?x")
    case None
    show ?thesis
      unfolding rollback_transaction_def ensure_usable_def
      by (simp add: wp_simps usable raise_if_def None s1_def [symmetric])
        (rule wp_mono [OF control_top_level [OF d]], auto intro!: fail succeed simp: None wp_simps)
  next
    case (Some name)
    let ?rewound = "dropWhile (\<lambda>x. x \<noteq> savepoint_name_key name) (marks (env s))"
    have again: "dropWhile P (dropWhile P xs) = dropWhile P xs" for P and xs :: "string list"
      by (induction xs) auto
    have release: "wp (release_rolled_back c t watcher (''release savepoint '' @ name) first)
        (\<lambda>_. past_state marks t s) (\<lambda>_. completed_state marks t s) s'"
      if m: "moved marks (\<lambda>m. m = ?rewound) s1 s'" for watcher first s'
    proof -
      from m obtain w where s': "s' = s1\<lparr>env := w\<rparr>" and w: "marks w = ?rewound" by (auto simp: moved_def)
      have over: "moved marks P s' s'' \<Longrightarrow> moved marks P s1 s''" for P s'' by (auto simp: moved_def s')
      show ?thesis
      proof (unfold release_rolled_back_def wp_try_else, rule wp_mono [OF control_commands(3) [OF d]])
        fix started s'' assume "moved marks (\<lambda>m. savepoint_name_key name \<in> set (marks (env s'))
            \<and> m = tl (dropWhile (\<lambda>x. x \<noteq> savepoint_name_key name) (marks (env s')))) s' s''"
        then have "moved marks (\<lambda>m. m = tl ?rewound) s1 s''" by (auto simp: s' w again moved_def)
        then have "wp (observe c watcher (''release savepoint '' @ name) [] started (Some 0) None)
            (\<lambda>_. past_state marks t s) (\<lambda>_. completed_state marks t s) (close_transaction t s'')"
          by (intro succeed) (simp add: Some)
        then show "wp (bind (act (close_transaction t)) (\<lambda>_. bind (outcome (observe c watcher (''release savepoint '' @ name)
              [] started (Some 0) None)) (\<lambda>second. pure (case first of Inl e \<Rightarrow> Inl e | Inr _ \<Rightarrow> second))))
            (\<lambda>_. past_state marks t s) (\<lambda>_. completed_state marks t s) s''"
          by (simp add: wp_simps) (erule wp_mono; simp add: wp_pure past_completed split: sum.splits)
      next
        fix e s'' assume "quiet marks s' s''"
        then have "moved marks (\<lambda>_. True) s1 s''" by (auto simp: quiet_def moved_def s')
        then show "wp (recover_after_control_failure c t e) (\<lambda>_. past_state marks t s) (\<lambda>_. completed_state marks t s) s''"
          by (rule fail)
      qed
    qed
    have "wp (run_control c (transaction_observer ?x) (''rollback to savepoint '' @ name)
          (execute_control c (''rollback to savepoint '' @ name)))
        (\<lambda>_. moved marks (\<lambda>m. m = ?rewound) s1) (\<lambda>_. moved marks (\<lambda>m. m = marks (env s1)) s1) s1"
      by (rule wp_mono [OF control_commands(2) [OF d]]) (auto simp: moved_keeps [of _ s1] c1(3) quiet_def moved_def)
    then show ?thesis
      unfolding rollback_transaction_def ensure_usable_def
      by (simp add: wp_simps usable raise_if_def Some s1_def [symmetric])
        (erule wp_mono, auto simp: wp_simps intro!: fail wp_mono [OF observe_quiet [OF d]] release [simplified] intro: moved_quiet)
  qed
qed

section \<open>Beginning transactions\<close>

lemma registry_for_connection:
  assumes h: "holds marks s"
  shows "wp transaction_state_for_connection (\<lambda>r s'. holds marks s' \<and> current s' = Some r \<and> (current s \<noteq> None \<longrightarrow> s' = s)
      \<and> entries_of s' = entries_of s \<and> env s' = env s) E s"
proof (cases "current s")
  case None
  let ?s = "s\<lparr>registries := (registries s)(registry_count s := empty_registry),
      registry_count := Suc (registry_count s), current := Some (registry_count s)\<rparr>"
  have es: "entries_of s = []" "entries_of ?s = []" by (simp_all add: entries_of_def None empty_registry_def)
  have act: "entry_active ?s e = entry_active s e" for e by (cases e) (simp_all add: active_transaction_def active_savepoint_def)
  have none: "\<not> entry_active s e" for e using h es(1) by (simp add: holds_def consistent_def)
  have "\<not> active_transaction ?s t" for t using none [of "TransactionEntry t"] act [of "TransactionEntry t"] by simp
  then have "consistent ?s" using none act es by (auto simp: consistent_def empty_registry_def)
  then show ?thesis using es None by (simp add: wp_def transaction_state_for_connection_def holds_empty)
next
  case (Some r)
  then show ?thesis using h by (simp add: wp_def transaction_state_for_connection_def)
qed

lemma same_state: "state_of (transactions s t) = r \<Longrightarrow> update_transaction t (\<lambda>x. x\<lparr>state_of := r\<rparr>) s = s"
  by (auto simp: update_transaction_def)

definition reserved :: "nat \<Rightarrow> string \<Rightarrow> 'w world \<Rightarrow> 'w world" where
  "reserved r name = update_registry r
     (\<lambda>g. g\<lparr>savepoint_names := insert (savepoint_name_key name) (savepoint_names g)\<rparr>)"

lemma unreserve:
  assumes "savepoint_name_key name \<notin> savepoint_names (registries s r)"
  shows "release_savepoint_names r {name} ((reserved r name s)\<lparr>env := w\<rparr>) = s\<lparr>env := w\<rparr>"
proof -
  have "registries s r\<lparr>savepoint_names := savepoint_names (registries s r) - {savepoint_name_key name}\<rparr> = registries s r"
    using assms by simp
  then show ?thesis by (simp add: release_savepoint_names_def reserved_def update_registry_def fun_upd_idem)
qed

lemma reserved_env [simp]: "env (reserved r name s) = env s" "current (reserved r name s) = current s"
  by (simp_all add: reserved_def update_registry_def)

lemma wp_reserve [wp_simps]:
  "wp (reserve_savepoint_name r name) Q E s = (if savepoint_name_key name \<in> savepoint_names (registries s r)
     then E (ValueError ''savepoint name is already active'' [name]) s else Q () (reserved r name s))"
  by (simp add: reserve_savepoint_name_def wp_simps raise_if_def reserved_def)

lemma wp_new_transaction:
  assumes "current s = Some r"
  shows "wp (new_transaction observer None r) Q E s = Q (transaction_count s) (with_new_transaction observer None r s)"
    "wp (new_transaction observer (Some name) r) Q E ((reserved r name s)\<lparr>env := w\<rparr>) =
       Q (transaction_count s) (with_new_transaction observer (Some name) r (s\<lparr>env := w\<rparr>))"
proof -
  have tsc: "wp transaction_state_for_connection Q E s' = Q r s'" if "current s' = Some r" for Q E and s' :: "'w world"
    using that by (simp add: wp_def transaction_state_for_connection_def)
  show "wp (new_transaction observer None r) Q E s = Q (transaction_count s) (with_new_transaction observer None r s)"
    by (simp add: new_transaction_def wp_simps tsc assms register_transaction_def update_registry_def with_new_transaction_def)
  show "wp (new_transaction observer (Some name) r) Q E ((reserved r name s)\<lparr>env := w\<rparr>) =
       Q (transaction_count s) (with_new_transaction observer (Some name) r (s\<lparr>env := w\<rparr>))"
    by (simp add: new_transaction_def wp_simps tsc assms register_transaction_def update_registry_def
      with_new_transaction_def reserved_def)
qed

lemma begun:
  assumes h: "holds marks s" and cur: "current s = Some r"
    and fresh: "\<And>name. generated = Some name \<Longrightarrow> savepoint_name_key name \<notin> savepoint_names (registries s r)
      \<and> entries_of s \<noteq> [] \<and> marks w = savepoint_name_key name # marks (env s)"
    and top: "generated = None \<Longrightarrow> entries_of s = []"
  shows "holds marks (with_new_transaction observer generated r (s\<lparr>env := w\<rparr>))"
    "active_transaction (with_new_transaction observer generated r (s\<lparr>env := w\<rparr>)) (transaction_count s)"
proof -
  have c: "consistent (s\<lparr>env := w\<rparr>)" and names: "savepoint_names (registries s r) = set (entry_keys s (entries_of s))"
    using h cur by (simp_all add: holds_def consistent_def)
  note new = new_transaction_adds [OF c, of r generated, simplified, OF cur]
  let ?s = "with_new_transaction observer generated r (s\<lparr>env := w\<rparr>)"
  have fr: "generated = Some name \<Longrightarrow> savepoint_name_key name \<notin> set (entry_keys s (entries_of s))" for name
    using fresh names by simp
  note new = new [OF fr]
  show "active_transaction ?s (transaction_count s)" using new(4) [where e = "TransactionEntry (transaction_count s)"] by simp
  have mem: "e \<in> set (entries_of s) \<Longrightarrow> entry_name ?s e = entry_name s e" for e
    using new(5) c by (simp add: consistent_def)
  have root: "rooted ?s \<longleftrightarrow> (case entries_of s @ [TransactionEntry (transaction_count s)] of [] \<Rightarrow> True
     | e # es \<Rightarrow> entry_name ?s e = None \<and> (\<forall>e' \<in> set es. entry_name ?s e' \<noteq> None))"
    by (simp only: rooted_def new(2))
  have "rooted ?s"
    using h mem new(6) [of observer] fresh top unfolding holds_def rooted_def [of s] root
    by (cases generated) (auto split: list.splits)
  moreover have keys: "entry_keys ?s (entries_of ?s) = entry_keys s (entries_of s) @ map savepoint_name_key (present [generated])"
    by (rule new(3))
  have "mirrors (rev (entry_keys ?s (entries_of ?s))) (marks (env ?s))"
  proof (cases generated)
    case None
    then show ?thesis using top unfolding keys by simp
  next
    case (Some name)
    then show ?thesis using h fresh unfolding keys by (simp add: holds_def with_new_transaction_def)
  qed
  ultimately show "holds marks ?s" using new(1) by (simp add: holds_def)
qed

lemma cleanup_spec:
  assumes d: "savepoint_driver c marks" and m: "marks (env s) = savepoint_name_key name # ms"
  shows "wp (cleanup_interrupted_savepoint c name) (\<lambda>_. moved marks (\<lambda>m. m = ms \<or> m = savepoint_name_key name # ms) s) E s"
  unfolding cleanup_interrupted_savepoint_def quietly_def wp_simps
proof (rule wp_mono [OF savepoint_commands(2) [OF d]])
  fix x s' assume "moved marks (\<lambda>m. savepoint_name_key name \<in> set (marks (env s))
      \<and> m = dropWhile (\<lambda>x. x \<noteq> savepoint_name_key name) (marks (env s))) s s'"
  then obtain w where s': "s' = s\<lparr>env := w\<rparr>" "marks w = savepoint_name_key name # ms" by (auto simp: moved_def m)
  show "wp (execute_control c (''release savepoint '' @ name))
      (\<lambda>_. moved marks (\<lambda>m. m = ms \<or> m = savepoint_name_key name # ms) s)
      (\<lambda>_. moved marks (\<lambda>m. m = ms \<or> m = savepoint_name_key name # ms) s) s'"
    by (rule wp_mono [OF savepoint_commands(3) [OF d]]) (auto simp: moved_def quiet_def s')
qed (auto simp: moved_def quiet_def m)

lemma unknown_mark:
  assumes h: "holds marks s" and cur: "current s = Some r" and name: "savepoint_name_key name \<notin> savepoint_names (registries s r)"
    and m: "marks w = marks (env s) \<or> marks w = savepoint_name_key name # marks (env s)"
  shows "holds marks (s\<lparr>env := w\<rparr>)"
proof -
  have "savepoint_name_key name \<notin> set (rev (entry_keys s (entries_of s)))"
    using h cur name by (simp add: holds_def consistent_def)
  then show ?thesis using h m by (auto simp: holds_def dest: mirrors_unknown)
qed

lemma holds_sequence [simp]:
  "holds marks (s\<lparr>sequence := n\<rparr>) = holds marks s" "entries_of (s\<lparr>sequence := n\<rparr>) = entries_of s"
proof -
  have nm: "entry_name (s\<lparr>sequence := n\<rparr>) = entry_name s" "entry_active (s\<lparr>sequence := n\<rparr>) = entry_active s"
    by (rule ext; rename_tac e; case_tac e; simp add: active_transaction_def active_savepoint_def)+
  show es: "entries_of (s\<lparr>sequence := n\<rparr>) = entries_of s" by (simp add: entries_of_def cong: option.case_cong)
  have "active_transaction (s\<lparr>sequence := n\<rparr>) = active_transaction s" "active_savepoint (s\<lparr>sequence := n\<rparr>) = active_savepoint s"
    by (simp_all add: fun_eq_iff active_transaction_def active_savepoint_def)
  then show "holds marks (s\<lparr>sequence := n\<rparr>) = holds marks s"
    by (simp add: holds_def consistent_def rooted_def entry_keys_def nm es cong: list.case_cong)
qed

text \<open>The \<open>SAVEPOINT\<close> command under a reserved name: on failure the name is free again.\<close>

lemma reserved_command:
  assumes d: "savepoint_driver c marks" and h: "holds marks s" and cur: "current s = Some r"
    and name: "savepoint_name_key name \<notin> savepoint_names (registries s r)"
  shows "wp (on_error (run_control c observer (''savepoint '' @ name) (execute_control c (''savepoint '' @ name)))
         (\<lambda>e. bind (act (release_savepoint_names r {name})) (\<lambda>_. raise e)))
       (\<lambda>_. moved marks (\<lambda>m. m = savepoint_name_key name # marks (env s)) (reserved r name s)) (\<lambda>_. holds marks) (reserved r name s)"
  unfolding wp_on_error
proof (rule wp_mono [OF control_commands(1) [OF d]])
  fix e s' assume "quiet marks (reserved r name s) s'"
  then obtain w where s': "s' = (reserved r name s)\<lparr>env := w\<rparr>" "marks w = marks (env s)" by (auto simp: quiet_def)
  then have "holds marks (s\<lparr>env := w\<rparr>)" using unknown_mark [OF h cur name, of w] by simp
  then show "wp (bind (act (release_savepoint_names r {name})) (\<lambda>_. raise e))
      (\<lambda>_. moved marks (\<lambda>m. m = savepoint_name_key name # marks (env s)) (reserved r name s)) (\<lambda>_. holds marks) s'"
    by (simp add: wp_simps s'(1) unreserve [OF name])
qed simp

lemma begin_nested_spec:
  assumes d: "savepoint_driver c marks" and h0: "holds marks s0" and cur0: "current s0 = Some r" and ne0: "entries_of s0 \<noteq> []"
  shows "wp (begin_nested c observer r) (\<lambda>t s'. holds marks s' \<and> active_transaction s' t) (\<lambda>_. holds marks) s0"
proof -
  define s where "s = s0\<lparr>sequence := Suc (sequence s0)\<rparr>"
  have h: "holds marks s" and cur: "current s = Some r" and ne: "entries_of s \<noteq> []"
    using h0 cur0 ne0 by (simp_all add: s_def)
  have observed: "wp (on_error (observe c observer (''savepoint '' @ name) [] started (Some 0) None)
         (\<lambda>e. bind (act (release_savepoint_names r {name})) (\<lambda>_.
           bind (cleanup_interrupted_savepoint c name) (\<lambda>_. raise e))))
       (\<lambda>_. moved marks (\<lambda>m. m = savepoint_name_key name # marks (env s)) (reserved r name s)) (\<lambda>_. holds marks) s'"
    if name: "savepoint_name_key name \<notin> savepoint_names (registries s r)"
      and s': "moved marks (\<lambda>m. m = savepoint_name_key name # marks (env s)) (reserved r name s) s'" for name started s'
    unfolding wp_on_error
  proof (rule wp_mono [OF observe_quiet [OF d]], blast intro: moved_quiet s')
    fix e s'' assume "quiet marks s' s''"
    then obtain v where v: "s'' = (reserved r name s)\<lparr>env := v\<rparr>" "marks v = savepoint_name_key name # marks (env s)"
      using s' by (auto simp: quiet_def moved_def)
    have "wp (cleanup_interrupted_savepoint c name) (\<lambda>_. holds marks) (\<lambda>_. holds marks) (s\<lparr>env := v\<rparr>)"
      by (rule wp_mono [OF cleanup_spec [OF d, where E = "\<lambda>_ _. False"]])
        (use v(2) unknown_mark [OF h cur name] in \<open>auto simp: moved_def\<close>)
    then show "wp (bind (act (release_savepoint_names r {name})) (\<lambda>_. bind (cleanup_interrupted_savepoint c name) (\<lambda>_. raise e)))
        (\<lambda>_. moved marks (\<lambda>m. m = savepoint_name_key name # marks (env s)) (reserved r name s)) (\<lambda>_. holds marks) s''"
      by (simp add: wp_simps v(1) unreserve [OF name]) (erule wp_mono; simp add: wp_simps)
  qed
  have started: "wp (new_transaction observer (Some name) r) (\<lambda>t s'. holds marks s' \<and> active_transaction s' t) (\<lambda>_. holds marks) s'"
    if "savepoint_name_key name \<notin> savepoint_names (registries s r)"
      "moved marks (\<lambda>m. m = savepoint_name_key name # marks (env s)) (reserved r name s) s'" for name s'
    using that begun [OF h cur, of "Some name"] ne by (auto simp: moved_def wp_new_transaction(2) [OF cur])
  show ?thesis
    unfolding begin_nested_def wp_bind wp_ask wp_act s_def [symmetric] wp_pure wp_reserve
    by (auto simp: h simp del: append_Cons split: sum.splits
      intro!: wp_mono [OF reserved_command [OF d h cur]] wp_mono [OF observed] started)
qed

lemma begin_top_level_spec:
  assumes d: "savepoint_driver c marks" and h: "holds marks s" and cur: "current s = Some r" and ne: "entries_of s = []"
  shows "wp (begin_top_level c observer r) (\<lambda>t s'. holds marks s' \<and> active_transaction s' t) (\<lambda>_. holds marks) s"
proof -
  have any: "holds marks s'" if "moved marks P s s'" for P s'
    using that h ne by (auto simp: moved_def holds_def)
  have started: "wp (new_transaction observer None r) (\<lambda>t s'. holds marks s' \<and> active_transaction s' t) (\<lambda>_. holds marks) s'"
    if "moved marks P s s'" for P s'
    using that begun [OF h cur, of None] ne by (auto simp: moved_def wp_new_transaction(1) cur)
  have cleaned: "wp (cleanup_interrupted_transaction c) (\<lambda>_. moved marks (\<lambda>_. True) s) E s'" if "moved marks P s s'" for P s' E
    using that by (auto simp: cleanup_interrupted_transaction_def quietly_def execute_control_def wp_simps moved_def
      split: prod.splits sum.splits)
  have opened: "wp (on_error (bind (run_control c observer cmd (execute_control c cmd))
               (\<lambda>started. observe c observer cmd [] started (Some 0) None))
             (\<lambda>e. bind (cleanup_interrupted_transaction c) (\<lambda>_. raise e)))
       (\<lambda>_. moved marks (\<lambda>_. True) s) (\<lambda>_. holds marks) s" for cmd
    unfolding wp_on_error wp_bind
    by (rule wp_mono [OF control_any [OF d]]; (rule wp_mono [OF observe_quiet [OF d]])?;
      (rule wp_mono [OF cleaned])?; auto simp: wp_simps intro: moved_quiet any)
  show ?thesis
    unfolding begin_top_level_def wp_bind wp_ask
    by (auto simp: wp_ret wp_ask wp_pure wp_bind h split: sum.splits intro!: wp_mono [OF opened] started quiet_moved)
qed

definition valid_handle :: "handle \<Rightarrow> 'w world \<Rightarrow> bool" where
  "valid_handle h s = (case h of Database _ \<Rightarrow> True | Transaction t \<Rightarrow> t < transaction_count s)"

lemma stack_empty:
  assumes "holds marks s" "current s = Some r"
  shows "stack (registries s r) = [] \<longleftrightarrow> entries_of s = []"
proof (cases "entries_of s")
  case Nil
  then show ?thesis using assms by (simp add: holds_def consistent_def)
next
  case (Cons e es)
  then have "entry_name s e = None" using assms by (simp add: holds_def rooted_def)
  then obtain t where "e = TransactionEntry t" by (cases e) simp_all
  then show ?thesis using assms Cons by (simp add: holds_def consistent_def)
qed

lemma begin_spec:
  assumes d: "savepoint_driver c marks" and h: "holds marks s" and valid: "valid_handle handle s"
  shows "wp (begin_transaction c handle) (\<lambda>t s'. holds marks s' \<and> active_transaction s' t) (\<lambda>_. holds marks) s"
proof -
  let ?ok = "case handle of Database _ \<Rightarrow> True | Transaction t \<Rightarrow> active_transaction s t"
  have begun: "wp (if stack (registries s' r) \<noteq> [] then begin_nested c observer r else begin_top_level c observer r)
      (\<lambda>t s'. holds marks s' \<and> active_transaction s' t) (\<lambda>_. holds marks) s'"
    if "holds marks s'" "current s' = Some r" for observer r s'
    using begin_nested_spec [OF d that] begin_top_level_spec [OF d that] stack_empty [OF that] by simp
  have refreshed: "wp (bind (act (\<lambda>s. case handle of Database _ \<Rightarrow> s | Transaction t \<Rightarrow> update_transaction t (\<lambda>x. x\<lparr>state_of := r\<rparr>) s)) (\<lambda>_.
       bind (ask (observer_of handle)) (\<lambda>observer. bind (ask (\<lambda>s. stack (registries s r))) (\<lambda>open.
         if open \<noteq> [] then begin_nested c observer r else begin_top_level c observer r))))
      (\<lambda>t s'. holds marks s' \<and> active_transaction s' t) (\<lambda>_. holds marks) s'"
    if ok: ?ok and s': "holds marks s' \<and> current s' = Some r \<and> (current s \<noteq> None \<longrightarrow> s' = s)" for r s'
  proof -
    have "(case handle of Database _ \<Rightarrow> s' | Transaction t \<Rightarrow> update_transaction t (\<lambda>x. x\<lparr>state_of := r\<rparr>) s') = s'"
    proof (cases handle)
      case (Transaction t)
      then have "current s = Some (state_of (transactions s t))"
        using consistent_active(1) [of s t] h ok by (simp add: holds_def)
      then show ?thesis using s' Transaction by (auto intro: same_state)
    qed simp
    then show ?thesis using begun s' by (simp add: wp_act wp_ask wp_bind)
  qed
  have usable: "wp (ensure_usable handle) (\<lambda>_ s'. s' = s \<and> ?ok) (\<lambda>_. holds marks) s"
    using h valid by (auto simp: ensure_usable_def wp_simps raise_if_def active_transaction_def valid_handle_def
      split: handle.splits)
  show ?thesis
    unfolding begin_transaction_def wp_bind [of "ensure_usable _"] wp_bind [of transaction_state_for_connection]
    by (rule wp_mono [OF usable], elim conjE, hypsubst, rule wp_mono [OF registry_for_connection [OF h]])
      (auto intro: refreshed)
qed

section \<open>Savepoints\<close>

lemma savepoint_made:
  assumes h: "holds marks s" and t: "active_transaction s t"
    and name: "savepoint_name_key name \<notin> savepoint_names (registries s (state_of (transactions s t)))"
    and w: "marks w = savepoint_name_key name # marks (env s)"
  defines "s' \<equiv> with_new_savepoint t name (state_of (transactions s t)) (s\<lparr>env := w\<rparr>)"
  shows "holds marks s'" "active_savepoint s' (savepoint_count s)" "entries_of s' = entries_of s @ [SavepointEntry (savepoint_count s)]"
proof -
  have c: "consistent (s\<lparr>env := w\<rparr>)" "active_transaction (s\<lparr>env := w\<rparr>) t" using h t by (simp_all add: holds_def)
  have c0: "consistent s" using h by (simp add: holds_def)
  have fr: "savepoint_name_key name \<notin> set (entry_keys (s\<lparr>env := w\<rparr>) (entries_of (s\<lparr>env := w\<rparr>)))"
    using name h consistent_active(1) [OF c0 t] by (simp add: holds_def consistent_def)
  note new = new_savepoint_adds [OF c fr, simplified, folded s'_def]
  show "active_savepoint s' (savepoint_count s)" using new(4) [of "SavepointEntry (savepoint_count s)"] by simp
  show "entries_of s' = entries_of s @ [SavepointEntry (savepoint_count s)]" by (rule new(2))
  have ne: "entries_of s \<noteq> []" using consistent_active(2) [OF c0 t] by auto
  have mem: "e \<in> set (entries_of s) \<Longrightarrow> entry_name s' e = entry_name s e" for e
    using new(5) c0 by (simp add: consistent_def)
  have "rooted s'"
    using h mem ne unfolding holds_def rooted_def [of s] rooted_def [of s'] new(2) by (auto split: list.splits)
  moreover have "mirrors (rev (entry_keys s' (entries_of s'))) (marks (env s'))"
    unfolding new(3) using h w by (simp add: holds_def s'_def with_new_savepoint_def)
  ultimately show "holds marks s'" using new(1) by (simp add: holds_def)
qed

text \<open>Taking the newest entry away, when its mark may still be there.\<close>

lemma newest_dropped:
  assumes h: "holds marks s" and es: "entries_of s = us @ [e]" and d: "dropped {e} s s'" and ne: "us \<noteq> []"
  shows "entries_of s' = us" "holds marks s'"
proof -
  have c: "distinct (us @ [e])" "distinct (entry_keys s (us @ [e]))" using h es by (simp_all add: holds_def consistent_def)
  show ent: "entries_of s' = us" using d es c(1) by (auto simp: dropped_def intro!: filter_True)
  have "rooted s'" using rooted_prefix [OF _ es ent dropped_name [OF d]] h by (simp add: holds_def)
  moreover have "mirrors (rev (entry_keys s us)) (marks (env s))"
    using h es c(2) mirrors_drop [of "rev (entry_keys s [e])" "rev (entry_keys s us)"] by (auto simp: holds_def Int_commute)
  ultimately show "holds marks s'"
    using d dropped_keys [OF d] by (simp add: holds_def ent) (simp add: dropped_def)
qed

lemma mirrors_pop: "mirrors ks (k # marks) \<Longrightarrow> k \<notin> set ks \<Longrightarrow> mirrors ks marks"
  by (cases ks) auto

text \<open>Undoing a savepoint whose observer was interrupted.\<close>

lemma undone_spec:
  assumes d: "savepoint_driver c marks" and h: "holds marks s" and p: "active_savepoint s p"
    and es: "entries_of s = us @ [SavepointEntry p]" and ne: "us \<noteq> []"
    and m: "marks (env s) = savepoint_name_key (quoted_name (savepoints s p)) # ms"
  shows "wp (bind (act (invalidate_savepoint p)) (\<lambda>_.
      bind (quietly (execute_control c (''release savepoint '' @ quoted_name (savepoints s p)))) (\<lambda>_. raise e)))
     Q (\<lambda>_. holds marks) s"
proof -
  let ?k = "savepoint_name_key (quoted_name (savepoints s p))"
  define s4 where "s4 = invalidate_savepoint p s"
  have c: "consistent s" "p < savepoint_count s" using h p by (simp_all add: holds_def active_savepoint_def)
  note dr = invalidate_savepoint_dropped [OF c, folded s4_def]
  note gone = newest_dropped [OF h es dr ne]
  have env4: "env s4 = env s" using dr by (simp add: dropped_def)
  have "distinct (entry_keys s (us @ [SavepointEntry p]))" using c(1) es by (simp add: consistent_def)
  then have "?k \<notin> set (rev (entry_keys s4 us))" by (simp add: dropped_keys [OF dr] entry_keys_Cons)
  then have "mirrors (rev (entry_keys s4 us)) ms" using gone m env4 mirrors_pop [of _ ?k ms] by (simp add: holds_def)
  then have released: "holds marks s5" if "moved marks (\<lambda>m'. ?k \<in> set (marks (env s4))
      \<and> m' = tl (dropWhile (\<lambda>x. x \<noteq> ?k) (marks (env s4)))) s4 s5" for s5
    using that gone by (auto simp: moved_def holds_def env4 m)
  show ?thesis
    unfolding wp_bind wp_act s4_def [symmetric] quietly_def wp_on_error
    by (rule wp_mono [OF savepoint_commands(3) [OF d]])
      (use gone released in \<open>auto simp: wp_simps holds_quiet\<close>)
qed

lemma create_savepoint_spec:
  assumes d: "savepoint_driver c marks" and h: "holds marks s" and t: "active_transaction s t"
  shows "wp (create_savepoint c t name) (\<lambda>p s'. holds marks s' \<and> active_savepoint s' p) (\<lambda>_. holds marks) s"
proof -
  define r where "r = state_of (transactions s t)"
  have c: "consistent s" using h by (simp add: holds_def)
  have cur: "current s = Some r" and ne: "entries_of s \<noteq> []"
    using consistent_active(1,2) [OF c t] by (auto simp: r_def)
  have usable: "\<not> closed_flag (transactions s t)" using t by (simp add: active_transaction_def)
  let ?p = "savepoint_count s"
  have finish: "wp (bind (act (\<lambda>s. register_savepoint r p (update_transaction t
         (\<lambda>y. y\<lparr>own_names := insert quoted (own_names y), own_savepoints := own_savepoints y @ [p]\<rparr>)
         (s\<lparr>savepoint_count := Suc p, savepoints := (savepoints s)(p :=
           \<lparr>owner = t, quoted_name = quoted, released = False, invalidated = False\<rparr>)\<rparr>)))) (\<lambda>_.
     on_error (bind (observe c watcher (''savepoint '' @ quoted) [] started (Some 0) None) (\<lambda>_. ret p))
       (\<lambda>e. bind (act (invalidate_savepoint p)) (\<lambda>_.
         bind (quietly (execute_control c (''release savepoint '' @ quoted))) (\<lambda>_. raise e)))))
      (\<lambda>p s'. holds marks s' \<and> active_savepoint s' p) (\<lambda>_. holds marks) s'"
    if q: "savepoint_name_key quoted \<notin> savepoint_names (registries s r)"
      and s': "moved marks (\<lambda>m. m = savepoint_name_key quoted # marks (env s)) (reserved r quoted s) s'"
      and p: "p = ?p" for quoted watcher started s' p
  proof -
    from s' obtain w where w: "s' = (reserved r quoted s)\<lparr>env := w\<rparr>" "marks w = savepoint_name_key quoted # marks (env s)"
      by (auto simp: moved_def)
    define s2 where "s2 = with_new_savepoint t quoted r (s\<lparr>env := w\<rparr>)"
    have step: "register_savepoint r p (update_transaction t
         (\<lambda>y. y\<lparr>own_names := insert quoted (own_names y), own_savepoints := own_savepoints y @ [p]\<rparr>)
         (s'\<lparr>savepoint_count := Suc p, savepoints := (savepoints s')(p :=
           \<lparr>owner = t, quoted_name = quoted, released = False, invalidated = False\<rparr>)\<rparr>)) = s2"
      by (simp add: s2_def with_new_savepoint_def register_savepoint_def update_defs' w(1) reserved_def p)
    note made = savepoint_made [OF h t q [unfolded r_def] w(2), folded r_def, folded s2_def]
    have env2: "marks (env s2) = savepoint_name_key quoted # marks (env s)" by (simp add: s2_def with_new_savepoint_def w)
    have name2: "quoted_name (savepoints s2 p) = quoted" by (simp add: s2_def with_new_savepoint_def p)
    have undone: "wp (bind (act (invalidate_savepoint p)) (\<lambda>_.
         bind (quietly (execute_control c (''release savepoint '' @ quoted))) (\<lambda>_. raise e))) Q (\<lambda>_. holds marks) s3"
      if s3: "quiet marks s2 s3" for e s3 and Q :: "nat \<Rightarrow> 'a world \<Rightarrow> bool"
    proof -
      from s3 obtain v where s3: "s3 = s2\<lparr>env := v\<rparr>" "marks v = marks (env s2)" by (auto simp: quiet_def)
      have "holds marks s3" using made(1) s3 by (simp add: holds_def)
      from undone_spec [OF d this _ _ ne, of p "marks (env s)"] show ?thesis
        using made(2,3) env2 name2 s3 by (simp add: p)
    qed
    show ?thesis
      unfolding wp_bind wp_act step wp_on_error wp_ret
      by (rule wp_mono [OF observe_quiet [OF d]])
        (use made in \<open>force simp: quiet_def p holds_def\<close>, erule undone [unfolded wp_bind wp_act])
  qed
  show ?thesis
    unfolding create_savepoint_def ensure_usable_def wp_bind [of "ask _"] wp_ask handle.case
      wp_bind [of "bind _ _"] wp_bind [of "pure _"] wp_pure wp_bind [of "reserve_savepoint_name _ _"] wp_reserve
    by (auto simp: usable raise_if_def r_def [symmetric] h simp del: append_Cons split: sum.splits)
      (subst wp_bind, rule wp_mono [OF reserved_command [OF d h cur]], assumption,
        subst wp_bind, subst wp_ask, rule finish,
        auto simp: moved_def reserved_def update_registry_def)
qed

text \<open>A savepoint operation on an active savepoint: what is left is its past, with it or without it.\<close>

definition cut_state :: "('w \<Rightarrow> string list) \<Rightarrow> nat \<Rightarrow> bool \<Rightarrow> 'w world \<Rightarrow> 'w world \<Rightarrow> bool" where
  "cut_state marks p kept s s' \<longleftrightarrow> holds marks s'
     \<and> (entries_of s' = before (SavepointEntry p) s @ (if kept then [SavepointEntry p] else []) \<or> entries_of s' = [])"

definition kept_state :: "('w \<Rightarrow> string list) \<Rightarrow> nat \<Rightarrow> bool \<Rightarrow> 'w world \<Rightarrow> 'w world \<Rightarrow> bool" where
  "kept_state marks p kept s s' \<longleftrightarrow> holds marks s'
     \<and> entries_of s' = before (SavepointEntry p) s @ (if kept then [SavepointEntry p] else [])"

lemma kept_cut: "kept_state marks p kept s s' \<Longrightarrow> cut_state marks p kept s s'"
  by (simp add: kept_state_def cut_state_def)

lemma kept_quiet: "kept_state marks p kept s s' \<Longrightarrow> quiet marks s' s'' \<Longrightarrow> kept_state marks p kept s s''"
  by (auto simp: kept_state_def holds_quiet) (auto simp: quiet_def)

lemma savepoint_failed_spec:
  assumes d: "savepoint_driver c marks" and h: "holds marks s" and p: "active_savepoint s p" and q: "quiet marks s s'"
  shows "wp (savepoint_failed c p e) Q (\<lambda>_ s''. holds marks s'' \<and> entries_of s'' = []) s'"
proof -
  have h': "holds marks s'" and p': "active_savepoint s' p" using h p q by (auto simp: quiet_def holds_def)
  have c: "consistent s'" using h' by (simp add: holds_def)
  let ?t = "owner (savepoints s' p)"
  have t: "active_transaction s' ?t" by (rule consistent_owner(2) [OF c p'])
  note cur = consistent_active(1) [OF c t]
  define s1 where "s1 = invalidate_after (state_of (transactions s' ?t)) (SavepointEntry p) s'"
  have e: "entry_active s' (SavepointEntry p)" using p' by simp
  note later = invalidated_later [OF h' e cur, folded s1_def]
  have p1: "active_savepoint s1 p" using later(4) by simp
  have t1: "active_transaction s1 ?t" using consistent_owner(2) [OF later(1) p1] later(10) by simp
  have dr: "dropped {SavepointEntry p} s1 (invalidate_savepoint p s1)"
    using invalidate_savepoint_dropped [OF later(1)] p1 by (simp add: active_savepoint_def)
  have "active_transaction (invalidate_savepoint p s1) ?t" using dropped_active(1) [OF dr] t1 by simp
  then show ?thesis
    unfolding savepoint_failed_def wp_bind wp_ask wp_act s1_def [symmetric]
    by (rule recovery [OF d dropped_consistent [OF dr]])
qed

lemma wp_usable_savepoint:
  assumes h: "holds marks s" and p: "p < savepoint_count s"
    and main: "active_savepoint s p \<Longrightarrow> Q () s" and dead: "\<not> active_savepoint s p \<Longrightarrow> E (TransactionUnavailableError ''savepoint is no longer usable'') s \<and> E (TransactionUnavailableError ''controlled transaction is no longer usable'') s"
  shows "wp (ensure_usable_savepoint p) Q E s"
proof -
  have "active_savepoint s p \<Longrightarrow> \<not> closed_flag (transactions s (owner (savepoints s p)))"
    using consistent_owner(2) [of s p] h by (simp add: holds_def active_transaction_def)
  then show ?thesis using p main dead
    by (auto simp: ensure_usable_savepoint_def ensure_usable_def wp_simps raise_if_def active_savepoint_def)
qed

text \<open>After the command: its effect on the marks is the one on the registry.\<close>

lemma cut:
  assumes h: "holds marks s" and p: "active_savepoint s p"
  defines "r \<equiv> state_of (transactions s (owner (savepoints s p)))" and "key \<equiv> savepoint_name_key (quoted_name (savepoints s p))"
  shows "moved marks (\<lambda>m. m = dropWhile (\<lambda>x. x \<noteq> key) (marks (env s))) s s' \<Longrightarrow>
      kept_state marks p True s (invalidate_after r (SavepointEntry p) s')"
    "moved marks (\<lambda>m. m = tl (dropWhile (\<lambda>x. x \<noteq> key) (marks (env s)))) s s' \<Longrightarrow>
      kept_state marks p False s (update_savepoint p (\<lambda>y. y\<lparr>released := True\<rparr>)
        (release_savepoint_object (owner (savepoints s p)) p s'))"
proof -
  have c: "consistent s" and e: "entry_active s (SavepointEntry p)" "entry_name s (SavepointEntry p) = Some (quoted_name (savepoints s p))"
    using h p by (simp_all add: holds_def)
  note cur = consistent_active(1) [OF c consistent_owner(2) [OF c p], folded r_def]
  let ?e = "SavepointEntry p"
  have later: "consistent s1" "rooted s1" "entries_of s1 = before ?e s @ [?e]" "active_savepoint s1 p" "env s1 = w"
    "entry_keys s1 = entry_keys s" "owner (savepoints s1 p) = owner (savepoints s p)"
    if "s1 = invalidate_after r ?e (s\<lparr>env := w\<rparr>)" for w s1
  proof -
    have "holds (\<lambda>_. marks (env s)) (s\<lparr>env := w\<rparr>)" using h by (simp add: holds_def)
    from invalidated_later [OF this, of ?e r, folded that] e(1) cur
    show "consistent s1" "rooted s1" "entries_of s1 = before ?e s @ [?e]" "active_savepoint s1 p" "env s1 = w"
      "entry_keys s1 = entry_keys s" "owner (savepoints s1 p) = owner (savepoints s p)"
      by (simp_all add: before_def)
  qed
  note m = mirrored(1,2) [OF h e, folded key_def]
  show "kept_state marks p True s (invalidate_after r (SavepointEntry p) s')"
    if "moved marks (\<lambda>m. m = dropWhile (\<lambda>x. x \<noteq> key) (marks (env s))) s s'"
  proof -
    from that obtain w where w: "s' = s\<lparr>env := w\<rparr>" "marks w = dropWhile (\<lambda>x. x \<noteq> key) (marks (env s))" by (auto simp: moved_def)
    note l = later [OF refl, of w]
    show ?thesis using l m(1) w by (simp add: kept_state_def holds_def)
  qed
  show "kept_state marks p False s (update_savepoint p (\<lambda>y. y\<lparr>released := True\<rparr>)
        (release_savepoint_object (owner (savepoints s p)) p s'))"
    if "moved marks (\<lambda>m. m = tl (dropWhile (\<lambda>x. x \<noteq> key) (marks (env s)))) s s'"
  proof -
    from that obtain w where w: "s' = s\<lparr>env := w\<rparr>" "marks w = tl (dropWhile (\<lambda>x. x \<noteq> key) (marks (env s)))" by (auto simp: moved_def)
    define s1 where "s1 = invalidate_after r ?e (s\<lparr>env := w\<rparr>)"
    note l = later [OF s1_def]
    define s2 where "s2 = update_savepoint p (\<lambda>y. y\<lparr>released := True\<rparr>) (forget_savepoint (owner (savepoints s p)) p s1)"
    have dr: "dropped {?e} s1 s2"
      using savepoint_dropped [OF l(1,4), of "\<lambda>y. y\<lparr>released := True\<rparr>"] l(7) by (simp add: s2_def)
    have "distinct (entries_of s1)" using l(1) by (simp add: consistent_def)
    then have ent: "entries_of s2 = before ?e s" using dr l(3) by (auto simp: dropped_def intro!: filter_True)
    have "rooted s2" by (rule rooted_prefix [OF l(2,3) ent dropped_name [OF dr]])
    moreover have "mirrors (rev (entry_keys s2 (before ?e s))) (marks (env s2))"
      using m(2) w(2) l(5,6) dropped_keys [OF dr] dr by (simp add: dropped_def)
    ultimately have "kept_state marks p False s s2" using dropped_consistent [OF dr] by (simp add: kept_state_def holds_def ent)
    then show ?thesis by (simp add: s2_def s1_def release_savepoint_object_def w(1) r_def)
  qed
qed

lemma release_savepoint_spec:
  assumes d: "savepoint_driver c marks" and h: "holds marks s" and p: "active_savepoint s p"
  shows "wp (release_savepoint c p) (\<lambda>_. kept_state marks p False s) (\<lambda>_. cut_state marks p False s) s"
proof -
  have pc: "p < savepoint_count s" using p by (simp add: active_savepoint_def)
  have "wp (try_else (run_control c watcher (''release savepoint '' @ quoted_name (savepoints s p))
        (execute_control c (''release savepoint '' @ quoted_name (savepoints s p)))) (savepoint_failed c p)
      (\<lambda>started. bind (act (\<lambda>s'. update_savepoint p (\<lambda>y. y\<lparr>released := True\<rparr>)
           (release_savepoint_object (owner (savepoints s p)) p s')))
         (\<lambda>_. observe c watcher (''release savepoint '' @ quoted_name (savepoints s p)) [] started (Some 0) None)))
      (\<lambda>_. kept_state marks p False s) (\<lambda>_. cut_state marks p False s) s" for watcher
    unfolding wp_try_else wp_bind wp_act
  proof (rule wp_mono [OF control_commands(3) [OF d]])
    fix started s'
    assume "moved marks (\<lambda>m. savepoint_name_key (quoted_name (savepoints s p)) \<in> set (marks (env s))
       \<and> m = tl (dropWhile (\<lambda>x. x \<noteq> savepoint_name_key (quoted_name (savepoints s p))) (marks (env s)))) s s'"
    then have "kept_state marks p False s (update_savepoint p (\<lambda>y. y\<lparr>released := True\<rparr>)
        (release_savepoint_object (owner (savepoints s p)) p s'))"
      by (intro cut(2) [OF h p]) (auto simp: moved_def)
    then show "wp (observe c watcher (''release savepoint '' @ quoted_name (savepoints s p)) [] started (Some 0) None)
        (\<lambda>_. kept_state marks p False s) (\<lambda>_. cut_state marks p False s)
        (update_savepoint p (\<lambda>y. y\<lparr>released := True\<rparr>) (release_savepoint_object (owner (savepoints s p)) p s'))"
      by (intro wp_mono [OF observe_quiet [OF d]]) (auto intro: kept_quiet kept_cut)
  next
    fix e s' assume "quiet marks s s'"
    from savepoint_failed_spec [OF d h p this]
    show "wp (savepoint_failed c p e) (\<lambda>_. kept_state marks p False s) (\<lambda>_. cut_state marks p False s) s'"
      by (rule wp_mono) (auto simp: cut_state_def)
  qed
  then show ?thesis
    unfolding release_savepoint_def wp_bind [of "ensure_usable_savepoint _"] Let_def
    by (intro wp_usable_savepoint [OF h pc]) (use p in \<open>simp_all add: wp_bind [of "ask _"] wp_ask\<close>)
qed

lemma rollback_savepoint_spec:
  assumes d: "savepoint_driver c marks" and h: "holds marks s" and p: "active_savepoint s p"
  shows "wp (rollback_savepoint c p) (\<lambda>_. kept_state marks p True s) (\<lambda>_. cut_state marks p True s) s"
proof -
  have pc: "p < savepoint_count s" using p by (simp add: active_savepoint_def)
  let ?r = "state_of (transactions s (owner (savepoints s p)))"
  have "wp (try_else (run_control c watcher (''rollback to savepoint '' @ quoted_name (savepoints s p))
        (execute_control c (''rollback to savepoint '' @ quoted_name (savepoints s p)))) (savepoint_failed c p)
      (\<lambda>started. bind (act (\<lambda>s'. invalidate_after (state_of (transactions s' (owner (savepoints s p)))) (SavepointEntry p) s'))
         (\<lambda>_. observe c watcher (''rollback to savepoint '' @ quoted_name (savepoints s p)) [] started (Some 0) None)))
      (\<lambda>_. kept_state marks p True s) (\<lambda>_. cut_state marks p True s) s" for watcher
    unfolding wp_try_else wp_bind wp_act
  proof (rule wp_mono [OF control_commands(2) [OF d]])
    fix started s'
    assume m: "moved marks (\<lambda>m. savepoint_name_key (quoted_name (savepoints s p)) \<in> set (marks (env s))
       \<and> m = dropWhile (\<lambda>x. x \<noteq> savepoint_name_key (quoted_name (savepoints s p))) (marks (env s))) s s'"
    then have "kept_state marks p True s (invalidate_after ?r (SavepointEntry p) s')"
      by (intro cut(1) [OF h p]) (auto simp: moved_def)
    moreover have "transactions s' = transactions s" using m by (auto simp: moved_def)
    ultimately show "wp (observe c watcher (''rollback to savepoint '' @ quoted_name (savepoints s p)) [] started (Some 0) None)
        (\<lambda>_. kept_state marks p True s) (\<lambda>_. cut_state marks p True s)
        (invalidate_after (state_of (transactions s' (owner (savepoints s p)))) (SavepointEntry p) s')"
      by (intro wp_mono [OF observe_quiet [OF d]]) (auto intro: kept_quiet kept_cut)
  next
    fix e s' assume "quiet marks s s'"
    from savepoint_failed_spec [OF d h p this]
    show "wp (savepoint_failed c p e) (\<lambda>_. kept_state marks p True s) (\<lambda>_. cut_state marks p True s) s'"
      by (rule wp_mono) (auto simp: cut_state_def)
  qed
  then show ?thesis
    unfolding rollback_savepoint_def wp_bind [of "ensure_usable_savepoint _"] Let_def
    by (intro wp_usable_savepoint [OF h pc]) (use p in \<open>simp_all add: wp_bind [of "ask _"] wp_ask\<close>)
qed

end
