(* ===== verification/Sqlite_Laws.thy ===== *)
theory Sqlite_Laws
  imports Sqlite_Operations
begin

text \<open>
  The SQLite executor as a state machine: the states a program reaches by its calls, and what holds of
  them.  Transactions and savepoints first, then the events of the query methods.
\<close>

section \<open>Programs\<close>

text \<open>What a program calls on the connection: new wrappers, transactions and savepoints.\<close>

datatype call =
    NewDatabase "nat option"
  | BeginOn handle
  | CommitOf nat
  | RollbackOf nat
  | CreateOn nat string
  | ReleaseOf nat
  | RollbackTo nat

fun run_call :: "'w driver \<Rightarrow> call \<Rightarrow> 'w world \<Rightarrow> 'w world" where
  "run_call c (NewDatabase observer) s = snd (new_database observer s)"
| "run_call c (BeginOn h) s = snd (begin_transaction c h s)"
| "run_call c (CommitOf t) s = snd (commit_transaction c t s)"
| "run_call c (RollbackOf t) s = snd (rollback_transaction c t s)"
| "run_call c (CreateOn t name) s = snd (create_savepoint c t name s)"
| "run_call c (ReleaseOf p) s = snd (release_savepoint c p s)"
| "run_call c (RollbackTo p) s = snd (rollback_savepoint c p s)"

text \<open>A program only has the objects that were made.\<close>

fun valid_call :: "call \<Rightarrow> 'w world \<Rightarrow> bool" where
  "valid_call (NewDatabase _) s = True"
| "valid_call (BeginOn h) s = valid_handle h s"
| "valid_call (CommitOf t) s = (t < transaction_count s)"
| "valid_call (RollbackOf t) s = (t < transaction_count s)"
| "valid_call (CreateOn t _) s = (t < transaction_count s)"
| "valid_call (ReleaseOf p) s = (p < savepoint_count s)"
| "valid_call (RollbackTo p) s = (p < savepoint_count s)"

text \<open>
  The states of the process: at the start there is no registry for the connection; then calls, valid but
  in any order, ending normally or not, and activity of the connection that leaves its savepoints alone,
  such as queries.
\<close>

inductive reachable :: "'w driver \<Rightarrow> ('w \<Rightarrow> string list) \<Rightarrow> 'w world \<Rightarrow> bool" for c marks where
  start: "current s = None \<Longrightarrow> transaction_count s = 0 \<Longrightarrow> savepoint_count s = 0 \<Longrightarrow> reachable c marks s"
| call: "reachable c marks s \<Longrightarrow> valid_call k s \<Longrightarrow> reachable c marks (run_call c k s)"
| activity: "reachable c marks s \<Longrightarrow> marks w = marks (env s) \<Longrightarrow> reachable c marks (s\<lparr>env := w\<rparr>)"

inductive_cases reachable_cases: "reachable c marks s"

abbreviation unavailable :: exn where
  "unavailable \<equiv> TransactionUnavailableError ''controlled transaction is no longer usable''"

lemma refused:
  "closed_flag (transactions s t) \<Longrightarrow> bind (ensure_usable (Transaction t)) f s = (Inl unavailable, s)"
  by (simp add: ensure_usable_def bind_def ask_def pure_def raise_if_def)

lemma closed_calls:
  assumes "closed_flag (transactions s t)"
  shows "begin_transaction c (Transaction t) s = (Inl unavailable, s)"
    "commit_transaction c t s = (Inl unavailable, s)" "rollback_transaction c t s = (Inl unavailable, s)"
    "create_savepoint c t name s = (Inl unavailable, s)"
  unfolding begin_transaction_def commit_transaction_def rollback_transaction_def create_savepoint_def
  by (rule refused [OF assms])+

lemma closed_or_active: "t < transaction_count s \<Longrightarrow> \<not> active_transaction s t \<Longrightarrow> closed_flag (transactions s t)"
  by (simp add: active_transaction_def)

lemma refused_savepoint:
  "closed_flag (transactions s (owner (savepoints s p))) \<Longrightarrow> bind (ensure_usable_savepoint p) f s = (Inl unavailable, s)"
  "\<not> closed_flag (transactions s (owner (savepoints s p))) \<Longrightarrow> released (savepoints s p) \<or> invalidated (savepoints s p) \<Longrightarrow>
     bind (ensure_usable_savepoint p) f s = (Inl (TransactionUnavailableError ''savepoint is no longer usable''), s)"
  by (auto simp add: ensure_usable_savepoint_def ensure_usable_def bind_def ask_def pure_def raise_if_def ret_def)

lemma dead_savepoint:
  assumes "p < savepoint_count s" "\<not> active_savepoint s p"
  shows "snd (release_savepoint c p s) = s" "snd (rollback_savepoint c p s) = s"
proof -
  have dead: "snd (bind (ensure_usable_savepoint p) f s) = s" for f :: "unit \<Rightarrow> ('a world, 'b) action"
    using assms refused_savepoint [of s p f]
    by (cases "closed_flag (transactions s (owner (savepoints s p)))") (auto simp: active_savepoint_def)
  show "snd (release_savepoint c p s) = s" "snd (rollback_savepoint c p s) = s"
    unfolding release_savepoint_def rollback_savepoint_def by (rule dead)+
qed

lemma run_call_holds:
  assumes d: "savepoint_driver c marks" and h: "holds marks s" and v: "valid_call k s"
  shows "holds marks (run_call c k s)"
proof (cases k)
  case (NewDatabase observer)
  have "wp (new_database observer) (\<lambda>_. holds marks) (\<lambda>_. holds marks) s"
    unfolding new_database_def wp_bind wp_ret by (rule wp_mono [OF registry_for_connection [OF h]]) auto
  then show ?thesis using NewDatabase by (simp add: wp_final)
next
  case (BeginOn handle)
  have "wp (begin_transaction c handle) (\<lambda>_. holds marks) (\<lambda>_. holds marks) s"
    by (rule wp_mono [OF begin_spec [OF d h]]) (use v BeginOn in auto)
  then show ?thesis using BeginOn by (simp add: wp_final)
next
  case (CommitOf t)
  have "wp (commit_transaction c t) (\<lambda>_. holds marks) (\<lambda>_. holds marks) s"
  proof (cases "active_transaction s t")
    case True
    show ?thesis
      by (rule wp_mono [OF commit_spec [OF d h True]]) (auto simp: past_state_def completed_state_def)
  qed (use v CommitOf h in \<open>simp add: wp_def closed_calls closed_or_active\<close>)
  then show ?thesis using CommitOf by (simp add: wp_final)
next
  case (RollbackOf t)
  have "wp (rollback_transaction c t) (\<lambda>_. holds marks) (\<lambda>_. holds marks) s"
  proof (cases "active_transaction s t")
    case True
    show ?thesis
      by (rule wp_mono [OF rollback_spec [OF d h True]]) (auto simp: past_state_def completed_state_def)
  qed (use v RollbackOf h in \<open>simp add: wp_def closed_calls closed_or_active\<close>)
  then show ?thesis using RollbackOf by (simp add: wp_final)
next
  case (CreateOn t name)
  have "wp (create_savepoint c t name) (\<lambda>_. holds marks) (\<lambda>_. holds marks) s"
  proof (cases "active_transaction s t")
    case True
    show ?thesis by (rule wp_mono [OF create_savepoint_spec [OF d h True]]) auto
  qed (use v CreateOn h in \<open>simp add: wp_def closed_calls closed_or_active\<close>)
  then show ?thesis using CreateOn by (simp add: wp_final)
next
  case (ReleaseOf p)
  have "wp (release_savepoint c p) (\<lambda>_. holds marks) (\<lambda>_. holds marks) s"
  proof (cases "active_savepoint s p")
    case True
    show ?thesis
      by (rule wp_mono [OF release_savepoint_spec [OF d h True]]) (auto simp: kept_state_def cut_state_def)
  qed (use v ReleaseOf h in \<open>simp add: wp_final dead_savepoint\<close>)
  then show ?thesis using ReleaseOf by (simp add: wp_final)
next
  case (RollbackTo p)
  have "wp (rollback_savepoint c p) (\<lambda>_. holds marks) (\<lambda>_. holds marks) s"
  proof (cases "active_savepoint s p")
    case True
    show ?thesis
      by (rule wp_mono [OF rollback_savepoint_spec [OF d h True]]) (auto simp: kept_state_def cut_state_def)
  qed (use v RollbackTo h in \<open>simp add: wp_final dead_savepoint\<close>)
  then show ?thesis using RollbackTo by (simp add: wp_final)
qed

lemma reachable_holds: "reachable c marks s \<Longrightarrow> savepoint_driver c marks \<Longrightarrow> holds marks s"
proof (induction rule: reachable.induct)
  case (start s)
  then have "\<not> entry_active s e" for e by (cases e) (simp_all add: active_transaction_def active_savepoint_def)
  moreover from this have "\<not> active_transaction s t" for t using entry_active.simps(1) by blast
  ultimately show ?case
    using start by (intro holds_empty) (auto simp: consistent_def entries_of_def)
next
  case (call s k)
  then show ?case by (simp add: run_call_holds)
next
  case (activity s w)
  then show ?case by (simp add: holds_def)
qed

section \<open>A connection\<close>

text \<open>
  A driver that meets \<open>savepoint_driver\<close>, its environment the open savepoints: what the witnesses use.
\<close>

definition savepoint_connection :: "string list driver" where
  "savepoint_connection = \<lparr>
     execute_sql = (\<lambda>text _ ms.
       if take 10 text = ''savepoint '' then (Inr 0, savepoint_name_key (drop 10 text) # ms)
       else if take 22 text = ''rollback to savepoint '' then
         (if savepoint_name_key (drop 22 text) \<in> set ms
          then (Inr 0, dropWhile (\<lambda>m. m \<noteq> savepoint_name_key (drop 22 text)) ms) else (Inl (External True ''no such savepoint''), ms))
       else if take 18 text = ''release savepoint '' then
         (if savepoint_name_key (drop 18 text) \<in> set ms
          then (Inr 0, tl (dropWhile (\<lambda>m. m \<noteq> savepoint_name_key (drop 18 text)) ms)) else (Inl (External True ''no such savepoint''), ms))
       else (Inr 0, ms)),
     rowcount = (\<lambda>_ _. 0), fetchall = (\<lambda>_ ms. (Inr [], ms)), fetchone = (\<lambda>_ ms. (Inr None, ms)),
     commit_connection = (\<lambda>ms. (Inr (), [])), rollback_connection = (\<lambda>ms. (Inr (), [])),
     in_transaction = (\<lambda>ms. ms \<noteq> []), autocommit = (\<lambda>_. False), isolation_level = (\<lambda>_. None),
     perf_counter = (\<lambda>_. 0), notify = (\<lambda>_ _ ms. (Inr (), ms))\<rparr>"

lemma savepoint_connection_driver: "savepoint_driver savepoint_connection (\<lambda>ms. ms)"
  by (simp add: savepoint_driver_def savepoint_connection_def succeeds_def)

definition fresh_world :: "'w \<Rightarrow> 'w world" where
  "fresh_world w = \<lparr>registries = (\<lambda>_. empty_registry), registry_count = 0, current = None,
     transactions = (\<lambda>_. \<lparr>state_of = 0, transaction_observer = None, own_names = {}, own_savepoints = [],
       generated_name = None, closed_flag = False\<rparr>), transaction_count = 0,
     savepoints = (\<lambda>_. \<lparr>owner = 0, quoted_name = [], released = False, invalidated = False\<rparr>), savepoint_count = 0,
     sequence = 0, env = w\<rparr>"

lemma fresh_reachable: "reachable c marks (fresh_world w)"
  by (rule reachable.start) (simp_all add: fresh_world_def)

definition begun_world :: "string list world" where
  "begun_world = run_call savepoint_connection (BeginOn (Database None)) (fresh_world [])"

definition marked_world :: "string list world" where
  "marked_world = run_call savepoint_connection (CreateOn 0 ''a'') begun_world"

lemma begun_world:
  "reachable savepoint_connection (\<lambda>ms. ms) begun_world" "active_transaction begun_world 0"
  "transaction_count begun_world = 1" "savepoint_count begun_world = 0"
  "begun_world = with_new_transaction None None 0 ((fresh_world [])\<lparr>registry_count := 1, current := Some 0\<rparr>)"
proof -
  show "reachable savepoint_connection (\<lambda>ms. ms) begun_world"
    unfolding begun_world_def by (rule reachable.call [OF fresh_reachable]) (simp add: valid_handle_def)
  have "begin_transaction savepoint_connection (Database None) (fresh_world []) =
      (Inr 0, with_new_transaction None None 0 ((fresh_world [])\<lparr>registry_count := 1, current := Some 0\<rparr>))"
    by (simp add: begin_transaction_def begin_top_level_def ensure_usable_def transaction_state_for_connection_def
      new_transaction_def observe_def run_control_def execute_control_def outside_def action_defs begin_statement_def
      savepoint_connection_def fresh_world_def observer_of_def empty_registry_def register_transaction_def
      update_registry_def with_new_transaction_def fun_eq_iff)
  then show eq: "begun_world = with_new_transaction None None 0 ((fresh_world [])\<lparr>registry_count := 1, current := Some 0\<rparr>)"
    by (simp add: begun_world_def)
  show "active_transaction begun_world 0" "transaction_count begun_world = 1" "savepoint_count begun_world = 0"
    unfolding eq by (simp_all add: with_new_transaction_def fresh_world_def active_transaction_def)
qed

lemma marked_world:
  "reachable savepoint_connection (\<lambda>ms. ms) marked_world" "active_savepoint marked_world 0"
proof -
  show "reachable savepoint_connection (\<lambda>ms. ms) marked_world"
    unfolding marked_world_def by (rule reachable.call [OF begun_world(1)]) (simp add: begun_world(3))
  have q: "quote_savepoint ''a'' = Inr (CHR 0x22 # ''a'' @ [CHR 0x22])" by (simp add: quote_savepoint_def raise_if_def)
  have "create_savepoint savepoint_connection 0 ''a'' begun_world = (Inr 0, marked_world)" "active_savepoint marked_world 0"
    unfolding marked_world_def begun_world(5)
    by (simp_all add: create_savepoint_def q ensure_usable_def reserve_savepoint_name_def raise_if_def
      observe_def run_control_def execute_control_def outside_def action_defs with_new_transaction_def
      savepoint_connection_def fresh_world_def empty_registry_def register_savepoint_def update_transaction_def
      update_registry_def active_savepoint_def)
  then show "active_savepoint marked_world 0" by simp
qed

section \<open>Properties\<close>



lemma before_gone: "holds marks s' \<Longrightarrow> entries_of s' = before e s \<or> entries_of s' = [] \<Longrightarrow> \<not> entry_active s' e"
proof -
  assume "holds marks s'" and left: "entries_of s' = before e s \<or> entries_of s' = []"
  then have "e \<in> set (entries_of s') \<longleftrightarrow> entry_active s' e" by (simp add: holds_def consistent_def)
  moreover have "e \<notin> set (entries_of s')" using left by (auto simp: before_def dest: set_takeWhileD)
  ultimately show ?thesis by simp
qed

text \<open>
  C7.  Completing a usable transaction, by commit or rollback, top-level or nested, makes it unusable
  with everything begun after it and nothing else; when it raises, what was begun before is either still
  all usable or, after the recovery from a failed command, all unusable.\<close>

theorem completion_leaves_the_past:
  assumes "savepoint_driver c marks" "reachable c marks s" "active_transaction s t"
  shows "wp (commit_transaction c t) (\<lambda>_ s'. entries_of s' = before (TransactionEntry t) s)
       (\<lambda>_ s'. entries_of s' \<in> {before (TransactionEntry t) s, []}) s
    \<and> wp (rollback_transaction c t) (\<lambda>_ s'. entries_of s' = before (TransactionEntry t) s)
       (\<lambda>_ s'. entries_of s' \<in> {before (TransactionEntry t) s, []}) s"
proof -
  note h = reachable_holds [OF assms(2,1)]
  show ?thesis
    by (intro conjI wp_mono [OF commit_spec [OF assms(1) h assms(3)]] wp_mono [OF rollback_spec [OF assms(1) h assms(3)]])
      (auto simp: past_state_def completed_state_def)
qed

theorem completion_leaves_the_past_witness:
  "wp (commit_transaction savepoint_connection 0) (\<lambda>_ s'. entries_of s' = before (TransactionEntry 0) begun_world)
     (\<lambda>_ s'. entries_of s' \<in> {before (TransactionEntry 0) begun_world, []}) begun_world"
  using completion_leaves_the_past [OF savepoint_connection_driver begun_world(1,2)] by blast

text \<open>
  C21.  Releasing a usable savepoint makes it unusable with everything begun after it; rolling back to it
  keeps the savepoint itself.  When they raise, everything begun before is either still usable or, after a
  recovery, unusable.\<close>

theorem savepoints_cut_the_registry:
  assumes "savepoint_driver c marks" "reachable c marks s" "active_savepoint s p"
  shows "wp (release_savepoint c p) (\<lambda>_ s'. entries_of s' = before (SavepointEntry p) s)
       (\<lambda>_ s'. entries_of s' \<in> {before (SavepointEntry p) s, []}) s
    \<and> wp (rollback_savepoint c p) (\<lambda>_ s'. entries_of s' = before (SavepointEntry p) s @ [SavepointEntry p])
       (\<lambda>_ s'. entries_of s' \<in> {before (SavepointEntry p) s @ [SavepointEntry p], []}) s"
proof -
  note h = reachable_holds [OF assms(2,1)]
  show ?thesis
    by (intro conjI wp_mono [OF release_savepoint_spec [OF assms(1) h assms(3)]]
        wp_mono [OF rollback_savepoint_spec [OF assms(1) h assms(3)]])
      (auto simp: kept_state_def cut_state_def)
qed

theorem savepoints_cut_the_registry_witness:
  "wp (rollback_savepoint savepoint_connection 0)
     (\<lambda>_ s'. entries_of s' = before (SavepointEntry 0) marked_world @ [SavepointEntry 0])
     (\<lambda>_ s'. entries_of s' \<in> {before (SavepointEntry 0) marked_world @ [SavepointEntry 0], []}) marked_world"
  using savepoints_cut_the_registry [OF savepoint_connection_driver marked_world] by blast

section \<open>Blocks\<close>

text \<open>What the body of a \<open>with\<close> block may do: anything reachable.\<close>

definition stays_reachable :: "'w driver \<Rightarrow> ('w \<Rightarrow> string list) \<Rightarrow> (nat \<Rightarrow> ('w world, 'a) action) \<Rightarrow> bool" where
  "stays_reachable c marks body \<longleftrightarrow> (\<forall>t s. reachable c marks s \<longrightarrow> t < transaction_count s \<longrightarrow>
     reachable c marks (snd (body t s)) \<and> transaction_count s \<le> transaction_count (snd (body t s)))"

lemma ends:
  assumes d: "savepoint_driver c marks" and h: "holds marks s" and t: "t < transaction_count s"
  shows "wp (commit_transaction c t) (\<lambda>_ s'. holds marks s' \<and> \<not> active_transaction s' t)
       (\<lambda>_ s'. holds marks s' \<and> \<not> active_transaction s' t) s"
    "wp (rollback_transaction c t) (\<lambda>_ s'. holds marks s' \<and> \<not> active_transaction s' t)
       (\<lambda>_ s'. holds marks s' \<and> \<not> active_transaction s' t) s"
proof -
  note gone = before_gone [where e = "TransactionEntry t", simplified]
  have "wp (commit_transaction c t) (\<lambda>_ s'. holds marks s' \<and> \<not> active_transaction s' t)
       (\<lambda>_ s'. holds marks s' \<and> \<not> active_transaction s' t) s
    \<and> wp (rollback_transaction c t) (\<lambda>_ s'. holds marks s' \<and> \<not> active_transaction s' t)
       (\<lambda>_ s'. holds marks s' \<and> \<not> active_transaction s' t) s"
  proof (cases "active_transaction s t")
    case True
    show ?thesis
      by (intro conjI wp_mono [OF commit_spec [OF d h True]] wp_mono [OF rollback_spec [OF d h True]])
        (auto simp: past_state_def completed_state_def dest: gone)
  qed (use t h in \<open>simp add: wp_def closed_calls closed_or_active\<close>)
  then show "wp (commit_transaction c t) (\<lambda>_ s'. holds marks s' \<and> \<not> active_transaction s' t)
       (\<lambda>_ s'. holds marks s' \<and> \<not> active_transaction s' t) s"
    "wp (rollback_transaction c t) (\<lambda>_ s'. holds marks s' \<and> \<not> active_transaction s' t)
       (\<lambda>_ s'. holds marks s' \<and> \<not> active_transaction s' t) s" by blast+
qed

text \<open>Which actions make no transaction.\<close>

definition counts :: "('w world, 'a) action \<Rightarrow> bool" where
  "counts m \<longleftrightarrow> (\<forall>s. transaction_count (snd (m s)) = transaction_count s)"

lemma counts_bind: "counts m \<Longrightarrow> (\<And>x. counts (f x)) \<Longrightarrow> counts (bind m f)"
  by (auto simp: counts_def bind_def split: prod.splits sum.splits) (metis snd_conv)+

lemma counts_on_error: "counts m \<Longrightarrow> (\<And>e. counts (h e)) \<Longrightarrow> counts (on_error m h)"
  by (auto simp: counts_def on_error_def split: prod.splits sum.splits) (metis snd_conv)+

lemma counts_leaf: "counts (ret x)" "counts (raise e)" "counts (ask g)" "counts (pure r)" "counts (outside k)"
  by (auto simp: counts_def ret_def raise_def ask_def pure_def outside_def split: prod.splits)

lemma counts_act: "(\<And>s. transaction_count (f s) = transaction_count s) \<Longrightarrow> counts (act f)"
  by (simp add: counts_def act_def)

lemma create_savepoint_counts: "transaction_count (snd (create_savepoint c t name s)) = transaction_count s"
proof -
  have "counts (observe c w cmd params started n err)" for w cmd params started n err
    unfolding observe_def by (cases w) (auto intro!: counts_bind counts_on_error counts_leaf)
  then have "counts (create_savepoint c t name)"
    unfolding create_savepoint_def ensure_usable_def reserve_savepoint_name_def run_control_def quietly_def execute_control_def
    by (auto intro!: counts_bind counts_on_error counts_leaf counts_act simp: release_savepoint_names_def update_registry_def
      register_savepoint_def update_transaction_def invalidate_savepoint_def update_savepoint_def forget_savepoint_def
      remove_entry_def Let_def)
  then show ?thesis by (simp add: counts_def)
qed

text \<open>
  C10.  A \<open>with database.transaction()\<close> block always ends its transaction: whatever the body does, whether
  it returns or raises and even when the commit or the rollback fails, once the block is left its transaction
  is unusable and the registry still mirrors the connection; a block whose transaction could not begin raises.\<close>

theorem with_transaction_ends:
  assumes d: "savepoint_driver c marks" and r: "reachable c marks s" and v: "valid_handle h s"
    and b: "stays_reachable c marks body"
  shows "case with_transaction c h body s of (result, s') \<Rightarrow>
    mirrors (rev (entry_keys s' (entries_of s'))) (marks (env s'))
    \<and> (case fst (begin_transaction c h s) of Inl e \<Rightarrow> result = Inl e | Inr t \<Rightarrow> \<not> active_transaction s' t)"
proof (cases "begin_transaction c h s")
  case (Pair begun s1)
  have s1: "reachable c marks s1" using reachable.call [OF r, of "BeginOn h"] v Pair by simp
  show ?thesis
  proof (cases begun)
    case (Inl e)
    then show ?thesis
      using Pair reachable_holds [OF s1 d] by (simp add: with_transaction_def bind_def holds_def)
  next
    case (Inr t)
    then have "active_transaction s1 t"
      using begin_spec [OF d reachable_holds [OF r d] v] Pair by (simp add: wp_def)
    then have t: "t < transaction_count s1" by (simp add: active_transaction_def)
    let ?P = "\<lambda>s'. holds marks s' \<and> \<not> active_transaction s' t"
    let ?block = "try_else (body t) (\<lambda>e. bind (on_error (rollback_transaction c t)
        (\<lambda>e'. case e' of TransactionUnavailableError _ \<Rightarrow> ret () | _ \<Rightarrow> raise e')) (\<lambda>_. raise e))
      (\<lambda>x. bind (commit_transaction c t) (\<lambda>_. ret x))"
    have ran: "wp (body t) (\<lambda>_ s'. reachable c marks s' \<and> t < transaction_count s')
        (\<lambda>_ s'. reachable c marks s' \<and> t < transaction_count s') s1"
      unfolding wp_final using b s1 t by (auto simp: stays_reachable_def intro: order.strict_trans2)
    have "wp ?block (\<lambda>_. ?P) (\<lambda>_. ?P) s1"
      unfolding wp_try_else wp_bind wp_on_error
    proof (rule wp_mono [OF ran])
      fix x s2 assume "reachable c marks s2 \<and> t < transaction_count s2"
      then have s2: "holds marks s2" "t < transaction_count s2" using reachable_holds [OF _ d] by blast+
      show "wp (commit_transaction c t) (\<lambda>_. wp (ret x) (\<lambda>_. ?P) (\<lambda>_. ?P)) (\<lambda>_. ?P) s2"
        by (rule wp_mono [OF ends(1) [OF d s2]]) (simp_all add: wp_ret)
      show "wp (rollback_transaction c t) (\<lambda>_. wp (raise e) (\<lambda>_. ?P) (\<lambda>_. ?P))
          (\<lambda>e'. wp (case e' of TransactionUnavailableError _ \<Rightarrow> ret () | _ \<Rightarrow> raise e')
            (\<lambda>_. wp (raise e) (\<lambda>_. ?P) (\<lambda>_. ?P)) (\<lambda>_. ?P)) s2" for e
        by (rule wp_mono [OF ends(2) [OF d s2]]) (simp_all add: wp_ret wp_raise split: exn.split)
    qed
    then have final: "?P (snd (?block s1))" by (simp add: wp_final)
    have "with_transaction c h body s = ?block s1"
      using Pair Inr by (simp add: with_transaction_def bind_def [of "begin_transaction _ _"])
    with final have "?P (snd (with_transaction c h body s))" by simp
    then show ?thesis using Pair Inr by (cases "with_transaction c h body s") (simp add: holds_def)
  qed
qed

theorem with_transaction_ends_witness:
  "case with_transaction savepoint_connection (Transaction 0) (\<lambda>t. create_savepoint savepoint_connection t ''a'') begun_world of
    (result, s') \<Rightarrow> mirrors (rev (entry_keys s' (entries_of s'))) (env s')
      \<and> (case fst (begin_transaction savepoint_connection (Transaction 0) begun_world) of
           Inl e \<Rightarrow> result = Inl e | Inr t \<Rightarrow> \<not> active_transaction s' t)"
proof (rule with_transaction_ends [OF savepoint_connection_driver begun_world(1)])
  show "valid_handle (Transaction 0) begun_world" using begun_world(3) by (simp add: valid_handle_def)
  show "stays_reachable savepoint_connection (\<lambda>ms. ms) (\<lambda>t. create_savepoint savepoint_connection t ''a'')"
    using reachable.call [where k = "CreateOn _ ''a''"] by (auto simp: stays_reachable_def create_savepoint_counts)
qed

section \<open>Handles that are no longer usable\<close>

text \<open>
  Every method of a transaction that was completed or invalidated, and of a savepoint that was
  released or invalidated or whose transaction is closed, raises \<open>TransactionUnavailableError\<close> before it
  touches the registry, the connection or an observer.\<close>

theorem unusable_handles_refused:
  "(closed_flag (transactions s t) \<longrightarrow>
      begin_transaction c (Transaction t) s = (Inl unavailable, s) \<and> commit_transaction c t s = (Inl unavailable, s)
    \<and> rollback_transaction c t s = (Inl unavailable, s) \<and> create_savepoint c t name s = (Inl unavailable, s)
    \<and> fetch_all c (Transaction t) query s = (Inl unavailable, s) \<and> fetch_one c (Transaction t) query s = (Inl unavailable, s)
    \<and> fetch_all_as c (Transaction t) query adapter s = (Inl unavailable, s)
    \<and> fetch_one_as c (Transaction t) query adapter s = (Inl unavailable, s)
    \<and> execute_command c (Transaction t) query s = (Inl unavailable, s))
   \<and> (closed_flag (transactions s (owner (savepoints s p))) \<or> released (savepoints s p) \<or> invalidated (savepoints s p) \<longrightarrow>
      (\<exists>reason. release_savepoint c p s = (Inl (TransactionUnavailableError reason), s)
        \<and> rollback_savepoint c p s = (Inl (TransactionUnavailableError reason), s)))"
proof (intro conjI impI)
  assume "closed_flag (transactions s (owner (savepoints s p))) \<or> released (savepoints s p) \<or> invalidated (savepoints s p)"
  then obtain reason where "\<And>f :: unit \<Rightarrow> ('a world, unit) action.
      bind (ensure_usable_savepoint p) f s = (Inl (TransactionUnavailableError reason), s)"
    using refused_savepoint [of s p] by (cases "closed_flag (transactions s (owner (savepoints s p)))") blast+
  then show "\<exists>reason. release_savepoint c p s = (Inl (TransactionUnavailableError reason), s)
        \<and> rollback_savepoint c p s = (Inl (TransactionUnavailableError reason), s)"
    unfolding release_savepoint_def rollback_savepoint_def by blast
next
  assume "closed_flag (transactions s t)"
  note refuse = refused [OF this] and calls = closed_calls [OF this]
  show "begin_transaction c (Transaction t) s = (Inl unavailable, s)" "commit_transaction c t s = (Inl unavailable, s)"
    "rollback_transaction c t s = (Inl unavailable, s)" "create_savepoint c t name s = (Inl unavailable, s)" by (fact calls)+
  show "fetch_all c (Transaction t) query s = (Inl unavailable, s)" unfolding fetch_all_def by (rule refuse)
  show "fetch_one c (Transaction t) query s = (Inl unavailable, s)" unfolding fetch_one_def by (rule refuse)
  show "fetch_all_as c (Transaction t) query adapter s = (Inl unavailable, s)" unfolding fetch_all_as_def by (rule refuse)
  show "fetch_one_as c (Transaction t) query adapter s = (Inl unavailable, s)" unfolding fetch_one_as_def by (rule refuse)
  show "execute_command c (Transaction t) query s = (Inl unavailable, s)" unfolding execute_command_def by (rule refuse)
qed

theorem unusable_handles_refused_witness:
  "rollback_transaction savepoint_connection 0 (update_transaction 0 (\<lambda>x. x\<lparr>closed_flag := True\<rparr>) begun_world)
     = (Inl unavailable, update_transaction 0 (\<lambda>x. x\<lparr>closed_flag := True\<rparr>) begun_world)"
proof -
  have closed: "closed_flag (transactions (update_transaction 0 (\<lambda>x. x\<lparr>closed_flag := True\<rparr>) begun_world) 0)"
    by (simp add: update_transaction_def)
  from unusable_handles_refused [THEN conjunct1, rule_format, OF closed] show ?thesis by blast
qed

section \<open>Events\<close>

text \<open>An observer that keeps a journal, which nothing else writes.\<close>

definition logging :: "'w driver \<Rightarrow> ('w \<Rightarrow> event list) \<Rightarrow> bool" where
  "logging c journal \<longleftrightarrow>
     (\<forall>watcher ev w. case notify c watcher ev w of (r, w') \<Rightarrow> r = Inr () \<and> journal w' = journal w @ [ev])
     \<and> (\<forall>cmd ps w. journal (snd (execute_sql c cmd ps w)) = journal w)
     \<and> (\<forall>cursor w. journal (snd (fetchall c cursor w)) = journal w)
     \<and> (\<forall>cursor w. journal (snd (fetchone c cursor w)) = journal w)"

definition emitted ::
  "('w \<Rightarrow> event list) \<Rightarrow> compiled_query \<Rightarrow> 'w world \<Rightarrow> int option \<Rightarrow> exn option \<Rightarrow> 'w world \<Rightarrow> bool" where
  "emitted journal q s count error s' \<longleftrightarrow> (\<exists>ev w. s' = s\<lparr>env := w\<rparr> \<and> journal w = journal (env s) @ [ev]
     \<and> event_sql ev = sql q \<and> event_parameters ev = parameters q \<and> row_count ev = count \<and> event_error ev = error)"

definition silent :: "('w \<Rightarrow> event list) \<Rightarrow> 'w world \<Rightarrow> 'w world \<Rightarrow> bool" where
  "silent journal s s' \<longleftrightarrow> (\<exists>w. s' = s\<lparr>env := w\<rparr> \<and> journal w = journal (env s))"

lemma wp_emits:
  assumes "logging c journal" "silent journal s s'"
  shows "wp (observe c (Some watcher) (sql q) (parameters q) started count error) (\<lambda>_. emitted journal q s count error) E s'"
proof -
  from assms(2) obtain w where w: "s' = s\<lparr>env := w\<rparr>" "journal w = journal (env s)" by (auto simp: silent_def)
  define ev where "ev = \<lparr>event_sql = sql q, event_parameters = parameters q, duration = perf_counter c (env s') - started,
     row_count = count, event_error = error\<rparr>"
  obtain w' where sent: "notify c watcher ev w = (Inr (), w')" "journal w' = journal w @ [ev]"
    using assms(1) [unfolded logging_def, THEN conjunct1, THEN spec [of _ watcher], THEN spec [of _ ev], THEN spec [of _ w]] by (auto split: prod.splits)
  then have "emitted journal q s count error (s\<lparr>env := w'\<rparr>)"
    unfolding emitted_def w(2) by (intro exI [of _ ev] exI [of _ w']) (simp add: ev_def)
  with sent(1) show ?thesis by (simp add: observe_def wp_simps ev_def w(1))
qed

lemma wp_silent:
  assumes "logging c journal" "silent journal s s'"
  shows "(\<And>x s''. silent journal s s'' \<Longrightarrow> Q x s'') \<Longrightarrow> (\<And>e s''. silent journal s s'' \<Longrightarrow> E e s'') \<Longrightarrow> wp (send c q) Q E s'"
    "(\<And>x s''. silent journal s s'' \<Longrightarrow> Q' x s'') \<Longrightarrow> (\<And>e s''. silent journal s s'' \<Longrightarrow> E e s'') \<Longrightarrow> wp (outside (fetchall c cursor)) Q' E s'"
    "(\<And>x s''. silent journal s s'' \<Longrightarrow> Q'' x s'') \<Longrightarrow> (\<And>e s''. silent journal s s'' \<Longrightarrow> E e s'') \<Longrightarrow> wp (outside (fetchone c cursor)) Q'' E s'"
proof -
  from assms(2) obtain w where w: "s' = s\<lparr>env := w\<rparr>" "journal w = journal (env s)" by (auto simp: silent_def)
  have "silent journal s (s\<lparr>env := snd (execute_sql c (sql q) (parameters q) w)\<rparr>)"
    "silent journal s (s\<lparr>env := snd (fetchall c cursor w)\<rparr>)" "silent journal s (s\<lparr>env := snd (fetchone c cursor w)\<rparr>)"
    using assms(1) w by (auto simp: logging_def silent_def)
  then show "(\<And>x s''. silent journal s s'' \<Longrightarrow> Q x s'') \<Longrightarrow> (\<And>e s''. silent journal s s'' \<Longrightarrow> E e s'') \<Longrightarrow> wp (send c q) Q E s'"
    "(\<And>x s''. silent journal s s'' \<Longrightarrow> Q' x s'') \<Longrightarrow> (\<And>e s''. silent journal s s'' \<Longrightarrow> E e s'') \<Longrightarrow> wp (outside (fetchall c cursor)) Q' E s'"
    "(\<And>x s''. silent journal s s'' \<Longrightarrow> Q'' x s'') \<Longrightarrow> (\<And>e s''. silent journal s s'' \<Longrightarrow> E e s'') \<Longrightarrow> wp (outside (fetchone c cursor)) Q'' E s'"
    unfolding send_def wp_outside w by (auto split: prod.splits sum.splits)
qed

lemma wp_observed:
  assumes l: "logging c journal" and o: "observer_of h s = Some watcher"
    and work: "wp work (\<lambda>(x, n) s'. R x n \<and> silent journal s s') (\<lambda>_. silent journal s) s"
  shows "wp (observed c h q work) (\<lambda>x s'. \<exists>n. R x n \<and> emitted journal q s (Some n) None s')
    (\<lambda>e. emitted journal q s None (Some e)) s"
  unfolding observed_def wp_bind [of "ask _"] wp_ask o wp_try_else
proof (rule wp_mono [OF work])
  fix xn s' assume "(case xn of (x, n) \<Rightarrow> \<lambda>s'. R x n \<and> silent journal s s') s'"
  then obtain x n where xn: "xn = (x, n)" "R x n" "silent journal s s'" by (cases xn) auto
  show "wp (case xn of (x, n) \<Rightarrow> bind (observe c (Some watcher) (sql q) (parameters q) (perf_counter c (env s)) (Some n) None) (\<lambda>_. ret x))
      (\<lambda>x s'. \<exists>n. R x n \<and> emitted journal q s (Some n) None s') (\<lambda>e. emitted journal q s None (Some e)) s'"
    unfolding xn(1) prod.case wp_bind wp_ret
    by (rule wp_mono [OF wp_emits [OF l xn(3)]]) (use xn(2) in auto)
next
  fix e s' assume "silent journal s s'"
  then show "wp (bind (observe c (Some watcher) (sql q) (parameters q) (perf_counter c (env s)) None (Some e)) (\<lambda>_. raise e))
      (\<lambda>x s'. \<exists>n. R x n \<and> emitted journal q s (Some n) None s') (\<lambda>e. emitted journal q s None (Some e)) s'"
    unfolding wp_bind wp_raise by (rule wp_emits [OF l])
qed

lemma map_results_length: "map_results f xs = Inr ys \<Longrightarrow> length ys = length xs"
  by (metis list_all2_lengthD map_results_ok)

lemma map_all_length: "map_all query rows = Inr ms \<Longrightarrow> length ms = length rows"
  by (auto simp: map_all_def map_results_length split: option.splits)

lemma map_one_none: "map_one query row = Inr m \<Longrightarrow> m = None \<longleftrightarrow> row = None"
  by (cases row) (auto simp: and_then_def split: sum.splits)

text \<open>
  Each query method emits exactly one event, after the work: the compiled SQL and its parameters with
  the number of rows it returns (for \<open>execute\<close> the driver's count) when it succeeds, the exception it raises
  and no count when it fails, in the driver or in mapping the rows; and it leaves the registry alone.\<close>

theorem queries_emit_one_event:
  assumes "logging c journal" "observer_of h s = Some watcher" "compile_any query = Inr q"
    and "case h of Database _ \<Rightarrow> True | Transaction t \<Rightarrow> \<not> closed_flag (transactions s t)"
  shows "wp (fetch_all c h query) (\<lambda>rows. emitted journal q s (Some (int (length rows))) None)
      (\<lambda>e. emitted journal q s None (Some e)) s
    \<and> wp (fetch_one c h query) (\<lambda>row. emitted journal q s (Some (if row = None then 0 else 1)) None)
      (\<lambda>e. emitted journal q s None (Some e)) s
    \<and> (require_command query = Inr () \<longrightarrow> wp (execute_command c h query) (\<lambda>count. emitted journal q s (Some count) None)
      (\<lambda>e. emitted journal q s None (Some e)) s)"
proof -
  note l = assms(1) and o = assms(2)
  have usable: "wp (bind (ensure_usable h) f) Q E s = wp (f ()) Q E s" for f :: "unit \<Rightarrow> ('a world, 'b) action" and Q E
    using assms(4) by (cases h) (simp_all add: ensure_usable_def wp_simps raise_if_def)
  have refl: "silent journal s s" by (auto simp: silent_def intro!: exI [of _ "env s"])
  have "wp (fetch_one c h query) (\<lambda>row. emitted journal q s (Some (if row = None then 0 else 1)) None)
      (\<lambda>e. emitted journal q s None (Some e)) s"
    unfolding fetch_one_def usable assms(3) wp_bind [of "pure _"] wp_pure sum.case
    by (rule wp_mono [OF wp_observed [OF l o, where R = "\<lambda>row n. n = (if row = None then 0 else 1)"]])
      (auto simp: wp_bind wp_pure wp_ret map_one_none intro!: wp_silent [OF l] refl split: sum.splits)
  moreover have "wp (fetch_all c h query) (\<lambda>rows. emitted journal q s (Some (int (length rows))) None)
      (\<lambda>e. emitted journal q s None (Some e)) s"
    unfolding fetch_all_def usable assms(3) wp_bind [of "pure _"] wp_pure sum.case
    by (rule wp_mono [OF wp_observed [OF l o, where R = "\<lambda>rows n. n = int (length rows)"]])
      (auto simp: wp_bind wp_pure wp_ret map_all_length intro!: wp_silent [OF l] refl split: sum.splits)
  moreover have "wp (execute_command c h query) (\<lambda>count. emitted journal q s (Some count) None)
      (\<lambda>e. emitted journal q s None (Some e)) s" if "require_command query = Inr ()"
    unfolding execute_command_def usable assms(3) that wp_bind [of "pure _"] wp_pure sum.case
    by (rule wp_mono [OF wp_observed [OF l o, where R = "\<lambda>count n. n = count"]])
      (auto simp: wp_bind wp_ask wp_ret intro!: wp_silent [OF l] refl)
  ultimately show ?thesis by blast
qed

text \<open>A connection whose environment is the journal.\<close>

definition journal_connection :: "event list driver" where
  "journal_connection = \<lparr>execute_sql = (\<lambda>_ _ w. (Inr 0, w)), rowcount = (\<lambda>_ _. 3),
     fetchall = (\<lambda>_ w. (Inr [], w)), fetchone = (\<lambda>_ w. (Inr None, w)),
     commit_connection = (\<lambda>w. (Inr (), w)), rollback_connection = (\<lambda>w. (Inr (), w)),
     in_transaction = (\<lambda>_. False), autocommit = (\<lambda>_. False), isolation_level = (\<lambda>_. None),
     perf_counter = (\<lambda>_. 0), notify = (\<lambda>_ ev w. (Inr (), w @ [ev]))\<rparr>"

theorem queries_emit_one_event_witness:
  "let t = TableSourceNode ''t'' None None; table = Relation (TableSource t) [(''a'', ''a'')];
     query = AnyDelete (DeleteQuery (DeleteNode t None True []) None table)
   in wp (execute_command journal_connection (Database (Some 0)) query)
     (\<lambda>count. emitted (\<lambda>w. w) \<lparr>sql = ''delete from \"t\"'', parameters = []\<rparr> (fresh_world []) (Some count) None)
     (\<lambda>e. emitted (\<lambda>w. w) \<lparr>sql = ''delete from \"t\"'', parameters = []\<rparr> (fresh_world []) None (Some e)) (fresh_world [])"
proof -
  let ?t = "TableSourceNode ''t'' None None"
  let ?query = "AnyDelete (DeleteQuery (DeleteNode ?t None True []) None (Relation (TableSource ?t) [(''a'', ''a'')]))"
  have l: "logging journal_connection (\<lambda>w. w)" by (simp add: logging_def journal_connection_def)
  have "compile_any ?query = Inr \<lparr>sql = ''delete from \"t\"'', parameters = []\<rparr>"
    by (simp add: compile_any_def py_eval checks.simps)
  moreover have "require_command ?query = Inr ()" by (simp add: require_command_def raise_if_def)
  ultimately show ?thesis
    using queries_emit_one_event [OF l, of "Database (Some 0)" "fresh_world []" 0 ?query] by (simp add: observer_of_def)
qed

end
