(* ===== verification/Quoting.thy ===== *)
theory Quoting
  imports Sqlite
begin

text \<open>
  Quoting: every string a program chooses (names of tables, columns, savepoints; literal text) reaches SQL text
  inside quotes.  The readers below are the documented rules by which both databases read quoted text:
  a quoted token ends at the first quote character that is not doubled, and in PostgreSQL's
  \<open>E'...'\<close> strings a backslash also escapes the next character.
\<close>

section \<open>Readers\<close>

text \<open>The text of a token from behind its opening quote, and what follows the closing one.\<close>

fun read_quoted :: "char \<Rightarrow> string \<Rightarrow> (string \<times> string) option" where
  "read_quoted q [] = None"
| "read_quoted q (c # s) =
     (if c \<noteq> q then map_option (apfst ((#) c)) (read_quoted q s)
      else case s of d # s' \<Rightarrow> if d = q then map_option (apfst ((#) q)) (read_quoted q s') else Some ([], s)
        | [] \<Rightarrow> Some ([], []))"

text \<open>The escapes of \<open>E'...'\<close> strings beyond an escaped quote or backslash are a parameter.\<close>

fun read_escaped :: "(char \<Rightarrow> string) \<Rightarrow> string \<Rightarrow> (string \<times> string) option" where
  "read_escaped special [] = None"
| "read_escaped special (c # s) =
     (if c = backslash then (case s of [] \<Rightarrow> None
        | d # s' \<Rightarrow> map_option (apfst ((@) (if d = backslash \<or> d = single_quote then [d] else special d))) (read_escaped special s'))
      else if c \<noteq> single_quote then map_option (apfst ((#) c)) (read_escaped special s)
      else case s of d # s' \<Rightarrow> if d = single_quote then map_option (apfst ((#) single_quote)) (read_escaped special s') else Some ([], s)
        | [] \<Rightarrow> Some ([], []))"

section \<open>Encodings\<close>

text \<open>An encoding of characters, a terminator and the reader that undoes it.\<close>

locale quoted_text =
  fixes encode :: "char \<Rightarrow> string" and terminator :: char and reader :: "string \<Rightarrow> (string \<times> string) option"
  assumes reads_char: "reader (encode c @ s) = map_option (apfst ((#) c)) (reader s)"
    and reads_end: "take 1 rest \<noteq> [terminator] \<Longrightarrow> reader (terminator # rest) = Some ([], rest)"
begin

lemma reads_back:
  "take 1 rest \<noteq> [terminator] \<Longrightarrow> reader (concat (map encode s) @ terminator # rest) = Some (s, rest)"
  by (induction s) (simp_all add: reads_char reads_end)

lemma encoding_injective:
  assumes "concat (map encode s) @ [terminator] = concat (map encode s') @ [terminator]"
  shows "s = s'"
proof -
  have "Some (s, []) = reader (concat (map encode s) @ [terminator])" by (simp only: reads_back list.simps take_Nil not_False_eq_True)
  also have "\<dots> = Some (s', [])" unfolding assms by (simp only: reads_back list.simps take_Nil not_False_eq_True)
  finally show ?thesis by simp
qed

end

abbreviation double :: "char \<Rightarrow> char \<Rightarrow> string" where
  "double q c \<equiv> if c = q then [q, q] else [c]"

interpretation name_text: quoted_text "double (CHR 0x22)" "CHR 0x22" "read_quoted (CHR 0x22)"
  by unfold_locales (auto split: list.splits)

interpretation literal_text: quoted_text "double single_quote" single_quote "read_quoted single_quote"
  by unfold_locales (auto split: list.splits)

interpretation escaped_text: quoted_text
  "\<lambda>c. if c = backslash then [backslash, backslash] else double single_quote c" single_quote "read_escaped special" for special
proof
  have one: "(@) [x] = (#) x" for x :: char by (simp add: fun_eq_iff)
  show "read_escaped special ((if c = backslash then [backslash, backslash] else double single_quote c) @ s)
      = map_option (apfst ((#) c)) (read_escaped special s)" for c s
    by (simp add: single_quote_def backslash_def one)
qed (auto simp: single_quote_def backslash_def split: list.splits)

lemma escaped_twice:
  "replace_char single_quote [single_quote, single_quote] (replace_char backslash [backslash, backslash] s)
     = concat (map (\<lambda>c. if c = backslash then [backslash, backslash] else double single_quote c) s)"
  by (induction s) (simp_all add: single_quote_def backslash_def)

text \<open>
  C15.  Quoted text is read back exactly: whatever the name or the text and whatever follows, short of another
  quote character, the database reads from an identifier, a text literal, a constant of a conflict target and
  a savepoint name the string the program gave, and goes on behind the closing quote.\<close>

theorem quoted_text_reads_back:
  assumes "take 1 rest \<noteq> [CHR 0x22]" "take 1 rest \<noteq> [single_quote]"
  shows "(\<exists>body. sql_identifier s @ rest = CHR 0x22 # body \<and> read_quoted (CHR 0x22) body = Some (s, rest))
    \<and> (\<exists>body. sql_literal s @ rest = single_quote # body \<and> read_quoted single_quote body = Some (s, rest))
    \<and> (case sql_constant (PyStr s) of Inl _ \<Rightarrow> CHR 0x00 \<in> set s
        | Inr quoted \<Rightarrow> (\<exists>body. quoted @ rest = CHR ''E'' # single_quote # body \<and> read_escaped special body = Some (s, rest)))
    \<and> (case quote_savepoint s of Inl _ \<Rightarrow> s = []
        | Inr quoted \<Rightarrow> (\<exists>body. quoted @ rest = CHR 0x22 # body \<and> read_quoted (CHR 0x22) body = Some (s, rest)))"
  using name_text.reads_back [OF assms(1), of s] literal_text.reads_back [OF assms(2), of s]
    escaped_text.reads_back [OF assms(2), of special s]
  unfolding sql_constant.simps escaped_twice
  by (simp add: sql_identifier_def sql_literal_def quote_savepoint_def raise_if_def replace_char_def del: read_escaped.simps)

theorem quoted_text_reads_back_witness:
  "\<exists>body. sql_identifier [CHR ''a'', CHR 0x22] @ ''.'' = CHR 0x22 # body
     \<and> read_quoted (CHR 0x22) body = Some ([CHR ''a'', CHR 0x22], ''.'')"
  using quoted_text_reads_back [of "''.''" "[CHR ''a'', CHR 0x22]"] by (simp add: single_quote_def)

end
