(* ===== verification/Python_Text.thy ===== *)
theory Python_Text
  imports Prelude
begin

text \<open>
  What the tools use of Python's \<open>str\<close> methods.  A character is a Latin-1 code point, on which
  \<open>isspace\<close>, \<open>isalpha\<close> and \<open>isalnum\<close> are exact; \<open>upper\<close> is exact but for the two characters whose upper case lies
  beyond (the micro sign and y with diaeresis), which stay as they are.
\<close>

definition code :: "char \<Rightarrow> nat" where
  "code c = of_char c"

definition is_space :: "char \<Rightarrow> bool" where
  "is_space c \<longleftrightarrow> (9 \<le> code c \<and> code c \<le> 13) \<or> (28 \<le> code c \<and> code c \<le> 32) \<or> code c = 133 \<or> code c = 160"

definition is_alpha :: "char \<Rightarrow> bool" where
  "is_alpha c \<longleftrightarrow> (65 \<le> code c \<and> code c \<le> 90) \<or> (97 \<le> code c \<and> code c \<le> 122)
     \<or> code c \<in> {170, 181, 186} \<or> (192 \<le> code c \<and> code c \<noteq> 215 \<and> code c \<noteq> 247)"

definition is_alnum :: "char \<Rightarrow> bool" where
  "is_alnum c \<longleftrightarrow> is_alpha c \<or> (48 \<le> code c \<and> code c \<le> 57) \<or> code c \<in> {178, 179, 185, 188, 189, 190}"

definition upper_char :: "char \<Rightarrow> string" where
  "upper_char c = (if code c = 223 then ''SS''
     else if (97 \<le> code c \<and> code c \<le> 122) \<or> (224 \<le> code c \<and> code c \<noteq> 247 \<and> code c \<noteq> 255)
     then [char_of (code c - 32)] else [c])"

definition to_upper :: "string \<Rightarrow> string" where
  "to_upper s = concat (map upper_char s)"

definition lower_char :: "char \<Rightarrow> char" where
  "lower_char c = (if (65 \<le> code c \<and> code c \<le> 90) \<or> (192 \<le> code c \<and> code c \<le> 222 \<and> code c \<noteq> 215)
     then char_of (code c + 32) else c)"

definition to_lower :: "string \<Rightarrow> string" where
  "to_lower s = map lower_char s"

definition strip :: "string \<Rightarrow> string" where
  "strip s = rev (dropWhile is_space (rev (dropWhile is_space s)))"

text \<open>\<open>needle in s\<close>, \<open>s.startswith(needle)\<close> and \<open>separator.join(parts)\<close>.\<close>

definition starts_with :: "string \<Rightarrow> string \<Rightarrow> bool" where
  "starts_with needle s \<longleftrightarrow> take (length needle) s = needle"

definition newline :: char where "newline = CHR 0x0A"

lemma strip_Nil [simp]: "strip [] = []"
  by (simp add: strip_def)

lemma starts_with_iff: "starts_with needle s \<longleftrightarrow> (\<exists>t. s = needle @ t)"
  by (auto simp: starts_with_def) (metis append_take_drop_id)

lemma newline_space: "is_space newline"
  by (simp add: is_space_def code_def newline_def)

end
