(* ===== verification/Migrations.thy ===== *)
theory Migrations
  imports Execution Python_Text
begin

text \<open>
  Migrations (\<open>relq_migrate/_model.py\<close>, \<open>provider.py\<close>): the files of a folder, the history a database keeps,
  which migrations are pending, and what counts as empty SQL.  A position in a text is the rest of the
  text from there.  The checksum (SHA-256 of the file) is a parameter: nothing else of it is used.
\<close>

section \<open>Data\<close>

record migration =
  migration_name :: string
  migration_sql :: string
  foreign_keys :: bool

datatype migration_status = Success | Error | NotExecuted

record migration_result =
  result_name :: string
  result_status :: migration_status
  result_error :: "exn option"

record migration_report =
  report_error :: "exn option"
  report_results :: "migration_result list"

definition letter_or_underscore :: "char \<Rightarrow> bool" where
  "letter_or_underscore c \<longleftrightarrow> (CHR ''A'' \<le> c \<and> c \<le> CHR ''Z'') \<or> (CHR ''a'' \<le> c \<and> c \<le> CHR ''z'') \<or> c = CHR ''_''"

definition digit :: "char \<Rightarrow> bool" where
  "digit c \<longleftrightarrow> CHR ''0'' \<le> c \<and> c \<le> CHR ''9''"

text \<open>
  \<open>_IDENTIFIER_RE\<close>.  An identifier that matches it is ASCII, so its UTF-8 encoding has its length.
\<close>

definition plain_identifier :: "string \<Rightarrow> bool" where
  "plain_identifier name \<longleftrightarrow> (case name of [] \<Rightarrow> False
     | c # cs \<Rightarrow> letter_or_underscore c \<and> list_all (\<lambda>c. letter_or_underscore c \<or> digit c) cs)"

definition validate_identifier :: "string \<Rightarrow> string \<Rightarrow> nat option \<Rightarrow> string result" where
  "validate_identifier identifier kind max_bytes = and_then (checks
     [raise_if (\<not> plain_identifier identifier) (ValueError ''invalid identifier'' [kind, identifier]),
      raise_if (\<exists>limit \<in> set_option max_bytes. length identifier > limit)
        (ValueError ''identifier exceeds the byte limit'' (kind # map str_of_nat (present [max_bytes])))])
     (\<lambda>_. Inr identifier)"

definition quote_identifier :: "string \<Rightarrow> string" where
  "quote_identifier identifier = CHR 0x22 # identifier @ [CHR 0x22]"

section \<open>Empty SQL\<close>

text \<open>A block comment from behind its opening, at a nesting depth: the depth left, and the rest.\<close>

text \<open>\<open>sql.startswith("/*", index)\<close> and the like.\<close>

definition pair_at :: "char \<Rightarrow> char \<Rightarrow> string \<Rightarrow> bool" where
  "pair_at a b s \<longleftrightarrow> take 2 s = [a, b]"

fun block_comment :: "nat \<Rightarrow> string \<Rightarrow> nat \<times> string" where
  "block_comment 0 s = (0, s)"
| "block_comment (Suc d) [] = (Suc d, [])"
| "block_comment (Suc d) (c # s) =
     (if pair_at (CHR ''/'') (CHR ''*'') (c # s) then block_comment (Suc (Suc d)) (tl s)
      else if pair_at (CHR ''*'') (CHR ''/'') (c # s) then block_comment d (tl s)
      else block_comment (Suc d) s)"

text \<open>What follows the next newline, if there is one.\<close>

fun after_newline :: "string \<Rightarrow> string option" where
  "after_newline [] = None"
| "after_newline (c # s) = (if c = newline then Some s else after_newline s)"

lemma after_newline_shorter: "after_newline s = Some t \<Longrightarrow> length t < length s"
  by (induction s) (auto split: if_splits intro: less_SucI)

lemma block_comment_shorter: "length (snd (block_comment d s)) \<le> length s"
  by (induction d s rule: block_comment.induct) auto

definition blank_char :: "char \<Rightarrow> bool" where
  "blank_char c \<longleftrightarrow> is_space c \<or> c = CHR '';''"

function is_sql_empty :: "string \<Rightarrow> bool" where
  "is_sql_empty script = (let s = dropWhile blank_char script in
     if s = [] then True
     else if pair_at (CHR ''-'') (CHR ''-'') s then
       (case after_newline (drop 2 s) of None \<Rightarrow> True | Some rest \<Rightarrow> is_sql_empty rest)
     else if pair_at (CHR ''/'') (CHR ''*'') s then
       (case block_comment 1 (drop 2 s) of (depth, rest) \<Rightarrow> if depth \<noteq> 0 then False else is_sql_empty rest)
     else False)"
  by pat_completeness auto

termination
proof (relation "measure length")
  have two: "length t < length script" if "length t \<le> length (drop 2 (dropWhile blank_char script))" "pair_at a b (dropWhile blank_char script)"
    for a b t script
    using that length_dropWhile_le [of blank_char script] by (cases "dropWhile blank_char script") (auto simp: pair_at_def)
  show "(rest, script) \<in> measure length"
    if "s = dropWhile blank_char script" "pair_at (CHR ''-'') (CHR ''-'') s" "after_newline (drop 2 s) = Some rest" for script s rest
    using two [of rest script] that after_newline_shorter [of "drop 2 s" rest] by auto
  show "(rest, script) \<in> measure length"
    if "s = dropWhile blank_char script" "pair_at (CHR ''/'') (CHR ''*'') s" "(depth, rest) = block_comment 1 (drop 2 s)" for script s depth rest
    using two [of rest script] that block_comment_shorter [of 1 "drop 2 s"] by (metis in_measure snd_conv)
qed simp

declare is_sql_empty.simps [simp del]

section \<open>Pending migrations\<close>

text \<open>\<open>applied\<close> is the dict of the history: names with distinct keys and their recorded checksums.\<close>

definition check_recorded :: "(string \<Rightarrow> string) \<Rightarrow> (string \<times> string) list \<Rightarrow> migration \<Rightarrow> unit result" where
  "check_recorded checksum applied m = (case map_of applied (migration_name m) of
       None \<Rightarrow> Inr ()
     | Some recorded \<Rightarrow> raise_if (recorded \<noteq> checksum (migration_sql m))
         (MigrationError ''migration was modified after it was applied; write a new migration instead''
           [migration_name m, take 12 recorded, take 12 (checksum (migration_sql m))]))"

definition pending_migrations ::
  "(string \<Rightarrow> string) \<Rightarrow> migration list \<Rightarrow> (string \<times> string) list \<Rightarrow> migration list result" where
  "pending_migrations checksum migrations applied =
     (let unknown = fst ` set applied - migration_name ` set migrations;
          suffix = dropWhile (\<lambda>m. migration_name m \<in> fst ` set applied) migrations;
          later = migration_name ` set suffix \<inter> fst ` set applied
      in and_then (checks (raise_if (unknown \<noteq> {}) (MigrationError
             ''the database contains migration(s) not shipped by this package; migrations are forward-only''
             (sorted_names unknown))
           # map (check_recorded checksum applied) migrations
           @ [raise_if (later \<noteq> {}) (MigrationError
             ''migration history is not an ordered prefix; later migration(s) are applied'' (sorted_names later))]))
         (\<lambda>_. Inr suffix))"

section \<open>Files\<close>

text \<open>An entry of the migration folder.  \<open>file_text\<close> is its decoded content, or the failure to read it.\<close>

record folder_entry =
  file_name :: string
  is_file :: bool
  file_text :: "string result"

text \<open>The version of a name that matches \<open>_FILENAME_RE\<close>.\<close>

definition filename_version :: "string \<Rightarrow> nat option" where
  "filename_version name = (let label = drop 5 (take (length name - 4) name) in
     if list_all digit (take 4 name) \<and> take 1 (drop 4 name) = ''_'' \<and> label \<noteq> []
       \<and> list_all (\<lambda>c. (CHR ''a'' \<le> c \<and> c \<le> CHR ''z'') \<or> digit c \<or> c = CHR ''_'') label
       \<and> drop (length name - 4) name = ''.sql''
     then Some (foldl (\<lambda>n c. 10 * n + (code c - 48)) 0 (take 4 name)) else None)"

text \<open>\<open>entry.suffix.lower() == ".sql"\<close>: a name that only is the suffix has none.\<close>

definition sql_suffix :: "string \<Rightarrow> bool" where
  "sql_suffix name \<longleftrightarrow> 4 < length name \<and> to_lower (drop (length name - 4) name) = ''.sql''"

text \<open>\<open>read_text\<close> translates line ends; \<open>splitlines\<close> knows more of them.\<close>

fun universal_newlines :: "string \<Rightarrow> string" where
  "universal_newlines [] = []"
| "universal_newlines (c # s) =
     (if code c = 13 then newline # universal_newlines (if take 1 s = [newline] then tl s else s)
      else c # universal_newlines s)"

definition line_boundary :: "char \<Rightarrow> bool" where
  "line_boundary c \<longleftrightarrow> (10 \<le> code c \<and> code c \<le> 13) \<or> (28 \<le> code c \<and> code c \<le> 30) \<or> code c = 133"

function split_lines :: "string \<Rightarrow> string list" where
  "split_lines s = (if s = [] then [] else
     takeWhile (\<lambda>c. \<not> line_boundary c) s # (case dropWhile (\<lambda>c. \<not> line_boundary c) s of
         [] \<Rightarrow> []
       | c # t \<Rightarrow> split_lines (if code c = 13 \<and> take 1 t = [newline] then tl t else t)))"
  by pat_completeness auto

termination
proof (relation "measure length")
  show "(if code c = 13 \<and> take 1 t = [newline] then tl t else t, s) \<in> measure length"
    if "dropWhile (\<lambda>c. \<not> line_boundary c) s = c # t" for s c t
    using length_dropWhile_le [of "\<lambda>c. \<not> line_boundary c" s] that by auto
qed simp

declare split_lines.simps [simp del]

text \<open>A prefix in any case, as \<open>re.IGNORECASE\<close> compares ASCII text.\<close>

definition after_prefix :: "string \<Rightarrow> string \<Rightarrow> string option" where
  "after_prefix word s = (if to_lower (take (length word) s) = word then Some (drop (length word) s) else None)"

text \<open>\<open>_DIRECTIVE_RE\<close> on a stripped line that starts with two dashes, and \<open>_FOREIGN_KEYS_OFF_RE\<close> on its body.\<close>

definition directive_body :: "string \<Rightarrow> string option" where
  "directive_body line = after_prefix ''relq:'' (dropWhile is_space (drop 2 line))"

definition foreign_keys_off :: "string \<Rightarrow> bool" where
  "foreign_keys_off body = (case after_prefix ''foreign_keys'' (dropWhile is_space body) of
       None \<Rightarrow> False
     | Some s \<Rightarrow> (case after_prefix ''='' (dropWhile is_space s) of
         None \<Rightarrow> False
       | Some t \<Rightarrow> (case after_prefix ''off'' (dropWhile is_space t) of
           None \<Rightarrow> False
         | Some rest \<Rightarrow> list_all is_space rest)))"

fun header_lines :: "string \<Rightarrow> string list \<Rightarrow> bool \<Rightarrow> bool result" where
  "header_lines name [] keys = Inr keys"
| "header_lines name (line # rest) keys = (let content = strip line in
     if content = [] then header_lines name rest keys
     else if \<not> starts_with ''--'' content then Inr keys
     else (case directive_body content of
         None \<Rightarrow> header_lines name rest keys
       | Some body \<Rightarrow>
           if \<not> foreign_keys_off body then Inl (MigrationError ''migration has an unsupported directive'' [name, content])
           else header_lines name rest False))"

definition header_foreign_keys :: "string \<Rightarrow> string \<Rightarrow> bool result" where
  "header_foreign_keys name script = header_lines name (split_lines script) True"

definition read_migration :: "folder_entry \<Rightarrow> migration result" where
  "read_migration f = and_then (file_text f) (\<lambda>raw. let script = universal_newlines raw in
     and_then (header_foreign_keys (file_name f) script)
       (\<lambda>keys. Inr \<lparr>migration_name = file_name f, migration_sql = script, foreign_keys = keys\<rparr>))"

text \<open>\<open>FileMigrationProvider.migrations\<close> on the entries of the folder, None when it is no directory.\<close>

definition version_of :: "folder_entry \<Rightarrow> nat option" where
  "version_of f = (if is_file f then filename_version (file_name f) else None)"

definition load_migrations :: "string \<Rightarrow> folder_entry list option \<Rightarrow> migration list result" where
  "load_migrations folder listing = (case listing of
       None \<Rightarrow> Inl (NotADirectoryError [folder])
     | Some files \<Rightarrow>
         (let found = sort_key (the \<circ> version_of) (filter (\<lambda>f. version_of f \<noteq> None) files);
              invalid = map file_name (filter (\<lambda>f. is_file f \<and> version_of f = None \<and> sql_suffix (file_name f)) files);
              versions = map (the \<circ> version_of) found
          in and_then (checks
               [raise_if (invalid \<noteq> []) (MigrationError ''invalid migration filename(s); expected NNNN_lower_case.sql'' (sort invalid)),
                raise_if (card (set versions) \<noteq> length versions)
                  (MigrationError ''duplicate migration versions'' (map str_of_nat versions)),
                raise_if (versions \<noteq> [1..<length versions + 1])
                  (MigrationError ''migration versions must be contiguous from 1'' (map str_of_nat versions))])
             (\<lambda>_. map_results read_migration found)))"

end
