(* ===== verification/Sqlite_Migrator.thy ===== *)
theory Sqlite_Migrator
  imports Migrations Triples
begin

text \<open>
  The SQLite migrator (\<open>relq_migrate/sqlite.py\<close>).  Its actions run on the environment of the connection
  alone; the fields of \<open>sqlite_connection\<close> are what it uses of \<open>sqlite3\<close>.  Statements take text parameters;
  rows are read with the cursor's row factory off.
\<close>

section \<open>The connection\<close>

datatype autocommit_mode = AutocommitOn | AutocommitOff | LegacyControl

datatype fetched = TupleRow "datum list" | OtherRow

record 'w sqlite_connection =
  run_statement :: "string \<Rightarrow> string list \<Rightarrow> 'w \<Rightarrow> unit result \<times> 'w"
  fetch_rows :: "string \<Rightarrow> string list \<Rightarrow> 'w \<Rightarrow> fetched list result \<times> 'w"
  commit_open :: "'w \<Rightarrow> unit result \<times> 'w"
  rollback_open :: "'w \<Rightarrow> unit result \<times> 'w"
  transaction_open :: "'w \<Rightarrow> bool"
  autocommit_of :: "'w \<Rightarrow> autocommit_mode"
  complete_statement :: "string \<Rightarrow> bool"

text \<open>\<open>try: m finally: f\<close>: an exception of the clean-up replaces the outcome.\<close>

definition finally_do :: "('w, 'a) action \<Rightarrow> ('w, unit) action \<Rightarrow> ('w, 'a) action" where
  "finally_do m f = bind (outcome m) (\<lambda>r. bind f (\<lambda>_. pure r))"

text \<open>\<open>try: m except Exception as error: handler\<close>; other exceptions pass.\<close>

definition on_exception :: "('w, 'a) action \<Rightarrow> (exn \<Rightarrow> ('w, 'a) action) \<Rightarrow> ('w, 'a) action" where
  "on_exception m handler = on_error m (\<lambda>e. if is_exception e then handler e else raise e)"

definition migration_error :: "string \<Rightarrow> migration \<Rightarrow> exn" where
  "migration_error message m = MigrationError message [migration_name m]"

definition pragma_value :: "'w sqlite_connection \<Rightarrow> string \<Rightarrow> ('w, int) action" where
  "pragma_value c name = bind (fetch_rows c (''PRAGMA '' @ name) []) (\<lambda>rows.
     case rows of
       TupleRow (IntValue n # _) # _ \<Rightarrow> ret n
     | TupleRow (BoolValue b # _) # _ \<Rightarrow> ret (if b then 1 else 0)
     | TupleRow [] # _ \<Rightarrow> raise (IndexError ''tuple index out of range'')
     | _ \<Rightarrow> raise (MigrationError ''PRAGMA did not return an integer'' [name]))"

definition disable_foreign_keys :: "'w sqlite_connection \<Rightarrow> ('w, bool) action" where
  "disable_foreign_keys c = bind (pragma_value c ''foreign_keys'') (\<lambda>enforced.
     if enforced \<noteq> 1 then ret False
     else bind (run_statement c ''PRAGMA foreign_keys = OFF'' []) (\<lambda>_.
       bind (pragma_value c ''foreign_keys'') (\<lambda>now.
         if now \<noteq> 0 then raise (MigrationError ''SQLite did not turn foreign key enforcement off'' []) else ret True)))"

definition enable_foreign_keys :: "'w sqlite_connection \<Rightarrow> ('w, unit) action" where
  "enable_foreign_keys c = bind (run_statement c ''PRAGMA foreign_keys = ON'' []) (\<lambda>_.
     bind (pragma_value c ''foreign_keys'') (\<lambda>now.
       pure (raise_if (now \<noteq> 1) (MigrationError ''SQLite did not restore foreign key enforcement'' []))))"

definition check_foreign_keys :: "'w sqlite_connection \<Rightarrow> migration \<Rightarrow> ('w, unit) action" where
  "check_foreign_keys c m = bind (fetch_rows c ''PRAGMA foreign_key_check'' []) (\<lambda>violations.
     pure (raise_if (violations \<noteq> []) (MigrationError ''migration left foreign key violations''
       [migration_name m, str_of_nat (length violations)])))"

definition validate_connection_mode :: "'w sqlite_connection \<Rightarrow> ('w, unit) action" where
  "validate_connection_mode c = bind (ask (autocommit_of c)) (\<lambda>auto. pure (raise_if (auto = AutocommitOff)
     (ValueError ''SQLiteMigrator does not support sqlite3 autocommit=False'' [])))"

definition commit_migration :: "'w sqlite_connection \<Rightarrow> ('w, unit) action" where
  "commit_migration c = bind (ask (autocommit_of c)) (\<lambda>auto.
     if auto = AutocommitOn then run_statement c ''COMMIT'' [] else commit_open c)"

definition rollback_migration :: "'w sqlite_connection \<Rightarrow> ('w, unit) action" where
  "rollback_migration c = bind (ask (transaction_open c)) (\<lambda>busy.
     if \<not> busy then ret ()
     else bind (ask (autocommit_of c)) (\<lambda>auto.
       if auto = AutocommitOn then run_statement c ''ROLLBACK'' [] else rollback_open c))"

section \<open>The history table\<close>

definition create_history_table :: "'w sqlite_connection \<Rightarrow> string \<Rightarrow> ('w, unit) action" where
  "create_history_table c table = run_statement c (concat (map (\<lambda>line. newline # line)
     [''        CREATE TABLE IF NOT EXISTS '' @ table @ '' ('',
      ''            migration_name TEXT PRIMARY KEY,'',
      ''            checksum TEXT NOT NULL,'',
      ''            applied_at TEXT NOT NULL DEFAULT CURRENT_TIMESTAMP'',
      ''        )'', ''        ''])) []"

text \<open>Bytes that are not ASCII are not decoded: UTF-8 beyond it is outside the model's characters.\<close>

definition history_text :: "datum \<Rightarrow> string \<Rightarrow> string result" where
  "history_text cell column = (case cell of
       StrValue s \<Rightarrow> Inr s
     | BytesValue s \<Rightarrow> if list_all (\<lambda>c. code c < 128) s then Inr s
         else Inl (MigrationError ''migration history column is not valid UTF-8'' [column])
     | _ \<Rightarrow> Inl (MigrationError ''migration history column is not text'' [column]))"

text \<open>A dict keeps the position of a key it has.\<close>

fun dict_put :: "(string \<times> string) list \<Rightarrow> string \<Rightarrow> string \<Rightarrow> (string \<times> string) list" where
  "dict_put [] k v = [(k, v)]"
| "dict_put ((k', v') # kvs) k v = (if k' = k then (k, v) # kvs else (k', v') # dict_put kvs k v)"

fun history_of :: "fetched list \<Rightarrow> (string \<times> string) list \<Rightarrow> (string \<times> string) list result" where
  "history_of [] applied = Inr applied"
| "history_of (TupleRow (name # digest # _) # rows) applied =
     and_then (history_text digest ''checksum'') (\<lambda>s. and_then (history_text name ''migration_name'')
       (\<lambda>n. history_of rows (dict_put applied n s)))"
| "history_of (TupleRow _ # rows) applied = Inl (IndexError ''tuple index out of range'')"
| "history_of (OtherRow # rows) applied = Inl (MigrationError ''migration history query did not return two columns'' [])"

definition read_applied :: "'w sqlite_connection \<Rightarrow> string \<Rightarrow> ('w, (string \<times> string) list) action" where
  "read_applied c table = bind (fetch_rows c (''SELECT migration_name, checksum FROM '' @ table) [])
     (\<lambda>rows. pure (history_of rows []))"

section \<open>Statements\<close>

definition is_transaction_control :: "'w sqlite_connection \<Rightarrow> string \<Rightarrow> ('w, bool) action" where
  "is_transaction_control c statement = (if is_sql_empty statement then ret False
     else bind (fetch_rows c (''EXPLAIN '' @ statement) []) (\<lambda>rows. ret (\<exists>row \<in> set rows. case row of
         TupleRow (_ # opcode # _) \<Rightarrow> opcode \<in> {StrValue ''AutoCommit'', BytesValue ''AutoCommit'',
           StrValue ''Savepoint'', BytesValue ''Savepoint''}
       | _ \<Rightarrow> False)))"

fun split_sql :: "(string \<Rightarrow> bool) \<Rightarrow> string \<Rightarrow> string \<Rightarrow> string list" where
  "split_sql finished collected [] = (if strip collected \<noteq> [] then [strip collected] else [])"
| "split_sql finished collected (c # s) = (let now = collected @ [c] in
     if c = CHR '';'' \<and> finished now
     then (if strip now \<noteq> [] then [strip now] else []) @ split_sql finished [] s
     else split_sql finished now s)"

definition split_sql_statements :: "(string \<Rightarrow> bool) \<Rightarrow> string \<Rightarrow> string list" where
  "split_sql_statements finished script = split_sql finished [] script"

section \<open>The migrator\<close>

text \<open>The statements of a migration, one by one.\<close>

fun run_statements :: "'w sqlite_connection \<Rightarrow> migration \<Rightarrow> string list \<Rightarrow> ('w, unit) action" where
  "run_statements c m [] = ret ()"
| "run_statements c m (statement # rest) = bind (is_transaction_control c statement) (\<lambda>control.
     if control then raise (migration_error ''migration contains transaction-control SQL'' m)
     else bind (run_statement c statement []) (\<lambda>_.
       bind (ask (transaction_open c)) (\<lambda>busy.
         if \<not> busy then raise (migration_error ''migration ended the migrator's transaction'' m)
         else run_statements c m rest)))"

text \<open>The \<open>try\<close> of \<open>_apply\<close>, and the whole of it.\<close>

definition attempt_migration ::
  "'w sqlite_connection \<Rightarrow> (string \<Rightarrow> string) \<Rightarrow> migration list \<Rightarrow> string \<Rightarrow> migration \<Rightarrow> ('w, bool) action" where
  "attempt_migration c checksum migrations table m =
     bind (run_statement c ''BEGIN IMMEDIATE'' []) (\<lambda>_.
     bind (read_applied c table) (\<lambda>applied.
     bind (pure (pending_migrations checksum migrations applied)) (\<lambda>pending_now.
     if migration_name m \<in> fst ` set applied then bind (commit_migration c) (\<lambda>_. ret False)
     else if map migration_name (take 1 pending_now) \<noteq> [migration_name m]
     then raise (migration_error ''migration is not the next pending migration'' m)
     else bind (run_statements c m (split_sql_statements (complete_statement c) (migration_sql m))) (\<lambda>_.
       bind (run_statement c (''INSERT INTO '' @ table @ '' (migration_name, checksum) VALUES (?, ?)'')
         [migration_name m, checksum (migration_sql m)]) (\<lambda>_.
       bind (if foreign_keys m then ret () else check_foreign_keys c m) (\<lambda>_.
       bind (commit_migration c) (\<lambda>_. ret True)))))))"

definition apply_migration ::
  "'w sqlite_connection \<Rightarrow> (string \<Rightarrow> string) \<Rightarrow> migration list \<Rightarrow> string \<Rightarrow> migration \<Rightarrow> ('w, bool) action" where
  "apply_migration c checksum migrations table m =
     bind (if foreign_keys m then ret False else disable_foreign_keys c) (\<lambda>enforcement_was_on.
     finally_do
       (on_error (attempt_migration c checksum migrations table m) (\<lambda>e. bind (rollback_migration c) (\<lambda>_. raise e)))
       (if enforcement_was_on then enable_foreign_keys c else ret ()))"

definition outcome_of :: "migration \<Rightarrow> migration_status \<Rightarrow> exn option \<Rightarrow> migration_result" where
  "outcome_of m status e = \<lparr>result_name = migration_name m, result_status = status, result_error = e\<rparr>"

text \<open>The loop over the pending migrations, with the results so far.\<close>

fun apply_pending ::
  "'w sqlite_connection \<Rightarrow> (string \<Rightarrow> string) \<Rightarrow> migration list \<Rightarrow> string \<Rightarrow> migration_result list \<Rightarrow> migration list
     \<Rightarrow> ('w, migration_report) action" where
  "apply_pending c checksum migrations table results [] = ret \<lparr>report_error = None, report_results = results\<rparr>"
| "apply_pending c checksum migrations table results (m # later) =
     bind (on_exception (bind (apply_migration c checksum migrations table m) (\<lambda>executed. ret (Inr executed)))
         (\<lambda>e. ret (Inl e)))
       (\<lambda>attempt. case attempt of
          Inl e \<Rightarrow> ret \<lparr>report_error = Some e, report_results = results @ [outcome_of m Error (Some e)]
            @ map (\<lambda>n. outcome_of n NotExecuted None) later\<rparr>
        | Inr executed \<Rightarrow> apply_pending c checksum migrations table
            (results @ [outcome_of m (if executed then Success else NotExecuted) None]) later)"

text \<open>\<open>provider\<close> is the outcome of \<open>provider.migrations()\<close>.\<close>

definition migrate ::
  "'w sqlite_connection \<Rightarrow> (string \<Rightarrow> string) \<Rightarrow> migration list result \<Rightarrow> string \<Rightarrow> ('w, migration_report) action" where
  "migrate c checksum provider history_table = (let table = quote_identifier history_table in
     bind (on_exception
         (bind (pure provider) (\<lambda>migrations.
          bind (run_statement c ''BEGIN IMMEDIATE'' []) (\<lambda>_.
          bind (create_history_table c table) (\<lambda>_.
          bind (read_applied c table) (\<lambda>applied.
          bind (pure (pending_migrations checksum migrations applied)) (\<lambda>pending.
          bind (commit_migration c) (\<lambda>_. ret (Inr (migrations, pending)))))))))
         (\<lambda>e. bind (rollback_migration c) (\<lambda>_. ret (Inl e))))
       (\<lambda>start. case start of
          Inl e \<Rightarrow> ret \<lparr>report_error = Some e, report_results = []\<rparr>
        | Inr (migrations, pending) \<Rightarrow> apply_pending c checksum migrations table [] pending))"

text \<open>\<open>busy\<close> is the migrator's busy timeout in milliseconds, None for a number of seconds it does not accept.\<close>

definition new_sqlite_migrator ::
  "'w sqlite_connection \<Rightarrow> string \<Rightarrow> int option \<Rightarrow> ('w, string \<times> int) action" where
  "new_sqlite_migrator c history_table busy = bind (validate_connection_mode c) (\<lambda>_. case busy of
       None \<Rightarrow> raise (ValueError ''busy_timeout must be a non-negative number of seconds'' [])
     | Some ms \<Rightarrow> bind (pure (validate_identifier history_table ''history table'' None)) (\<lambda>name. ret (name, ms)))"

definition migrate_to_latest ::
  "'w sqlite_connection \<Rightarrow> (string \<Rightarrow> string) \<Rightarrow> migration list result \<Rightarrow> string \<times> int \<Rightarrow> ('w, migration_report) action" where
  "migrate_to_latest c checksum provider migrator = bind (validate_connection_mode c) (\<lambda>_.
     bind (ask (transaction_open c)) (\<lambda>busy.
     if busy then raise (RuntimeError ''SQLiteMigrator requires a connection outside a caller-owned transaction'' [])
     else bind (pragma_value c ''busy_timeout'') (\<lambda>previous.
       bind (run_statement c (''PRAGMA busy_timeout = '' @ str_of_int (snd migrator)) []) (\<lambda>_.
         finally_do (migrate c checksum provider (fst migrator))
           (run_statement c (''PRAGMA busy_timeout = '' @ str_of_int previous) [])))))"

definition pending_names ::
  "'w sqlite_connection \<Rightarrow> (string \<Rightarrow> string) \<Rightarrow> migration list result \<Rightarrow> string \<Rightarrow> ('w, string list) action" where
  "pending_names c checksum provider history_table = bind (pure provider) (\<lambda>migrations.
     bind (fetch_rows c ''SELECT name FROM sqlite_master WHERE type = 'table' AND name = ?'' [history_table]) (\<lambda>tables.
     bind (if tables = [] then ret [] else read_applied c (quote_identifier history_table)) (\<lambda>applied.
     bind (pure (pending_migrations checksum migrations applied)) (\<lambda>pending. ret (map migration_name pending)))))"

end
