(* ===== verification/Frames.thy ===== *)
theory Frames
  imports Sqlite_Migrator
begin

text \<open>
  How an action moves the state, however it ends: \<open>moves R m\<close> relates every state in which \<open>m\<close> is run to the one it
  leaves behind.  For a reflexive and transitive relation this goes through the control flow.
\<close>

definition moves :: "('s \<Rightarrow> 's \<Rightarrow> bool) \<Rightarrow> ('s, 'a) action \<Rightarrow> bool" where
  "moves R m \<longleftrightarrow> (\<forall>s. R s (snd (m s)))"

lemma moves_wp: "moves R m \<Longrightarrow> wp m (\<lambda>_. R s) (\<lambda>_. R s) s"
  by (simp add: moves_def wp_final)

lemma wp_always: "(\<And>x s. Q x s) \<Longrightarrow> (\<And>e s. E e s) \<Longrightarrow> wp m Q E s"
  by (simp add: wp_def split: prod.split sum.split)

lemma wp_finally [wp_simps]: "wp (finally_do m f) Q E s = wp m (\<lambda>x. wp f (\<lambda>_. Q x) E) (\<lambda>e. wp f (\<lambda>_. E e) E) s"
  by (simp add: wp_def finally_do_def bind_def outcome_def pure_def split: prod.split sum.split)

locale frame =
  fixes R :: "'s \<Rightarrow> 's \<Rightarrow> bool"
  assumes same: "R s s"
    and steps: "R s s' \<Longrightarrow> R s' s'' \<Longrightarrow> R s s''"
begin

lemma moves_pure: "moves R (ret x)" "moves R (raise e)" "moves R (ask f)" "moves R (pure r)"
  by (simp_all add: moves_def action_defs same)

lemma moves_act: "(\<And>s. R s (f s)) \<Longrightarrow> moves R (act f)"
  by (simp add: moves_def action_defs)

lemma moves_bind:
  assumes "moves R m" "\<And>x. moves R (g x)"
  shows "moves R (bind m g)"
  unfolding moves_def
proof
  fix s
  obtain r s' where m: "m s = (r, s')" by (cases "m s")
  then have "R s s'" using assms(1) by (metis moves_def snd_conv)
  then show "R s (snd (bind m g s))"
    using assms(2) m by (cases r) (auto simp: bind_def moves_def intro: steps)
qed

lemma moves_try_else:
  assumes "moves R m" "\<And>e. moves R (h e)" "\<And>x. moves R (g x)"
  shows "moves R (try_else m h g)"
  unfolding moves_def
proof
  fix s
  obtain r s' where m: "m s = (r, s')" by (cases "m s")
  then have "R s s'" using assms(1) by (metis moves_def snd_conv)
  then show "R s (snd (try_else m h g s))"
    using assms(2,3) m by (cases r) (auto simp: try_else_def moves_def intro: steps)
qed

lemma moves_on_error:
  assumes "moves R m" "\<And>e. moves R (h e)"
  shows "moves R (on_error m h)"
proof -
  have "on_error m h = try_else m h ret" by (rule ext) (simp add: on_error_def try_else_def ret_def split: prod.split sum.split)
  then show ?thesis using moves_try_else [OF assms moves_pure(1)] by simp
qed

lemma moves_on_exception: "moves R m \<Longrightarrow> (\<And>e. moves R (h e)) \<Longrightarrow> moves R (on_exception m h)"
  unfolding on_exception_def by (intro moves_on_error) (auto intro: moves_pure)

lemma moves_outcome: "moves R m \<Longrightarrow> moves R (outcome m)"
  by (auto simp: moves_def outcome_def split: prod.split) (metis snd_conv)

lemma moves_finally: "moves R m \<Longrightarrow> moves R f \<Longrightarrow> moves R (finally_do m f)"
  unfolding finally_do_def by (intro moves_bind moves_outcome moves_pure)

lemma moves_cases:
  "moves R a \<Longrightarrow> moves R b \<Longrightarrow> moves R (if p then a else b)"
  "moves R a \<Longrightarrow> (\<And>y. moves R (f y)) \<Longrightarrow> moves R (case x of None \<Rightarrow> a | Some y \<Rightarrow> f y)"
  "(\<And>y z. moves R (g y z)) \<Longrightarrow> moves R (case p' of (y, z) \<Rightarrow> g y z)"
  by (auto split: option.split prod.split)

lemmas moves_control = moves_cases moves_pure moves_bind moves_try_else moves_on_error moves_on_exception moves_outcome moves_finally

lemma moves_fold: "(\<And>x s. R s (f x s)) \<Longrightarrow> R s (fold f xs s)"
  by (induction xs arbitrary: s) (auto intro: steps same)

end

end
