(* ===== verification/Migration_Laws.thy ===== *)
theory Migration_Laws
  imports Migrations "HOL-Library.Multiset"
begin

text \<open>
  The files of a migration folder and what is pending of them: which folders load and as what, and which
  histories are accepted and what they leave to do.
\<close>

section \<open>What is pending\<close>

definition record_of :: "(string \<Rightarrow> string) \<Rightarrow> migration \<Rightarrow> string \<times> string" where
  "record_of checksum m = (migration_name m, checksum (migration_sql m))"

lemma check_recorded_ok:
  "check_recorded checksum applied m = Inr () \<longleftrightarrow> map_of applied (migration_name m) \<in> {None, Some (snd (record_of checksum m))}"
  by (auto simp: check_recorded_def record_of_def split: option.splits)

lemma pending_prefix:
  assumes "distinct (map migration_name migrations)"
  shows "pending_migrations checksum migrations applied = Inr rest \<longleftrightarrow>
    (\<exists>past. migrations = past @ rest \<and> map_of applied = map_of (map (record_of checksum) past))"
proof
  let ?names = "fst ` set applied"
  let ?in = "\<lambda>m. migration_name m \<in> ?names"
  have dom: "n \<in> ?names \<longleftrightarrow> map_of applied n \<noteq> None" for n by (simp add: map_of_eq_None_iff)
  assume "pending_migrations checksum migrations applied = Inr rest"
  then have unknown: "?names \<subseteq> migration_name ` set migrations"
    and sums: "\<And>m. m \<in> set migrations \<Longrightarrow> check_recorded checksum applied m = Inr ()"
    and later: "migration_name ` set rest \<inter> ?names = {}" and rest: "rest = dropWhile ?in migrations"
    by (auto simp: pending_migrations_def Let_def and_then_ok checks_ok)
  let ?past = "takeWhile ?in migrations"
  have split: "migrations = ?past @ rest" by (simp add: rest)
  have "map_of applied n = map_of (map (record_of checksum) ?past) n" for n
  proof (cases "\<exists>m \<in> set ?past. migration_name m = n")
    case True
    then obtain m where m: "m \<in> set ?past" "migration_name m = n" by blast
    then have "map_of applied n = Some (snd (record_of checksum m))"
      using sums [of m] set_takeWhileD [OF m(1)] by (auto simp: check_recorded_ok dom)
    moreover have "distinct (map fst (map (record_of checksum) ?past))"
      using assms by (subst (asm) split) (simp add: record_of_def comp_def)
    then have "map_of (map (record_of checksum) ?past) n = Some (snd (record_of checksum m))"
      using m by (auto simp: record_of_def intro!: map_of_is_SomeI)
    ultimately show ?thesis by simp
  next
    case False
    then have "n \<notin> ?names" using unknown later split by (metis (no_types, lifting) UnE disjoint_iff image_iff set_append subsetD)
    then have "map_of applied n = None" by (simp add: dom)
    moreover have "map_of (map (record_of checksum) ?past) n = None" using False by (auto simp: map_of_eq_None_iff record_of_def)
    ultimately show ?thesis by (simp only:)
  qed
  then show "\<exists>past. migrations = past @ rest \<and> map_of applied = map_of (map (record_of checksum) past)"
    using split by (blast intro: ext)
next
  let ?names = "fst ` set applied"
  assume "\<exists>past. migrations = past @ rest \<and> map_of applied = map_of (map (record_of checksum) past)"
  then obtain past where split: "migrations = past @ rest" and hist: "map_of applied = map_of (map (record_of checksum) past)" by blast
  have names: "?names = migration_name ` set past"
    using dom_map_of_conv_image_fst [of applied] dom_map_of_conv_image_fst [of "map (record_of checksum) past"] hist
    by (simp add: image_image record_of_def)
  have apart: "migration_name ` set past \<inter> migration_name ` set rest = {}" using assms split by auto
  have "dropWhile (\<lambda>m. migration_name m \<in> ?names) migrations = rest"
    using apart unfolding split names by (cases rest) (auto simp: dropWhile_append2)
  moreover have "check_recorded checksum applied m = Inr ()" if "m \<in> set migrations" for m
  proof (cases "m \<in> set past")
    case True
    have "distinct (map fst (map (record_of checksum) past))" using assms split by (simp add: record_of_def comp_def)
    then have "map_of applied (migration_name m) = Some (snd (record_of checksum m))"
      using True unfolding hist by (auto simp: record_of_def intro!: map_of_is_SomeI)
    then show ?thesis by (simp add: check_recorded_ok)
  next
    case False
    then have "migration_name m \<notin> ?names" using that apart unfolding split names by auto
    then show ?thesis by (simp add: check_recorded_ok map_of_eq_None_iff)
  qed
  ultimately show "pending_migrations checksum migrations applied = Inr rest"
    using apart by (auto simp: pending_migrations_def Let_def and_then_ok checks_ok names split Int_commute)
qed

text \<open>
  C32.  The pending migrations are what is left of the files after the history, exactly: the check succeeds
  with \<open>rest\<close> if and only if the files are some \<open>past\<close> followed by \<open>rest\<close>, and the history records the names of
  \<open>past\<close>, each with the checksum of its file, and nothing else.
\<close>

theorem pending_migrations_exact:
  assumes "distinct (map migration_name migrations)"
  shows "pending_migrations checksum migrations applied = Inr rest \<longleftrightarrow>
    (\<exists>past. migrations = past @ rest \<and> map_of applied = map_of (map (record_of checksum) past))"
  by (rule pending_prefix [OF assms])

theorem pending_migrations_exact_witness:
  "pending_migrations (\<lambda>s. s) [\<lparr>migration_name = ''0001_a.sql'', migration_sql = ''x'', foreign_keys = True\<rparr>,
      \<lparr>migration_name = ''0002_b.sql'', migration_sql = ''y'', foreign_keys = True\<rparr>] [(''0001_a.sql'', ''x'')]
    = Inr [\<lparr>migration_name = ''0002_b.sql'', migration_sql = ''y'', foreign_keys = True\<rparr>]"
  by (subst pending_migrations_exact) (auto simp: record_of_def)

section \<open>What a folder holds\<close>

text \<open>
  C33.  A folder loads exactly when every file with the suffix \<open>.sql\<close> is named \<open>NNNN_label.sql\<close>, the versions are
  \<open>1, ..., n\<close>, each once, and every file can be read with the directives of its header; the migrations are
  those files in the order of their versions, whatever the order in which the directory lists them.
\<close>

theorem load_migrations_exact:
  "load_migrations folder (Some files) = Inr ms \<longleftrightarrow>
     (\<forall>f \<in> set files. is_file f \<and> sql_suffix (file_name f) \<longrightarrow> version_of f \<noteq> None)
   \<and> (\<exists>fs. mset fs = mset (filter (\<lambda>f. version_of f \<noteq> None) files)
        \<and> map version_of fs = map Some [1..<length fs + 1] \<and> map_results read_migration fs = Inr ms)"
proof -
  define numbered where "numbered = filter (\<lambda>f. version_of f \<noteq> None) files"
  define found where "found = sort_key (the \<circ> version_of) numbered"
  have versions: "map (the \<circ> version_of) fs = [1..<length fs + 1] \<longleftrightarrow> map version_of fs = map Some [1..<length fs + 1]"
    if "mset fs = mset numbered" for fs
  proof -
    have "set fs = set numbered" using that by (metis set_mset_mset)
    then have "version_of f \<noteq> None" if "f \<in> set fs" for f using that by (auto simp: numbered_def)
    then have "map version_of fs = map Some (map (the \<circ> version_of) fs)" by (auto intro!: map_cong)
    then show ?thesis by (metis inj_Some inj_map_eq_map)
  qed
  have unique: "fs = found" if m: "mset fs = mset numbered" and v: "map version_of fs = map Some [1..<length fs + 1]" for fs
  proof -
    have "map (the \<circ> version_of) fs = [1..<length fs + 1]" using versions [OF m] v by blast
    then have "sorted (map (the \<circ> version_of) fs)" "distinct (map (the \<circ> version_of) fs)" by (simp_all only: sorted_upt distinct_upt)
    moreover from this have "inj_on (the \<circ> version_of) (set numbered)"
      using m by (metis distinct_map set_mset_mset)
    ultimately show ?thesis unfolding found_def using sort_key_inj_key_eq [OF m [symmetric], of "the \<circ> version_of"] by simp
  qed
  have m: "mset found = mset numbered" by (simp add: found_def)
  have once: "card (set vs) = length vs" if "vs = [1..<length vs + 1]" for vs :: "nat list"
    using that by (metis distinct_card distinct_upt)
  have valid: "filter (\<lambda>f. is_file f \<and> version_of f = None \<and> sql_suffix (file_name f)) files = []
      \<longleftrightarrow> (\<forall>f \<in> set files. is_file f \<and> sql_suffix (file_name f) \<longrightarrow> version_of f \<noteq> None)"
    by (auto simp: filter_empty_conv)
  define vs where "vs = map (the \<circ> version_of) found"
  have n: "length found = length vs" by (simp add: vs_def)
  have "load_migrations folder (Some files) = Inr ms \<longleftrightarrow>
      (\<forall>f \<in> set files. is_file f \<and> sql_suffix (file_name f) \<longrightarrow> version_of f \<noteq> None)
    \<and> map (the \<circ> version_of) found = [1..<length found + 1] \<and> map_results read_migration found = Inr ms"
    unfolding load_migrations_def option.case Let_def numbered_def [symmetric] found_def [symmetric] valid [symmetric] vs_def [symmetric] n
    using once [of vs] by (simp add: and_then_ok checks_ok del: upt_Suc) blast
  then show ?thesis unfolding numbered_def [symmetric] using versions [OF m] unique m by blast
qed

theorem load_migrations_exact_witness:
  "load_migrations ''m'' (Some [\<lparr>file_name = ''r'', is_file = True, file_text = Inl (External True ''x'')\<rparr>,
      \<lparr>file_name = ''0001_a.sql'', is_file = True, file_text = Inr ''x''\<rparr>])
    = Inr [\<lparr>migration_name = ''0001_a.sql'', migration_sql = ''x'', foreign_keys = True\<rparr>]"
proof -
  let ?f = "\<lparr>file_name = ''0001_a.sql'', is_file = True, file_text = Inr ''x''\<rparr>"
  let ?r = "\<lparr>file_name = ''r'', is_file = True, file_text = Inl (External True ''x'')\<rparr>"
  have v: "version_of ?f = Some 1" "version_of ?r = None" "\<not> sql_suffix (file_name ?r)"
    by (simp_all add: version_of_def filename_version_def digit_def code_def sql_suffix_def to_lower_def lower_char_def)
  have "read_migration ?f = Inr \<lparr>migration_name = ''0001_a.sql'', migration_sql = ''x'', foreign_keys = True\<rparr>"
    by (simp add: read_migration_def header_foreign_keys_def split_lines.simps line_boundary_def code_def strip_def is_space_def
      starts_with_def)
  then show ?thesis
    unfolding load_migrations_exact using v by (intro conjI exI [of _ "[?f]"]) auto
qed

text \<open>The names of the files of a folder differ; what they hold has only one kind of line end.\<close>

lemma universal_newlines_clean: "c \<in> set (universal_newlines s) \<Longrightarrow> code c \<noteq> 13"
  by (induction s rule: universal_newlines.induct) (auto split: if_splits simp: newline_def code_def)

lemma read_migration_ok:
  "read_migration f = Inr m \<Longrightarrow> migration_name m = file_name f \<and> (\<forall>c \<in> set (migration_sql m). code c \<noteq> 13)"
  by (auto simp: read_migration_def and_then_ok Let_def dest: universal_newlines_clean)

lemma loaded:
  assumes "load_migrations folder (Some files) = Inr ms" "distinct (map file_name files)"
  shows "distinct (map migration_name ms)" "\<And>m c. m \<in> set ms \<Longrightarrow> c \<in> set (migration_sql m) \<Longrightarrow> code c \<noteq> 13"
proof -
  from assms(1) obtain fs where fs: "mset fs = mset (filter (\<lambda>f. version_of f \<noteq> None) files)"
      "map_results read_migration fs = Inr ms" unfolding load_migrations_exact by blast
  from fs(2) have all: "list_all2 (\<lambda>f m. read_migration f = Inr m) fs ms" by (simp add: map_results_ok)
  then have "map migration_name ms = map file_name fs"
    by (induction rule: list_all2_induct) (auto dest: read_migration_ok)
  moreover have "mset (map file_name fs) = mset (map file_name (filter (\<lambda>f. version_of f \<noteq> None) files))"
    using fs(1) by simp
  then have "distinct (map file_name fs) \<longleftrightarrow> distinct (map file_name (filter (\<lambda>f. version_of f \<noteq> None) files))"
    by (rule mset_eq_imp_distinct_iff)
  ultimately show "distinct (map migration_name ms)" using assms(2) by (simp add: distinct_map_filter)
  show "code c \<noteq> 13" if "m \<in> set ms" "c \<in> set (migration_sql m)" for m c
    using all that by (induction rule: list_all2_induct) (auto dest: read_migration_ok)
qed

end
