(* ===== verification/History_Table.thy ===== *)
theory History_Table
  imports Frames Migration_Laws
begin

text \<open>
  What the migrators need of a database that keeps the history of migrations, whichever it is, what follows for
  single commands, and the loop over the pending migrations, which both migrators run.
\<close>

section \<open>The history as the database keeps it\<close>

text \<open>
  The documented behaviour of a database on the history table: \<open>committed\<close> reads its rows as committed,
  \<open>working\<close> the rows as the open transaction sees them.  A transaction starts from the committed rows; a commit that
  succeeds makes the working rows the committed ones, and nothing else does; a command that fails changes no
  rows, though it may end the transaction.  No other process writes to the table meanwhile, and the
  statements of the migrations (\<open>scripts\<close>) leave it alone unless they control transactions.
\<close>

definition view :: "('w \<Rightarrow> (string \<rightharpoonup> string)) \<Rightarrow> ('w \<Rightarrow> (string \<rightharpoonup> string) option) \<Rightarrow> 'w \<Rightarrow> (string \<rightharpoonup> string)" where
  "view committed working w = (case working w of None \<Rightarrow> committed w | Some rows \<Rightarrow> rows)"

definition stays ::
  "('w \<Rightarrow> (string \<rightharpoonup> string)) \<Rightarrow> ('w \<Rightarrow> (string \<rightharpoonup> string) option) \<Rightarrow> 'w \<Rightarrow> 'w \<Rightarrow> bool" where
  "stays committed working w w' \<longleftrightarrow> committed w' = committed w \<and> working w' = working w"

definition commits ::
  "('w \<Rightarrow> (string \<rightharpoonup> string)) \<Rightarrow> ('w \<Rightarrow> (string \<rightharpoonup> string) option) \<Rightarrow> ('w \<Rightarrow> unit result \<times> 'w) \<Rightarrow> bool" where
  "commits committed working f \<longleftrightarrow> (\<forall>w. case f w of (r, w') \<Rightarrow>
     if succeeds r then committed w' = view committed working w \<and> working w' = None
     else committed w' = committed w \<and> working w' \<in> {None, working w})"

definition rolls_back ::
  "('w \<Rightarrow> (string \<rightharpoonup> string)) \<Rightarrow> ('w \<Rightarrow> (string \<rightharpoonup> string) option) \<Rightarrow> ('w \<Rightarrow> unit result \<times> 'w) \<Rightarrow> bool" where
  "rolls_back committed working f \<longleftrightarrow> (\<forall>w. case f w of (r, w') \<Rightarrow>
     committed w' = committed w \<and> working w' \<in> {None, working w} \<and> (succeeds r \<longrightarrow> working w' = None))"

definition begins ::
  "('w \<Rightarrow> (string \<rightharpoonup> string)) \<Rightarrow> ('w \<Rightarrow> (string \<rightharpoonup> string) option) \<Rightarrow> ('w \<Rightarrow> unit result \<times> 'w) \<Rightarrow> bool" where
  "begins committed working f \<longleftrightarrow> (\<forall>w. case f w of (r, w') \<Rightarrow> committed w' = committed w
     \<and> working w' = (if succeeds r \<and> working w = None then Some (committed w) else working w))"

text \<open>A command of a transaction that does not write the history, and one that adds a row.\<close>

definition spares ::
  "('w \<Rightarrow> (string \<rightharpoonup> string)) \<Rightarrow> ('w \<Rightarrow> (string \<rightharpoonup> string) option) \<Rightarrow> ('w \<Rightarrow> 'a result \<times> 'w) \<Rightarrow> bool" where
  "spares committed working f \<longleftrightarrow> (\<forall>w. working w \<noteq> None \<longrightarrow> (case f w of (r, w') \<Rightarrow>
     committed w' = committed w \<and> working w' \<in> {None, working w}))"

definition adds ::
  "('w \<Rightarrow> (string \<rightharpoonup> string)) \<Rightarrow> ('w \<Rightarrow> (string \<rightharpoonup> string) option) \<Rightarrow> (string \<times> string) \<Rightarrow> ('w \<Rightarrow> 'a result \<times> 'w) \<Rightarrow> bool" where
  "adds committed working row f \<longleftrightarrow> (\<forall>w rows. working w = Some rows \<longrightarrow> (case f w of (r, w') \<Rightarrow> committed w' = committed w
     \<and> (if succeeds r then working w' = Some (rows(fst row \<mapsto> snd row)) else working w' \<in> {None, Some rows})))"

definition reads ::
  "('w \<Rightarrow> (string \<rightharpoonup> string)) \<Rightarrow> ('w \<Rightarrow> (string \<rightharpoonup> string) option) \<Rightarrow> ('r \<Rightarrow> (string \<times> string) list result)
     \<Rightarrow> ('w \<Rightarrow> 'r result \<times> 'w) \<Rightarrow> bool" where
  "reads committed working parse f \<longleftrightarrow> (\<forall>w. case f w of (r, w') \<Rightarrow> stays committed working w w'
     \<and> (\<forall>rows. r = Inr rows \<longrightarrow> (\<exists>applied. parse rows = Inr applied \<and> map_of applied = view committed working w)))"

lemma map_of_dict_put: "map_of (dict_put kvs k v) = (map_of kvs)(k \<mapsto> v)"
  by (induction kvs k v rule: dict_put.induct) auto

text \<open>Each command, from a state with the committed rows \<open>R\<close> and the working rows \<open>v\<close>.\<close>

definition stands :: "('w \<Rightarrow> (string \<rightharpoonup> string)) \<Rightarrow> ('w \<Rightarrow> (string \<rightharpoonup> string) option)
    \<Rightarrow> (string \<rightharpoonup> string) \<Rightarrow> (string \<rightharpoonup> string) option \<Rightarrow> 'w \<Rightarrow> bool" where
  "stands committed working R v w \<longleftrightarrow> committed w = R \<and> working w = v"

lemma stands_stays: "stands committed working R v w \<Longrightarrow> stays committed working w w' \<Longrightarrow> stands committed working R v w'"
  by (simp add: stands_def stays_def)

lemma wp_on_exception [wp_simps]:
  "wp (on_exception m h) Q E s = wp m Q (\<lambda>e s'. if is_exception e then wp (h e) Q E s' else E e s') s"
  by (simp add: wp_def on_exception_def action_defs split: prod.splits sum.splits)

lemma succeeds_Inr: "succeeds r \<longleftrightarrow> (\<exists>x. r = Inr x)"
  by (cases r) auto

lemma command_specs:
  assumes w: "stands committed working R v w"
  shows "begins committed working f \<Longrightarrow> v = None \<Longrightarrow> wp f (\<lambda>_. stands committed working R (Some R)) (\<lambda>_. stands committed working R None) w"
    "commits committed working f \<Longrightarrow>
      wp f (\<lambda>_. stands committed working (case v of None \<Rightarrow> R | Some rows \<Rightarrow> rows) None) (\<lambda>_ w'. committed w' = R) w"
    "rolls_back committed working f \<Longrightarrow> wp f (\<lambda>_. stands committed working R None) (\<lambda>_ w'. committed w' = R) w"
    "spares committed working d \<Longrightarrow> v = Some rows \<Longrightarrow>
      wp d (\<lambda>_ w'. committed w' = R \<and> working w' \<in> {None, v}) (\<lambda>_ w'. committed w' = R) w"
    "adds committed working row k \<Longrightarrow> v = Some rows \<Longrightarrow>
      wp k (\<lambda>_. stands committed working R (Some (rows(fst row \<mapsto> snd row)))) (\<lambda>_ w'. committed w' = R) w"
    "reads committed working parse g \<Longrightarrow> wp (bind g (\<lambda>rows. pure (parse rows)))
      (\<lambda>applied w'. map_of applied = (case v of None \<Rightarrow> R | Some rows \<Rightarrow> rows) \<and> stands committed working R v w')
      (\<lambda>_. stands committed working R v) w"
    "stays committed working w (snd (h w)) \<Longrightarrow> wp h (\<lambda>_. stands committed working R v) (\<lambda>_. stands committed working R v) w"
proof -
  show "begins committed working f \<Longrightarrow> v = None \<Longrightarrow> wp f (\<lambda>_. stands committed working R (Some R)) (\<lambda>_. stands committed working R None) w"
    using w by (auto simp: wp_def stands_def begins_def split: prod.splits sum.splits)
  show "commits committed working f \<Longrightarrow>
      wp f (\<lambda>_. stands committed working (case v of None \<Rightarrow> R | Some rows \<Rightarrow> rows) None) (\<lambda>_ w'. committed w' = R) w"
    using w by (auto simp: wp_def stands_def commits_def view_def succeeds_Inr split: prod.splits sum.splits option.splits)
  show "rolls_back committed working f \<Longrightarrow> wp f (\<lambda>_. stands committed working R None) (\<lambda>_ w'. committed w' = R) w"
    using w by (auto simp: wp_def stands_def rolls_back_def succeeds_Inr split: prod.splits sum.splits)
  show "spares committed working d \<Longrightarrow> v = Some rows \<Longrightarrow>
      wp d (\<lambda>_ w'. committed w' = R \<and> working w' \<in> {None, v}) (\<lambda>_ w'. committed w' = R) w"
    by (drule spares_def [THEN iffD1, THEN spec [of _ w]])
      (use w in \<open>auto simp: wp_def stands_def split: prod.splits sum.splits\<close>)
  show "adds committed working row k \<Longrightarrow> v = Some rows \<Longrightarrow>
      wp k (\<lambda>_. stands committed working R (Some (rows(fst row \<mapsto> snd row)))) (\<lambda>_ w'. committed w' = R) w"
    using w by (auto simp: wp_def stands_def adds_def succeeds_Inr split: prod.splits sum.splits)
  show "reads committed working parse g \<Longrightarrow> wp (bind g (\<lambda>rows. pure (parse rows)))
      (\<lambda>applied w'. map_of applied = (case v of None \<Rightarrow> R | Some rows \<Rightarrow> rows) \<and> stands committed working R v w')
      (\<lambda>_. stands committed working R v) w"
    by (drule reads_def [THEN iffD1, THEN spec [of _ w]])
      (use w in \<open>auto simp: wp_def action_defs stands_def stays_def view_def split: prod.splits sum.splits\<close>)
  show "stays committed working w (snd (h w)) \<Longrightarrow> wp h (\<lambda>_. stands committed working R v) (\<lambda>_. stands committed working R v) w"
    using w by (simp add: wp_final stands_def stays_def)
qed

section \<open>The history of migrations\<close>

text \<open>The history that the migrations of \<open>past\<close> leave.\<close>

definition history :: "(string \<Rightarrow> string) \<Rightarrow> migration list \<Rightarrow> (string \<rightharpoonup> string)" where
  "history checksum past = map_of (map (record_of checksum) past)"

lemma history_snoc:
  assumes "distinct (map migration_name (past @ m # rest))"
  shows "history checksum (past @ [m]) = (history checksum past)(migration_name m \<mapsto> checksum (migration_sql m))"
    "migration_name m \<notin> dom (history checksum past)"
proof -
  show new: "migration_name m \<notin> dom (history checksum past)"
    using assms by (auto simp: history_def dom_map_of_conv_image_fst record_of_def image_image)
  then show "history checksum (past @ [m]) = (history checksum past)(migration_name m \<mapsto> checksum (migration_sql m))"
    by (auto simp: history_def fun_eq_iff map_add_def record_of_def domIff split: option.splits)
qed

text \<open>What a run's report tells of the migrations it set out to apply, and of the history it leaves.\<close>

definition tells ::
  "(string \<Rightarrow> string) \<Rightarrow> migration list \<Rightarrow> migration list \<Rightarrow> migration_result list \<Rightarrow> migration_report \<Rightarrow> (string \<rightharpoonup> string) \<Rightarrow> bool" where
  "tells checksum past todo results report rows \<longleftrightarrow>
     (report = \<lparr>report_error = None, report_results = results @ map (\<lambda>m. outcome_of m Success None) todo\<rparr>
        \<and> rows = history checksum (past @ todo))
   \<or> (\<exists>applied m later e. todo = applied @ m # later
        \<and> report = \<lparr>report_error = Some e, report_results = results @ map (\<lambda>m. outcome_of m Success None) applied
            @ [outcome_of m Error (Some e)] @ map (\<lambda>m. outcome_of m NotExecuted None) later\<rparr>
        \<and> (rows = history checksum (past @ applied) \<or> (\<not> foreign_keys m \<and> rows = history checksum (past @ applied @ [m]))))"

lemma tells_Cons:
  assumes "tells checksum (past @ [m]) todo (results @ [outcome_of m Success None]) report rows"
  shows "tells checksum past (m # todo) results report rows"
proof -
  consider "report = \<lparr>report_error = None, report_results = results @ [outcome_of m Success None] @ map (\<lambda>m. outcome_of m Success None) todo\<rparr>"
      "rows = history checksum (past @ m # todo)"
    | applied n later e where "todo = applied @ n # later"
        "report = \<lparr>report_error = Some e, report_results = results @ [outcome_of m Success None] @ map (\<lambda>m. outcome_of m Success None) applied
            @ [outcome_of n Error (Some e)] @ map (\<lambda>m. outcome_of m NotExecuted None) later\<rparr>"
        "rows = history checksum (past @ m # applied) \<or> (\<not> foreign_keys n \<and> rows = history checksum (past @ m # applied @ [n]))"
    using assms unfolding tells_def by auto
  then show ?thesis
  proof cases
    case 2
    then have "m # todo = (m # applied) @ n # later" by simp
    then show ?thesis using 2 unfolding tells_def by (intro disjI2 exI [of _ "m # applied"] exI [of _ n] exI [of _ later] exI [of _ e]) simp
  qed (simp add: tells_def)
qed

lemma tells_prefix:
  assumes "tells checksum past todo results report rows"
  shows "\<exists>k. rows = history checksum (past @ take k todo)"
  using assms unfolding tells_def
proof (elim disjE exE conjE, goal_cases)
  case 1
  then show ?case by (intro exI [of _ "length todo"]) simp
next
  case (2 applied m later e)
  then show ?case by (intro exI [of _ "length applied"]) simp
next
  case (3 applied m later e)
  then show ?case by (intro exI [of _ "Suc (length applied)"]) simp
qed

section \<open>The loop over the pending migrations\<close>

text \<open>The loop with any way to apply a migration, which is what both migrators run.\<close>

fun run_pending ::
  "(migration \<Rightarrow> ('s, bool) action) \<Rightarrow> migration_result list \<Rightarrow> migration list \<Rightarrow> ('s, migration_report) action" where
  "run_pending attempt results [] = ret \<lparr>report_error = None, report_results = results\<rparr>"
| "run_pending attempt results (m # later) =
     bind (on_exception (bind (attempt m) (\<lambda>executed. ret (Inr executed))) (\<lambda>e. ret (Inl e)))
       (\<lambda>failure. case failure of
          Inl e \<Rightarrow> ret \<lparr>report_error = Some e, report_results = results @ [outcome_of m Error (Some e)]
            @ map (\<lambda>n. outcome_of n NotExecuted None) later\<rparr>
        | Inr executed \<Rightarrow> run_pending attempt (results @ [outcome_of m (if executed then Success else NotExecuted) None]) later)"

lemma run_pending_spec:
  assumes "\<And>applied m later w. past0 @ todo0 = applied @ m # later \<Longrightarrow> m \<in> set todo0 \<Longrightarrow> stands committed working (history checksum applied) None w \<Longrightarrow>
    wp (attempt m) (\<lambda>executed w'. executed \<and> stands committed working (history checksum (applied @ [m])) None w')
      (\<lambda>_ w'. committed w' = history checksum applied \<or> (\<not> foreign_keys m \<and> committed w' = history checksum (applied @ [m]))) w"
  shows "stands committed working (history checksum past) None w \<Longrightarrow> past @ todo = past0 @ todo0 \<Longrightarrow> set todo \<subseteq> set todo0 \<Longrightarrow>
    wp (run_pending attempt results todo)
      (\<lambda>report w'. tells checksum past todo results report (committed w'))
      (\<lambda>_ w'. \<exists>k. committed w' = history checksum (past @ take k todo)) w"
proof (induction todo arbitrary: past results w)
  case Nil
  then show ?case by (simp add: wp_ret tells_def stands_def)
next
  case (Cons m later)
  let ?report = "\<lambda>e. \<lparr>report_error = Some e, report_results = results @ [outcome_of m Error (Some e)] @ map (\<lambda>n. outcome_of n NotExecuted None) later\<rparr>"
  have stopped: "tells checksum past (m # later) results (?report e) rows"
    if "rows = history checksum past \<or> (\<not> foreign_keys m \<and> rows = history checksum (past @ [m]))" for e rows
    using that unfolding tells_def by (intro disjI2 exI [of _ "[]"] exI [of _ m] exI [of _ later] exI [of _ e]) simp
  have tail: "wp (run_pending attempt (results @ [outcome_of m Success None]) later)
      (\<lambda>report w'. tells checksum past (m # later) results report (committed w'))
      (\<lambda>_ w'. \<exists>k. committed w' = history checksum (past @ take k (m # later))) w'"
    if "stands committed working (history checksum (past @ [m])) None w'" for w'
  proof (rule wp_mono [OF Cons.IH [of "past @ [m]" w', simplified append_assoc append.simps, OF that]])
    show "\<exists>k. committed s' = history checksum (past @ take k (m # later))"
      if "\<exists>k. committed s' = history checksum (past @ m # take k later)" for s'
      using that by (metis take_Suc_Cons)
  qed (use Cons.prems tells_Cons in auto)
  have start: "\<exists>k. history checksum past = history checksum (past @ take k (m # later))"
    "\<exists>k. history checksum (past @ [m]) = history checksum (past @ take k (m # later))"
    by (intro exI [of _ 0], simp) (intro exI [of _ 1], simp)
  show ?case
    unfolding run_pending.simps(2) wp_bind [of "on_exception _ _"] wp_on_exception wp_bind [of "attempt _"] wp_ret
  proof (rule wp_mono [OF assms [of past m later]])
    fix e s' assume left: "committed s' = history checksum past \<or> \<not> foreign_keys m \<and> committed s' = history checksum (past @ [m])"
    have "tells checksum past (m # later) results (?report e) (committed s')" by (rule stopped) (rule left)
    moreover have "\<exists>k. committed s' = history checksum (past @ take k (m # later))" using left start by metis
    ultimately show "if is_exception e then wp (case Inl e of
          Inl e \<Rightarrow> ret \<lparr>report_error = Some e, report_results = results @ [outcome_of m Error (Some e)]
            @ map (\<lambda>n. outcome_of n NotExecuted None) later\<rparr>
        | Inr executed \<Rightarrow> run_pending attempt
            (results @ [outcome_of m (if executed then Success else NotExecuted) None]) later)
        (\<lambda>report w'. tells checksum past (m # later) results report (committed w'))
        (\<lambda>_ w'. \<exists>k. committed w' = history checksum (past @ take k (m # later))) s'
      else \<exists>k. committed s' = history checksum (past @ take k (m # later))"
      by (simp only: sum.case wp_ret if_cancel split: if_split)
  qed (use tail Cons.prems in auto)
qed

text \<open>An Exception does not leave the loop.\<close>

lemma run_pending_raises: "wp (run_pending attempt results todo) (\<lambda>_ _. True) (\<lambda>e _. \<not> is_exception e) w"
proof (induction todo arbitrary: results w)
  case (Cons m later)
  have "wp (attempt m) (\<lambda>_ _. True) (\<lambda>_ _. True) w" for w by (simp add: wp_final)
  then show ?case
    unfolding run_pending.simps(2) wp_bind wp_on_exception by (rule wp_mono) (auto simp: wp_ret Cons.IH)
qed (simp add: wp_ret)

lemma wp_both: "wp m Q E w \<Longrightarrow> wp m Q' E' w \<Longrightarrow> wp m (\<lambda>x w'. Q x w' \<and> Q' x w') (\<lambda>e w'. E e w' \<and> E' e w') w"
  by (simp add: wp_def split: prod.splits sum.splits)

end
