(* ===== verification/Sqlite_Migrator_Laws.thy ===== *)
theory Sqlite_Migrator_Laws
  imports History_Table
begin

text \<open>
  What a run of the SQLite migrator does to the history: each of its actions from the committed and the
  working rows, then the whole run.
\<close>

section \<open>The laws of the connection\<close>

definition history_connection ::
  "'w sqlite_connection \<Rightarrow> string \<Rightarrow> string set \<Rightarrow> ('w \<Rightarrow> (string \<rightharpoonup> string)) \<Rightarrow> ('w \<Rightarrow> (string \<rightharpoonup> string) option) \<Rightarrow> bool" where
  "history_connection c table scripts committed working \<longleftrightarrow>
     (\<forall>w. transaction_open c w \<longleftrightarrow> working w \<noteq> None)
   \<and> begins committed working (run_statement c ''BEGIN IMMEDIATE'' [])
   \<and> commits committed working (run_statement c ''COMMIT'' []) \<and> commits committed working (commit_open c)
   \<and> rolls_back committed working (run_statement c ''ROLLBACK'' []) \<and> rolls_back committed working (rollback_open c)
   \<and> spares committed working (create_history_table c table)
   \<and> (\<forall>name digest. adds committed working (name, digest)
        (run_statement c (''INSERT INTO '' @ table @ '' (migration_name, checksum) VALUES (?, ?)'') [name, digest]))
   \<and> reads committed working (\<lambda>rows. history_of rows []) (fetch_rows c (''SELECT migration_name, checksum FROM '' @ table) [])
   \<and> (\<forall>pragma w. stays committed working w (snd (fetch_rows c (''PRAGMA '' @ pragma) [] w))
        \<and> stays committed working w (snd (run_statement c (''PRAGMA '' @ pragma) [] w)))
   \<and> (\<forall>statement. \<forall>w. stays committed working w (snd (fetch_rows c (''EXPLAIN '' @ statement) [] w)))
   \<and> (\<forall>statement \<in> scripts. \<forall>w w'. is_transaction_control c statement w = (Inr False, w') \<longrightarrow>
        spares committed working (run_statement c statement []))"

lemma commands:
  assumes h: "history_connection c table scripts committed working" and w: "stands committed working R v w"
  shows "v = None \<Longrightarrow> wp (run_statement c ''BEGIN IMMEDIATE'' []) (\<lambda>_. stands committed working R (Some R)) (\<lambda>_. stands committed working R None) w"
    "wp (commit_migration c) (\<lambda>_. stands committed working (case v of None \<Rightarrow> R | Some rows \<Rightarrow> rows) None) (\<lambda>_ w'. committed w' = R) w"
    "wp (rollback_migration c) (\<lambda>_. stands committed working R None) (\<lambda>_ w'. committed w' = R) w"
    "v = Some rows \<Longrightarrow> wp (create_history_table c table) (\<lambda>_ w'. committed w' = R \<and> working w' \<in> {None, v}) (\<lambda>_ w'. committed w' = R) w"
    "v = Some rows \<Longrightarrow> wp (run_statement c (''INSERT INTO '' @ table @ '' (migration_name, checksum) VALUES (?, ?)'') [name, digest])
       (\<lambda>_. stands committed working R (Some (rows(name \<mapsto> digest)))) (\<lambda>_ w'. committed w' = R) w"
    "wp (read_applied c table) (\<lambda>applied w'. map_of applied = (case v of None \<Rightarrow> R | Some rows \<Rightarrow> rows) \<and> stands committed working R v w')
       (\<lambda>_. stands committed working R v) w"
    "wp (pragma_value c pragma) (\<lambda>_. stands committed working R v) (\<lambda>_. stands committed working R v) w"
    "wp (run_statement c (''PRAGMA '' @ pragma) []) (\<lambda>_. stands committed working R v) (\<lambda>_. stands committed working R v) w"
    "wp (check_foreign_keys c m) (\<lambda>_. stands committed working R v) (\<lambda>_. stands committed working R v) w"
proof -
  note laws = h [unfolded history_connection_def]
  note specs = command_specs [OF w]
  have busy: "transaction_open c w \<longleftrightarrow> v \<noteq> None" using laws w by (simp add: stands_def)
  show "v = None \<Longrightarrow> wp (run_statement c ''BEGIN IMMEDIATE'' []) (\<lambda>_. stands committed working R (Some R)) (\<lambda>_. stands committed working R None) w"
    by (rule specs(1)) (use laws in blast)
  have "wp f (\<lambda>_. stands committed working (case v of None \<Rightarrow> R | Some rows \<Rightarrow> rows) None) (\<lambda>_ w'. committed w' = R) w"
    if "f = run_statement c ''COMMIT'' [] \<or> f = commit_open c" for f by (rule specs(2)) (use laws that in blast)
  then show "wp (commit_migration c) (\<lambda>_. stands committed working (case v of None \<Rightarrow> R | Some rows \<Rightarrow> rows) None) (\<lambda>_ w'. committed w' = R) w"
    by (simp add: commit_migration_def wp_simps)
  have "wp f (\<lambda>_. stands committed working R None) (\<lambda>_ w'. committed w' = R) w"
    if "f = run_statement c ''ROLLBACK'' [] \<or> f = rollback_open c" for f by (rule specs(3)) (use laws that in blast)
  then show "wp (rollback_migration c) (\<lambda>_. stands committed working R None) (\<lambda>_ w'. committed w' = R) w"
    using busy w by (simp add: rollback_migration_def wp_simps) (auto simp: stands_def)
  show "v = Some rows \<Longrightarrow> wp (create_history_table c table) (\<lambda>_ w'. committed w' = R \<and> working w' \<in> {None, v}) (\<lambda>_ w'. committed w' = R) w"
    by (rule specs(4)) (use laws in blast)
  have "adds committed working (name, digest)
      (run_statement c (''INSERT INTO '' @ table @ '' (migration_name, checksum) VALUES (?, ?)'') [name, digest])" using laws by blast
  from specs(5) [OF this] show "v = Some rows \<Longrightarrow> wp (run_statement c (''INSERT INTO '' @ table @ '' (migration_name, checksum) VALUES (?, ?)'') [name, digest])
       (\<lambda>_. stands committed working R (Some (rows(name \<mapsto> digest)))) (\<lambda>_ w'. committed w' = R) w"
    by (simp only: fst_conv snd_conv)
  show "wp (read_applied c table) (\<lambda>applied w'. map_of applied = (case v of None \<Rightarrow> R | Some rows \<Rightarrow> rows) \<and> stands committed working R v w')
       (\<lambda>_. stands committed working R v) w"
    unfolding read_applied_def by (rule specs(6)) (use laws in blast)
  have pragmas: "stays committed working w (snd (fetch_rows c (''PRAGMA '' @ pragma) [] w))"
    "stays committed working w (snd (run_statement c (''PRAGMA '' @ pragma) [] w))" for pragma using laws by blast+
  have "stays committed working w (snd (pragma_value c pragma w))"
    using pragmas(1) [of pragma] by (auto simp: pragma_value_def action_defs split: prod.splits sum.splits list.splits fetched.splits datum.splits)
  then show "wp (pragma_value c pragma) (\<lambda>_. stands committed working R v) (\<lambda>_. stands committed working R v) w" by (rule specs(7))
  show "wp (run_statement c (''PRAGMA '' @ pragma) []) (\<lambda>_. stands committed working R v) (\<lambda>_. stands committed working R v) w"
    by (rule specs(7)) (rule pragmas(2))
  have "stays committed working w (snd (check_foreign_keys c m w))"
    using pragmas(1) [of "''foreign_key_check''"] by (auto simp: check_foreign_keys_def action_defs split: prod.splits sum.splits)
  then show "wp (check_foreign_keys c m) (\<lambda>_. stands committed working R v) (\<lambda>_. stands committed working R v) w" by (rule specs(7))
qed

lemma statements_spec:
  assumes h: "history_connection c table scripts committed working" and w: "stands committed working R (Some V) w"
    and s: "set statements \<subseteq> scripts"
  shows "wp (run_statements c m statements) (\<lambda>_. stands committed working R (Some V)) (\<lambda>_ w'. committed w' = R) w"
  using w s
proof (induction statements arbitrary: w)
  case Nil
  then show ?case by (simp add: wp_simps)
next
  case (Cons statement rest)
  note laws = h [unfolded history_connection_def]
  have explain: "stays committed working w (snd (fetch_rows c (''EXPLAIN '' @ statement) [] w))" using laws by blast
  have w1: "stands committed working R (Some V) (snd (is_transaction_control c statement w))"
    using explain Cons.prems(1)
    by (auto simp: is_transaction_control_def action_defs stands_def stays_def split: prod.splits sum.splits)
  obtain r1 where r1: "is_transaction_control c statement w = (r1, snd (is_transaction_control c statement w))"
    by (metis prod.collapse)
  have run: "spares committed working (run_statement c statement [])" if "r1 = Inr False"
  proof -
    have "statement \<in> scripts" using Cons.prems(2) by simp
    then show ?thesis using laws r1 that by blast
  qed
  have busy: "transaction_open c w \<longleftrightarrow> working w \<noteq> None" for w using laws by blast
  have "wp (bind (run_statement c statement []) (\<lambda>_. bind (ask (transaction_open c)) (\<lambda>busy.
         if \<not> busy then raise (migration_error ''migration ended the migrator's transaction'' m) else run_statements c m rest)))
      (\<lambda>_. stands committed working R (Some V)) (\<lambda>_ w'. committed w' = R) (snd (is_transaction_control c statement w))"
    if "r1 = Inr False"
    unfolding wp_bind
  proof (rule wp_mono [where Q = "\<lambda>_ w'. committed w' = R \<and> working w' \<in> {None, Some V}" and E = "\<lambda>_ w'. committed w' = R"])
    show "wp (run_statement c statement []) (\<lambda>_ w'. committed w' = R \<and> working w' \<in> {None, Some V}) (\<lambda>_ w'. committed w' = R)
        (snd (is_transaction_control c statement w))"
      using run [OF that, unfolded spares_def, THEN spec [of _ "snd (is_transaction_control c statement w)"]] w1
      by (auto simp: wp_def stands_def split: prod.splits sum.splits)
    fix x w' assume w': "committed w' = R \<and> working w' \<in> {None, Some V}"
    show "wp (ask (transaction_open c)) (\<lambda>busy. wp (if \<not> busy then raise (migration_error ''migration ended the migrator's transaction'' m)
         else run_statements c m rest) (\<lambda>_. stands committed working R (Some V)) (\<lambda>_ w'. committed w' = R)) (\<lambda>_ w'. committed w' = R) w'"
    proof (cases "working w'")
      case None
      then show ?thesis using w' by (simp add: wp_simps busy)
    next
      case (Some rows)
      then have "stands committed working R (Some V) w'" using w' by (simp add: stands_def)
      then show ?thesis using Some Cons.IH Cons.prems(2) by (simp add: wp_simps busy)
    qed
  qed
  then show ?case
    unfolding run_statements.simps wp_bind [of "is_transaction_control c statement"] wp_def [of "is_transaction_control c statement"]
    using r1 w1 by (cases r1) (auto simp: wp_simps stands_def)
qed

lemma foreign_keys_spec:
  assumes h: "history_connection c table scripts committed working" and w: "stands committed working R v w"
  shows "wp (disable_foreign_keys c) (\<lambda>_. stands committed working R v) (\<lambda>_. stands committed working R v) w"
    "wp (enable_foreign_keys c) (\<lambda>_. stands committed working R v) (\<lambda>_. stands committed working R v) w"
proof -
  note cmd = commands [OF h]
  show "wp (disable_foreign_keys c) (\<lambda>_. stands committed working R v) (\<lambda>_. stands committed working R v) w"
    unfolding disable_foreign_keys_def wp_bind
  proof (rule wp_mono [OF cmd(7) [OF w]])
    fix n w1 assume w1: "stands committed working R v w1"
    have "wp (run_statement c ''PRAGMA foreign_keys = OFF'' []) (\<lambda>_. wp (bind (pragma_value c ''foreign_keys'')
        (\<lambda>now. if now \<noteq> 0 then raise (MigrationError ''SQLite did not turn foreign key enforcement off'' []) else ret True))
        (\<lambda>_. stands committed working R v) (\<lambda>_. stands committed working R v)) (\<lambda>_. stands committed working R v) w1"
      unfolding wp_bind
      by (rule wp_mono [OF cmd(8) [OF w1, where pragma = "''foreign_keys = OFF''", simplified]], rule wp_mono [OF cmd(7)], assumption)
        (simp_all add: wp_simps)
    then show "wp (if n \<noteq> 1 then ret False else bind (run_statement c ''PRAGMA foreign_keys = OFF'' []) (\<lambda>_.
        bind (pragma_value c ''foreign_keys'') (\<lambda>now. if now \<noteq> 0
          then raise (MigrationError ''SQLite did not turn foreign key enforcement off'' []) else ret True)))
        (\<lambda>_. stands committed working R v) (\<lambda>_. stands committed working R v) w1"
      using w1 by (cases "n = 1") (simp_all add: wp_ret wp_bind)
  qed
  show "wp (enable_foreign_keys c) (\<lambda>_. stands committed working R v) (\<lambda>_. stands committed working R v) w"
    unfolding enable_foreign_keys_def wp_bind
    by (rule wp_mono [OF cmd(8) [OF w, where pragma = "''foreign_keys = ON''", simplified]], rule wp_mono [OF cmd(7)], assumption)
      (simp_all add: wp_simps raise_if_def split: sum.splits)
qed

lemma attempt_spec:
  assumes h: "history_connection c table scripts committed working"
    and w: "stands committed working (history checksum past) None w"
    and d: "distinct (map migration_name (past @ m # rest))"
    and s: "set (split_sql_statements (complete_statement c) (migration_sql m)) \<subseteq> scripts"
  shows "wp (attempt_migration c checksum (past @ m # rest) table m)
    (\<lambda>executed w'. executed \<and> stands committed working (history checksum (past @ [m])) None w')
    (\<lambda>_ w'. committed w' = history checksum past) w"
proof -
  let ?migrations = "past @ m # rest" and ?R = "history checksum past" and ?R' = "history checksum (past @ [m])"
  let ?V = "Some ?R'"
  note cmd = commands [OF h]
  have inserted: "wp (bind (run_statement c (''INSERT INTO '' @ table @ '' (migration_name, checksum) VALUES (?, ?)'')
        [migration_name m, checksum (migration_sql m)]) (\<lambda>_.
      bind (if foreign_keys m then ret () else check_foreign_keys c m) (\<lambda>_. bind (commit_migration c) (\<lambda>_. ret True))))
    (\<lambda>executed w'. executed \<and> stands committed working ?R' None w') (\<lambda>_ w'. committed w' = ?R) w"
    if "stands committed working ?R (Some ?R) w" for w
  proof -
    have checked: "wp (if foreign_keys m then ret () else check_foreign_keys c m)
        (\<lambda>_. stands committed working ?R ?V) (\<lambda>_. stands committed working ?R ?V) w" if "stands committed working ?R ?V w" for w
      using that cmd(9) [OF that] by (simp add: wp_simps)
    show ?thesis
      unfolding wp_bind
      by (rule wp_mono [OF cmd(5) [OF that refl, of "migration_name m" "checksum (migration_sql m)", folded history_snoc(1) [OF d]]],
          rule wp_mono [OF checked], assumption, rule wp_mono [OF cmd(2)], assumption)
        (auto simp: wp_simps stands_def)
  qed
  show ?thesis
    unfolding attempt_migration_def wp_bind [of "run_statement c ''BEGIN IMMEDIATE'' []"] wp_bind [of "read_applied c table"]
  proof (rule wp_mono [OF cmd(1) [OF w refl]], rule wp_mono [OF cmd(6)], assumption)
    fix applied w2
    assume "map_of applied = (case Some ?R of None \<Rightarrow> ?R | Some rows \<Rightarrow> rows) \<and> stands committed working ?R (Some ?R) w2"
    then have a: "map_of applied = ?R" "stands committed working ?R (Some ?R) w2" by simp_all
    have p: "pending_migrations checksum ?migrations applied = Inr (m # rest)"
      using a(1) by (auto simp: pending_prefix [OF d] history_def)
    have new: "migration_name m \<notin> fst ` set applied"
      using history_snoc(2) [OF d, of checksum] unfolding a(1) [symmetric] dom_map_of_conv_image_fst .
    show "wp (bind (pure (pending_migrations checksum ?migrations applied)) (\<lambda>pending_now.
        if migration_name m \<in> fst ` set applied then bind (commit_migration c) (\<lambda>_. ret False)
        else if map migration_name (take 1 pending_now) \<noteq> [migration_name m]
        then raise (migration_error ''migration is not the next pending migration'' m)
        else bind (run_statements c m (split_sql_statements (complete_statement c) (migration_sql m))) (\<lambda>_.
          bind (run_statement c (''INSERT INTO '' @ table @ '' (migration_name, checksum) VALUES (?, ?)'')
            [migration_name m, checksum (migration_sql m)]) (\<lambda>_.
          bind (if foreign_keys m then ret () else check_foreign_keys c m) (\<lambda>_.
          bind (commit_migration c) (\<lambda>_. ret True))))))
      (\<lambda>executed w'. executed \<and> stands committed working ?R' None w') (\<lambda>_ w'. committed w' = ?R) w2"
      using new unfolding wp_bind [of "pure _"] wp_pure p
      by (simp only: sum.case if_False list.map take_Suc_Cons take_0 One_nat_def not_True_eq_False refl simp_thms
          wp_bind [of "run_statements _ _ _"])
        (rule wp_mono [OF statements_spec [OF h a(2) s]], erule inserted, assumption)
  qed (auto simp: stands_def)
qed

lemma apply_spec:
  assumes h: "history_connection c table scripts committed working"
    and w: "stands committed working (history checksum past) None w"
    and d: "distinct (map migration_name (past @ m # rest))"
    and s: "set (split_sql_statements (complete_statement c) (migration_sql m)) \<subseteq> scripts"
  shows "wp (apply_migration c checksum (past @ m # rest) table m)
    (\<lambda>executed w'. executed \<and> stands committed working (history checksum (past @ [m])) None w')
    (\<lambda>_ w'. committed w' = history checksum past \<or> (\<not> foreign_keys m \<and> committed w' = history checksum (past @ [m]))) w"
proof -
  let ?migrations = "past @ m # rest" and ?R = "history checksum past" and ?R' = "history checksum (past @ [m])"
  show ?thesis
    unfolding apply_migration_def wp_bind [of "if _ then _ else _"] wp_finally
  proof (rule wp_mono [where Q = "\<lambda>was_on w'. (foreign_keys m \<longrightarrow> \<not> was_on) \<and> stands committed working ?R None w'"
        and E = "\<lambda>_. stands committed working ?R None"])
    show "wp (if foreign_keys m then ret False else disable_foreign_keys c)
        (\<lambda>was_on w'. (foreign_keys m \<longrightarrow> \<not> was_on) \<and> stands committed working ?R None w') (\<lambda>_. stands committed working ?R None) w"
      using foreign_keys_spec(1) [OF h w] w by (simp add: wp_simps)
  next
    fix was_on w1 assume w1: "(foreign_keys m \<longrightarrow> \<not> was_on) \<and> stands committed working ?R None w1"
    let ?S = "stands committed working ?R' None"
    let ?E = "\<lambda>w'. committed w' = ?R \<or> \<not> foreign_keys m \<and> committed w' = ?R'"
    have restored: "wp (if was_on then enable_foreign_keys c else ret ()) (\<lambda>_. ?S) (\<lambda>_. ?E) w2" if "?S w2" for w2
    proof (cases was_on)
      case True
      then show ?thesis using wp_mono [OF foreign_keys_spec(2) [OF h that], of "\<lambda>_. ?S" "\<lambda>_. ?E"] w1 by (simp add: stands_def)
    qed (simp add: that wp_simps)
    have left: "wp (if was_on then enable_foreign_keys c else ret ()) (\<lambda>_. ?E) (\<lambda>_. ?E) w2" if "committed w2 = ?R" for w2
    proof (cases was_on)
      case True
      have "stands committed working ?R (working w2) w2" using that by (simp add: stands_def)
      then show ?thesis using wp_mono [OF foreign_keys_spec(2) [OF h], of ?R "working w2" w2 "\<lambda>_. ?E" "\<lambda>_. ?E"] True by (simp add: stands_def)
    qed (simp add: that wp_simps)
    have tried: "wp (on_error (attempt_migration c checksum ?migrations table m) (\<lambda>e. bind (rollback_migration c) (\<lambda>_. raise e)))
        (\<lambda>executed w'. executed \<and> ?S w') (\<lambda>_ w'. committed w' = ?R) w1"
      unfolding wp_on_error
      by (rule wp_mono [OF attempt_spec [OF h conjunct2 [OF w1] d s]])
        (auto simp: wp_bind wp_raise stands_def
          intro!: wp_mono [OF commands(3) [OF h, where R = ?R, unfolded stands_def, OF conjI, OF _ refl]])
    show "wp (on_error (attempt_migration c checksum ?migrations table m) (\<lambda>e. bind (rollback_migration c) (\<lambda>_. raise e)))
      (\<lambda>x. wp (if was_on then enable_foreign_keys c else ret ()) (\<lambda>_ w'. x \<and> ?S w') (\<lambda>_. ?E))
      (\<lambda>e. wp (if was_on then enable_foreign_keys c else ret ()) (\<lambda>_. ?E) (\<lambda>_. ?E)) w1"
      by (rule wp_mono [OF tried]) (use restored left in simp_all)
  qed (simp add: stands_def)
qed

lemma apply_pending_run:
  "apply_pending c checksum migrations table results todo = run_pending (apply_migration c checksum migrations table) results todo"
  by (induction todo arbitrary: results) (auto intro!: arg_cong [of _ _ "bind _"] split: sum.split)

lemma apply_pending_spec:
  assumes "history_connection c table scripts committed working" "stands committed working (history checksum past) None w"
    "distinct (map migration_name (past @ todo))"
    "\<forall>m \<in> set todo. set (split_sql_statements (complete_statement c) (migration_sql m)) \<subseteq> scripts"
  shows "wp (apply_pending c checksum (past @ todo) table results todo)
    (\<lambda>report w'. tells checksum past todo results report (committed w'))
    (\<lambda>_ w'. \<exists>k. committed w' = history checksum (past @ take k todo)) w"
  unfolding apply_pending_run
proof (rule run_pending_spec [OF _ assms(2) refl subset_refl])
  fix applied m later w assume "past @ todo = applied @ m # later" "m \<in> set todo" "stands committed working (history checksum applied) None w"
  then show "wp (apply_migration c checksum (past @ todo) table m)
      (\<lambda>executed w'. executed \<and> stands committed working (history checksum (applied @ [m])) None w')
      (\<lambda>_ w'. committed w' = history checksum applied \<or> (\<not> foreign_keys m \<and> committed w' = history checksum (applied @ [m]))) w"
    using apply_spec [OF assms(1), of checksum applied w m later] assms(3,4) by (simp del: map_append distinct_append)
qed

lemma start_spec:
  assumes h: "history_connection c table scripts committed working" and w: "stands committed working R None w"
  shows "wp (bind (run_statement c ''BEGIN IMMEDIATE'' []) (\<lambda>_.
      bind (create_history_table c table) (\<lambda>_.
      bind (read_applied c table) (\<lambda>applied.
      bind (pure (pending_migrations checksum migrations applied)) (\<lambda>pending.
      bind (commit_migration c) (\<lambda>_. ret (Inr (migrations, pending))))))))
    (\<lambda>start w'. \<exists>applied pending. map_of applied = R \<and> pending_migrations checksum migrations applied = Inr pending
      \<and> start = Inr (migrations, pending) \<and> stands committed working R None w')
    (\<lambda>_ w'. committed w' = R) w"
  unfolding wp_bind [of "run_statement c ''BEGIN IMMEDIATE'' []"] wp_bind [of "create_history_table c table"] wp_bind [of "read_applied c table"]
proof (rule wp_mono [OF commands(1) [OF h w refl]], rule wp_mono [OF commands(4) [OF h _ refl]], assumption)
  fix s' assume "committed s' = R \<and> working s' \<in> {None, Some R}"
  then obtain v where v: "stands committed working R v s'" "(case v of None \<Rightarrow> R | Some rows \<Rightarrow> rows) = R" by (auto simp: stands_def)
  show "wp (read_applied c table) (\<lambda>applied. wp (bind (pure (pending_migrations checksum migrations applied)) (\<lambda>pending.
        bind (commit_migration c) (\<lambda>_. ret (Inr (migrations, pending)))))
      (\<lambda>start w'. \<exists>applied pending. map_of applied = R \<and> pending_migrations checksum migrations applied = Inr pending
        \<and> start = Inr (migrations, pending) \<and> stands committed working R None w') (\<lambda>_ w'. committed w' = R)) (\<lambda>_ w'. committed w' = R) s'"
  proof (rule wp_mono [OF commands(6) [OF h v(1)]])
    fix applied s2 assume a: "map_of applied = (case v of None \<Rightarrow> R | Some rows \<Rightarrow> rows) \<and> stands committed working R v s2"
    show "wp (bind (pure (pending_migrations checksum migrations applied)) (\<lambda>pending.
        bind (commit_migration c) (\<lambda>_. ret (Inr (migrations, pending)))))
      (\<lambda>start w'. \<exists>applied pending. map_of applied = R \<and> pending_migrations checksum migrations applied = Inr pending
        \<and> start = Inr (migrations, pending) \<and> stands committed working R None w') (\<lambda>_ w'. committed w' = R) s2"
    proof (cases "pending_migrations checksum migrations applied")
      case (Inl e)
      then show ?thesis using a by (simp add: wp_simps stands_def)
    next
      case (Inr pending)
      have "map_of applied = R" using a v(2) by simp
      with Inr show ?thesis
        by (simp only: wp_bind wp_pure wp_ret sum.case)
          (rule wp_mono [OF commands(2) [OF h conjunct2 [OF a]]], use v(2) in \<open>auto simp: wp_ret\<close>)
    qed
  qed (simp add: stands_def)
qed (simp_all add: stands_def)

text \<open>A run up to the loop, and the whole run.\<close>

lemma migrate_spec:
  assumes h: "history_connection c (quote_identifier table) scripts committed working" and w: "stands committed working R None w"
    and Q: "\<And>e s'. committed s' = R \<Longrightarrow> Q \<lparr>report_error = Some e, report_results = []\<rparr> s'"
    and E: "\<And>e s'. committed s' = R \<Longrightarrow> E e s'"
    and run: "\<And>applied pending s'. map_of applied = R \<Longrightarrow> pending_migrations checksum migrations applied = Inr pending \<Longrightarrow>
      stands committed working R None s' \<Longrightarrow> wp (apply_pending c checksum migrations (quote_identifier table) [] pending) Q E s'"
  shows "wp (migrate c checksum (Inr migrations) table) Q E w"
proof -
  have rolled: "wp (bind (rollback_migration c) (\<lambda>_. ret (Inl e))) (\<lambda>start s'. start = Inl e \<and> committed s' = R) (\<lambda>_ s'. committed s' = R) s'"
    if "committed s' = R" for e s'
  proof -
    have "stands committed working R (working s') s'" using that by (simp add: stands_def)
    then show ?thesis
      unfolding wp_bind by (rule wp_mono [OF commands(3) [OF h]]) (auto simp: wp_ret stands_def)
  qed
  show ?thesis
    unfolding migrate_def Let_def wp_bind [of "on_exception _ _"] wp_on_exception wp_bind [of "pure _"] wp_pure sum.case
  proof (rule wp_mono [OF start_spec [OF h w]], goal_cases)
    case (1 start s')
    then show ?case using run by auto
  next
    case (2 e s')
    show ?case
    proof (cases "is_exception e")
      case True
      show ?thesis
        unfolding if_P [OF True] by (rule wp_mono [OF rolled [OF 2, of e]]) (use Q E in \<open>auto simp: wp_ret\<close>)
    qed (use E 2 in simp)
  qed
qed


text \<open>
  A database whose history is not that of the first migrations of the folder, one of them changed since, one
  missing or one from elsewhere, is refused: the run reports an error for the whole of it, no migration is tried,
  and the history stays what it was.
\<close>

theorem sqlite_migrator_refuses_history:
  assumes "history_connection c (quote_identifier table) scripts committed working" "working w = None"
    "distinct (map migration_name migrations)" "\<nexists>k. committed w = history checksum (take k migrations)"
  shows "case migrate c checksum (Inr migrations) table w of
      (Inr report, w') \<Rightarrow> report_results report = [] \<and> report_error report \<noteq> None \<and> committed w' = committed w
    | (Inl _, w') \<Rightarrow> committed w' = committed w"
proof -
  have "wp (migrate c checksum (Inr migrations) table)
      (\<lambda>report w'. report_results report = [] \<and> report_error report \<noteq> None \<and> committed w' = committed w)
      (\<lambda>_ w'. committed w' = committed w) w"
  proof (rule migrate_spec [OF assms(1), where R = "committed w"])
    fix applied pending s'
    assume "map_of applied = committed w" "pending_migrations checksum migrations applied = Inr pending"
    then obtain past where "migrations = past @ pending" "committed w = history checksum past"
      by (auto simp: pending_prefix [OF assms(3)] history_def)
    then have "committed w = history checksum (take (length past) migrations)" by simp
    then show "wp (apply_pending c checksum migrations (quote_identifier table) [] pending)
        (\<lambda>report w'. report_results report = [] \<and> report_error report \<noteq> None \<and> committed w' = committed w)
        (\<lambda>_ w'. committed w' = committed w) s'" using assms(4) by blast
  qed (use assms(2) in \<open>simp_all add: stands_def\<close>)
  then show ?thesis by (auto simp: wp_def split: prod.splits sum.splits)
qed

section \<open>A connection that obeys the laws\<close>

text \<open>A database of one history table: its rows, the newest first, and those of the open transaction.\<close>

type_synonym sample = "(string \<times> string) list \<times> (string \<times> string) list option"

definition sample_run :: "string \<Rightarrow> string list \<Rightarrow> sample \<Rightarrow> unit result \<times> sample" where
  "sample_run statement args w = (Inr (),
     if statement = ''BEGIN IMMEDIATE'' then (fst w, if snd w = None then Some (fst w) else snd w)
     else if statement = ''COMMIT'' then (case snd w of None \<Rightarrow> fst w | Some rows \<Rightarrow> rows, None)
     else if statement = ''ROLLBACK'' then (fst w, None)
     else (case args of [name, digest] \<Rightarrow> (fst w, map_option ((#) (name, digest)) (snd w)) | _ \<Rightarrow> w))"

definition sample_fetch :: "string \<Rightarrow> string list \<Rightarrow> sample \<Rightarrow> fetched list result \<times> sample" where
  "sample_fetch statement args w = (Inr (if take 6 statement = ''SELECT''
     then map (\<lambda>(name, digest). TupleRow [StrValue name, StrValue digest]) (rev (case snd w of None \<Rightarrow> fst w | Some rows \<Rightarrow> rows))
     else if statement = ''PRAGMA foreign_keys'' then [TupleRow [IntValue 1]] else []), w)"

definition sample_connection :: "sample sqlite_connection" where
  "sample_connection = \<lparr>run_statement = sample_run, fetch_rows = sample_fetch, commit_open = sample_run ''COMMIT'' [],
     rollback_open = sample_run ''ROLLBACK'' [], transaction_open = (\<lambda>w. snd w \<noteq> None), autocommit_of = (\<lambda>_. LegacyControl),
     complete_statement = (\<lambda>_. True)\<rparr>"

lemma history_of_sample:
  "\<exists>applied. history_of (map (\<lambda>(name, digest). TupleRow [StrValue name, StrValue digest]) (rev kvs)) acc = Inr applied
    \<and> map_of applied = map_of acc ++ map_of kvs"
proof (induction kvs arbitrary: acc rule: rev_induct)
  case (snoc kv kvs)
  obtain k v where kv: "kv = (k, v)" by (cases kv)
  have "map_of (dict_put acc k v) ++ map_of kvs = map_of acc ++ map_of (kvs @ [kv])" by (simp add: map_of_dict_put kv)
  then show ?case using snoc.IH [of "dict_put acc k v"] by (simp add: kv history_text_def and_then_def)
qed simp

definition sample_committed :: "sample \<Rightarrow> (string \<rightharpoonup> string)" where
  "sample_committed w = map_of (fst w)"

definition sample_working :: "sample \<Rightarrow> (string \<rightharpoonup> string) option" where
  "sample_working w = map_option map_of (snd w)"

lemma sample_laws:
  assumes "''COMMIT'' \<notin> scripts"
  shows "history_connection sample_connection table scripts sample_committed sample_working"
proof -
  note defs = sample_connection_def sample_run_def sample_fetch_def sample_committed_def sample_working_def
    begins_def commits_def rolls_back_def spares_def adds_def stays_def view_def
  have "\<exists>x. create_history_table sample_connection table = sample_run (newline # x) []"
    unfolding create_history_table_def sample_connection_def sqlite_connection.simps list.map concat.simps append_Cons by (rule exI) (rule refl)
  then obtain x where x: "create_history_table sample_connection table = sample_run (newline # x) []" by blast
  show ?thesis
    unfolding history_connection_def
  proof (intro conjI allI ballI impI, goal_cases)
    case (7)
    have "spares sample_committed sample_working (sample_run (newline # x) [])" by (simp add: defs newline_def)
    then show ?case by (simp only: x)
  next
    case (9)
    then show ?case
      using history_of_sample [where acc = "[]"] by (auto simp: reads_def defs split: option.splits)
  qed (use assms in \<open>auto simp: defs succeeds_def split: option.splits\<close>)
qed


theorem sqlite_migrator_refuses_history_witness:
  "case migrate sample_connection (\<lambda>s. s) (Inr [\<lparr>migration_name = ''0001_a.sql'', migration_sql = ''x'', foreign_keys = True\<rparr>])
      ''history'' ([(''0001_a.sql'', ''changed'')], None) of
    (Inr report, w') \<Rightarrow> report_results report = [] \<and> report_error report \<noteq> None
        \<and> sample_committed w' = sample_committed ([(''0001_a.sql'', ''changed'')], None)
  | (Inl _, w') \<Rightarrow> sample_committed w' = sample_committed ([(''0001_a.sql'', ''changed'')], None)"
proof (rule sqlite_migrator_refuses_history [OF sample_laws [where scripts = "{}"]])
  show "\<nexists>k. sample_committed ([(''0001_a.sql'', ''changed'')], None) = history (\<lambda>s. s)
      (take k [\<lparr>migration_name = ''0001_a.sql'', migration_sql = ''x'', foreign_keys = True\<rparr>])"
    by (auto simp: sample_committed_def history_def record_of_def take_Cons fun_eq_iff split: nat.splits)
qed (simp_all add: sample_working_def)

end
