(* ===== verification/Statements.thy ===== *)
theory Statements
  imports Migrations
begin

text \<open>
  Reading PostgreSQL scripts (\<open>relq_migrate/postgres.py\<close>): the leading keywords of a statement, the statements
  a migration may not contain, and the splitter that finds the semicolons between statements.  A position
  is kept as the text before it, reversed, and the text from there on; the splitter's variables that only one
  state reads are arguments of that state.
\<close>

section \<open>Tokens\<close>

definition identifier_character :: "char \<Rightarrow> bool" where
  "identifier_character c \<longleftrightarrow> is_alnum c \<or> c = CHR ''_'' \<or> c = CHR ''$''"

text \<open>\<open>_postgres_keyword_at\<close>: the word that starts here, as it is written.\<close>

definition word_at :: "string \<Rightarrow> string option" where
  "word_at s = (case s of [] \<Rightarrow> None
     | c # t \<Rightarrow> if is_alpha c \<or> c = CHR ''_'' then Some (c # takeWhile identifier_character t) else None)"

definition skip_block_comment :: "string \<Rightarrow> string" where
  "skip_block_comment s = snd (block_comment 1 (drop 2 s))"

text \<open>White space and comments.\<close>

function skip_filler :: "string \<Rightarrow> string" where
  "skip_filler s = (case s of [] \<Rightarrow> []
     | c # t \<Rightarrow>
         if is_space c then skip_filler t
         else if pair_at (CHR ''-'') (CHR ''-'') s then
           (case after_newline (drop 2 s) of None \<Rightarrow> [] | Some rest \<Rightarrow> skip_filler rest)
         else if pair_at (CHR ''/'') (CHR ''*'') s then skip_filler (skip_block_comment s)
         else s)"
  by pat_completeness auto

termination
proof (relation "measure length")
  show "(rest, s) \<in> measure length" if "s = c # t" "after_newline (drop 2 s) = Some rest" for s c t rest
    using that after_newline_shorter [OF that(2)] by auto
  show "(skip_block_comment s, s) \<in> measure length" if "s = c # t" for s c t
    using that block_comment_shorter [of 1 "drop 2 s"] by (auto simp: skip_block_comment_def)
qed simp_all

declare skip_filler.simps [simp del]

definition next_keyword :: "string \<Rightarrow> string option" where
  "next_keyword s = map_option to_upper (word_at (skip_filler s))"

text \<open>\<open>_read_postgres_quoted_identifier\<close>, from behind the opening quote.\<close>

fun quoted_identifier :: "string \<Rightarrow> (string \<times> string) option" where
  "quoted_identifier [] = None"
| "quoted_identifier (c # s) =
     (if c = CHR 0x22 then
        (if take 1 s = [CHR 0x22] then map_option (apfst ((#) c)) (quoted_identifier (tl s)) else Some ([], s))
      else map_option (apfst ((#) c)) (quoted_identifier s))"

fun leading_keywords :: "nat \<Rightarrow> string \<Rightarrow> string list" where
  "leading_keywords 0 s = []"
| "leading_keywords (Suc limit) s = (case skip_filler s of [] \<Rightarrow> []
     | c # t \<Rightarrow>
         if c = CHR 0x22 then (case quoted_identifier t of None \<Rightarrow> []
           | Some (word, rest) \<Rightarrow> to_upper word # leading_keywords limit rest)
         else (case word_at (c # t) of None \<Rightarrow> []
           | Some word \<Rightarrow> to_upper word # leading_keywords limit (drop (length word) (c # t))))"

definition is_transaction_control_status :: "string \<Rightarrow> bool" where
  "is_transaction_control_status status \<longleftrightarrow>
     to_upper status \<in> {''ABORT'', ''BEGIN'', ''COMMIT'', ''RELEASE'', ''ROLLBACK'', ''SAVEPOINT''}"

definition is_transaction_control_statement :: "string \<Rightarrow> bool" where
  "is_transaction_control_statement statement = (case leading_keywords 3 statement of [] \<Rightarrow> False
     | first # others \<Rightarrow>
         if first \<in> {''ABORT'', ''BEGIN'', ''COMMIT'', ''END'', ''ROLLBACK'', ''SAVEPOINT'', ''RELEASE''} then True
         else if first = ''START'' then take 1 others = [''TRANSACTION'']
         else if first = ''PREPARE'' then take 1 others = [''TRANSACTION'']
         else first = ''SET'' \<and> (take 1 others \<in> {[''CONSTRAINTS''], [''TRANSACTION'']} \<or> take 2 others = [''SESSION'', ''CHARACTERISTICS'']))"

definition is_standard_conforming_strings_statement :: "string \<Rightarrow> bool" where
  "is_standard_conforming_strings_statement statement = (case leading_keywords 3 statement of [] \<Rightarrow> False
     | first # others \<Rightarrow>
         if first = ''RESET'' then take 1 others \<in> {[''ALL''], [''STANDARD_CONFORMING_STRINGS'']}
         else if first \<noteq> ''SET'' then False
         else if take 1 others = [''STANDARD_CONFORMING_STRINGS''] then True
         else take 2 others \<in> {[''LOCAL'', ''STANDARD_CONFORMING_STRINGS''], [''SESSION'', ''STANDARD_CONFORMING_STRINGS'']})"

section \<open>The splitter\<close>

datatype mode =
    Normal
  | LineComment
  | BlockComment nat
  | SingleQuote bool
  | DoubleQuote
  | DollarQuote string

record splitter =
  buffer :: string
  mode_of :: mode
  atomic_blocks :: "string list"
  ignored_end_suffix :: "string option"

definition new_splitter :: splitter where
  "new_splitter = \<lparr>buffer = [], mode_of = Normal, atomic_blocks = [], ignored_end_suffix = None\<rparr>"

text \<open>\<open>_dollar_quote_delimiter\<close> at a dollar: the tag between the dollars of the delimiter.\<close>

definition dollar_quote_tag :: "string \<Rightarrow> string \<Rightarrow> string option" where
  "dollar_quote_tag prior s =
     (if list_ex identifier_character (take 1 prior) then None
      else if CHR ''$'' \<notin> set (tl s) then None
      else (let tag = takeWhile (\<lambda>c. c \<noteq> CHR ''$'') (tl s) in
        if tag \<noteq> [] \<and> \<not> (is_alpha (hd tag) \<or> hd tag = CHR ''_'') then None
        else if list_ex (\<lambda>c. \<not> (is_alnum c \<or> c = CHR ''_'')) tag then None
        else Some tag))"

definition delimiter :: "string \<Rightarrow> string" where
  "delimiter tag = CHR ''$'' # tag @ ''$''"

text \<open>\<open>_is_escape_string\<close> at a quote.\<close>

definition is_escape_string :: "bool \<Rightarrow> string \<Rightarrow> bool" where
  "is_escape_string standard prior \<longleftrightarrow> (if \<not> standard then True
     else case prior of [] \<Rightarrow> False
       | c # others \<Rightarrow> (c = CHR ''e'' \<or> c = CHR ''E'') \<and> \<not> list_ex identifier_character (take 1 others))"

text \<open>What a keyword in normal text does to the nesting of atomic blocks; \<open>after\<close> is the text behind it.\<close>

definition keyword_step :: "string \<Rightarrow> string \<Rightarrow> splitter \<Rightarrow> splitter" where
  "keyword_step keyword after st =
     (if ignored_end_suffix st = Some keyword then st\<lparr>ignored_end_suffix := None\<rparr>
      else if atomic_blocks st \<noteq> [] then
        (if keyword = ''BEGIN'' then st\<lparr>atomic_blocks := atomic_blocks st @ [''BEGIN'']\<rparr>
         else if keyword = ''CASE'' then st\<lparr>atomic_blocks := atomic_blocks st @ [''CASE'']\<rparr>
         else if keyword = ''END'' then st\<lparr>atomic_blocks := butlast (atomic_blocks st),
           ignored_end_suffix := (if next_keyword after \<in> Some ` {''CASE'', ''IF'', ''LOOP'', ''WHILE''} then next_keyword after
             else ignored_end_suffix st)\<rparr>
         else st)
      else if keyword = ''BEGIN'' \<and> next_keyword after = Some ''ATOMIC''
        then st\<lparr>atomic_blocks := atomic_blocks st @ [''BEGIN'']\<rparr>
      else st)"

text \<open>
  One round of the loop: how many characters it consumes, all of them into the buffer, and the state after it.
\<close>

definition scan :: "bool \<Rightarrow> string \<Rightarrow> string \<Rightarrow> splitter \<Rightarrow> nat \<times> splitter" where
  "scan standard prior s st = (let c = hd s in case mode_of st of
       Normal \<Rightarrow>
         if pair_at (CHR ''-'') (CHR ''-'') s then (2, st\<lparr>mode_of := LineComment\<rparr>)
         else if pair_at (CHR ''/'') (CHR ''*'') s then (2, st\<lparr>mode_of := BlockComment 1\<rparr>)
         else if c = CHR 0x27 then (1, st\<lparr>mode_of := SingleQuote (is_escape_string standard prior)\<rparr>)
         else if c = CHR 0x22 then (1, st\<lparr>mode_of := DoubleQuote\<rparr>)
         else (case if c = CHR ''$'' then dollar_quote_tag prior s else None of
             Some tag \<Rightarrow> (length (delimiter tag), st\<lparr>mode_of := DollarQuote tag\<rparr>)
           | None \<Rightarrow> (case word_at s of
               Some word \<Rightarrow> (length word, keyword_step (to_upper word) (drop (length word) s) st)
             | None \<Rightarrow> (1, st)))
     | LineComment \<Rightarrow> (1, if code c = 13 \<or> c = newline then st\<lparr>mode_of := Normal\<rparr> else st)
     | BlockComment depth \<Rightarrow>
         if pair_at (CHR ''/'') (CHR ''*'') s then (2, st\<lparr>mode_of := BlockComment (depth + 1)\<rparr>)
         else if pair_at (CHR ''*'') (CHR ''/'') s then
           (2, st\<lparr>mode_of := if depth - 1 = 0 then Normal else BlockComment (depth - 1)\<rparr>)
         else (1, st)
     | SingleQuote escapes \<Rightarrow>
         if c = CHR 0x5C \<and> escapes then (if tl s = [] then 1 else 2, st)
         else if c = CHR 0x27 then
           (if take 1 (tl s) = [CHR 0x27] then (2, st) else (1, st\<lparr>mode_of := Normal\<rparr>))
         else (1, st)
     | DoubleQuote \<Rightarrow>
         if c = CHR 0x22 then
           (if take 1 (tl s) = [CHR 0x22] then (2, st) else (1, st\<lparr>mode_of := Normal\<rparr>))
         else (1, st)
     | DollarQuote tag \<Rightarrow>
         if starts_with (delimiter tag) s then (length (delimiter tag), st\<lparr>mode_of := Normal\<rparr>) else (1, st))"

text \<open>The semicolon that ends a statement: the round of it was in normal text outside atomic blocks.\<close>

definition ends_statement :: "string \<Rightarrow> splitter \<Rightarrow> bool" where
  "ends_statement s st \<longleftrightarrow> mode_of st = Normal \<and> hd s = CHR '';'' \<and> atomic_blocks st = []"

definition emit :: "string \<Rightarrow> nat \<Rightarrow> (string \<times> nat) list" where
  "emit collected position = (let statement = strip collected in
     if statement \<noteq> [] \<and> \<not> is_sql_empty statement then [(statement, position)] else [])"

lemma takeWhile_found: "x \<in> set u \<Longrightarrow> length (takeWhile (\<lambda>c. c \<noteq> x) u) < length u"
  by (induction u) auto

lemma pair_at_length: "pair_at a b s \<Longrightarrow> 2 \<le> length s"
  by (auto simp: pair_at_def dest!: arg_cong [of _ _ length])

lemma scan_bounds:
  assumes "s \<noteq> []"
  shows "1 \<le> fst (scan standard prior s st)" "fst (scan standard prior s st) \<le> length s"
proof -
  have word: "1 \<le> length w \<and> length w \<le> length s" if "word_at s = Some w" for w
    using that length_takeWhile_le by (fastforce simp: word_at_def split: list.splits if_splits)
  have tag: "length (delimiter t) \<le> length s" if "dollar_quote_tag prior s = Some t" for t
  proof -
    from that have t: "t = takeWhile (\<lambda>c. c \<noteq> CHR ''$'') (tl s)" "CHR ''$'' \<in> set (tl s)"
      by (auto simp: dollar_quote_tag_def Let_def split: if_splits)
    from t(2) have "length t < length (tl s)" unfolding t(1) by (rule takeWhile_found)
    then show ?thesis by (cases s) (auto simp: delimiter_def)
  qed
  have start: "length (delimiter t) \<le> length s" if "starts_with (delimiter t) s" for t
    using that by (auto simp: starts_with_iff)
  have d: "1 \<le> length (delimiter t)" for t by (simp add: delimiter_def)
  have s: "1 \<le> length s" using assms by (cases s) auto
  have two: "take 1 (tl s) = [x] \<Longrightarrow> 2 \<le> length s" "tl s \<noteq> [] \<Longrightarrow> 2 \<le> length s" for x
    by (cases s; cases "tl s"; simp)+
  show "1 \<le> fst (scan standard prior s st)" "fst (scan standard prior s st) \<le> length s"
    using s word tag start d two pair_at_length
    by (auto simp: scan_def Let_def split: mode.splits option.splits)
qed

function statements :: "bool \<Rightarrow> string \<Rightarrow> string \<Rightarrow> splitter \<Rightarrow> (string \<times> nat) list" where
  "statements standard prior s st = (if s = [] then emit (buffer st) (length prior)
     else (case scan standard prior s st of (n, st') \<Rightarrow>
       let collected = buffer st @ take n s; behind = rev (take n s) @ prior in
       if ends_statement s st
       then emit collected (length behind) @ statements standard behind (drop n s) (st'\<lparr>buffer := []\<rparr>)
       else statements standard behind (drop n s) (st'\<lparr>buffer := collected\<rparr>)))"
  by pat_completeness auto

termination
proof (relation "measure (\<lambda>(_, _, s, _). length s)")
  show "((standard, behind, drop n s, st''), (standard, prior, s, st)) \<in> measure (\<lambda>(_, _, s, _). length s)"
    if "s \<noteq> []" "(n, st') = scan standard prior s st" for standard behind n s st'' prior st st'
    using scan_bounds(1) [OF that(1), of standard prior st] that(1) unfolding that(2) [symmetric] by (cases s) auto
  show "((standard, behind, drop n s, st''), (standard, prior, s, st)) \<in> measure (\<lambda>(_, _, s, _). length s)"
    if "s \<noteq> []" "(n, st') = scan standard prior s st" for standard behind n s st'' prior st st'
    using scan_bounds(1) [OF that(1), of standard prior st] that(1) unfolding that(2) [symmetric] by (cases s) auto
qed simp

declare statements.simps [simp del]

definition iter_postgres_statements :: "bool \<Rightarrow> string \<Rightarrow> (string \<times> nat) list" where
  "iter_postgres_statements standard script = statements standard [] script new_splitter"

definition split_postgres_statements :: "bool \<Rightarrow> string \<Rightarrow> string list" where
  "split_postgres_statements standard script = map fst (iter_postgres_statements standard script)"

text \<open>A statement ends behind where it began, so that reading the next one from there comes to an end.\<close>

lemma emit_position: "(x, e) \<in> set (emit p n) \<Longrightarrow> e = n \<and> p \<noteq> []"
  by (auto simp: emit_def Let_def strip_def split: if_splits)

lemma statements_positions:
  assumes "(x, e) \<in> set (statements standard prior s st)" "prior \<noteq> [] \<or> buffer st = []"
  shows "0 < e"
  using assms
proof (induction standard prior s st rule: statements.induct)
  case (1 standard prior s st)
  show ?case
  proof (cases "s = []")
    case True
    then show ?thesis using "1.prems" emit_position by (fastforce simp: statements.simps [of _ _ "[]"])
  next
    case False
    obtain n st' where sc: "scan standard prior s st = (n, st')" by (cases "scan standard prior s st")
    have "1 \<le> n" using scan_bounds(1) [OF False, of standard prior st] sc by simp
    then have behind: "rev (take n s) @ prior \<noteq> []" using False by auto
    show ?thesis
    proof (cases "ends_statement s st")
      case True
      then consider "(x, e) \<in> set (emit (buffer st @ take n s) (length (rev (take n s) @ prior)))"
        | "(x, e) \<in> set (statements standard (rev (take n s) @ prior) (drop n s) (st'\<lparr>buffer := []\<rparr>))"
        using "1.prems"(1) by (auto simp: statements.simps [of standard prior s] False sc)
      then show ?thesis
      proof cases
        case 1
        then show ?thesis using emit_position behind by blast
      next
        case 2
        then show ?thesis by (rule "1.IH"(1) [OF False sc [symmetric] refl refl True]) (use behind in simp)
      qed
    next
      case ends: False
      have "(x, e) \<in> set (statements standard (rev (take n s) @ prior) (drop n s) (st'\<lparr>buffer := buffer st @ take n s\<rparr>))"
        using "1.prems"(1) by (simp add: statements.simps [of standard prior s] False sc ends)
      then show ?thesis by (rule "1.IH"(2) [OF False sc [symmetric] refl refl ends]) (use behind in simp)
    qed
  qed
qed

lemma first_statement_consumes: "iter_postgres_statements standard s = (x, e) # ys \<Longrightarrow> 0 < e"
  using statements_positions [of x e standard "[]" s new_splitter] by (simp add: iter_postgres_statements_def new_splitter_def)

end
