(* ===== verification/Postgres_Migrator.thy ===== *)
theory Postgres_Migrator
  imports Statements Sqlite_Migrator "HOL-Library.Word"
begin

unbundle bit_operations_syntax

text \<open>
  The PostgreSQL migrator (\<open>relq_migrate/postgres.py\<close>).  What it awaits runs to its end before the next step: no
  other task of the process touches the connection meanwhile.  The fields of \<open>pg_connection\<close> are what it uses of
  asyncpg; \<open>acquire\<close> and \<open>release\<close> are those of a pool.  Warnings of the logger are left out.
\<close>

section \<open>The connection\<close>

record 'w pg_connection =
  pg_execute :: "string \<Rightarrow> datum list \<Rightarrow> 'w \<Rightarrow> string result \<times> 'w"
  pg_fetchval :: "string \<Rightarrow> datum list \<Rightarrow> 'w \<Rightarrow> datum result \<times> 'w"
  pg_fetch :: "string \<Rightarrow> 'w \<Rightarrow> (string \<times> datum) list list result \<times> 'w"
  in_transaction :: "'w \<Rightarrow> bool"
  enter_transaction :: "'w \<Rightarrow> unit result \<times> 'w"
  leave_transaction :: "exn option \<Rightarrow> 'w \<Rightarrow> unit result \<times> 'w"
  physical_connection :: nat

datatype 'w pg_handle =
    DirectHandle "'w pg_connection"
  | PoolHandle (acquire: "'w \<Rightarrow> 'w pg_connection result \<times> 'w") (release: "'w pg_connection \<Rightarrow> 'w \<Rightarrow> unit result \<times> 'w")

text \<open>The state of a run: the server as the connection sees it, and the cache of schemas by physical connection.\<close>

record 'w session =
  server :: 'w
  schemas :: "nat \<Rightarrow> (string \<rightharpoonup> string)"

definition on_server :: "('w \<Rightarrow> 'a result \<times> 'w) \<Rightarrow> ('w session, 'a) action" where
  "on_server f = (\<lambda>s. case f (server s) of (r, w) \<Rightarrow> (r, s\<lparr>server := w\<rparr>))"

section \<open>The history table\<close>

text \<open>The UTF-8 encoding, and CRC-32 as \<open>zlib.crc32\<close> computes it.\<close>

definition utf8 :: "string \<Rightarrow> nat list" where
  "utf8 s = concat (map (\<lambda>c. if code c < 128 then [code c] else [192 + code c div 64, 128 + code c mod 64]) s)"

definition crc_bit :: "32 word \<Rightarrow> 32 word" where
  "crc_bit r = (if r AND 1 = 1 then drop_bit 1 r XOR 0xEDB88320 else drop_bit 1 r)"

definition crc_byte :: "32 word \<Rightarrow> nat \<Rightarrow> 32 word" where
  "crc_byte r b = (crc_bit ^^ 8) (r XOR of_nat b)"

definition crc32 :: "nat list \<Rightarrow> 32 word" where
  "crc32 bytes = foldl crc_byte 0xFFFFFFFF bytes XOR 0xFFFFFFFF"

definition lock_namespace :: int where
  "lock_namespace = 0x52454C51"

definition advisory_lock_key :: "string \<Rightarrow> int" where
  "advisory_lock_key identity = push_bit 32 lock_namespace OR uint (crc32 (utf8 identity))"

definition quote_database_identifier :: "string \<Rightarrow> string" where
  "quote_database_identifier identifier =
     CHR 0x22 # concat (map (\<lambda>c. if c = CHR 0x22 then [c, c] else [c]) identifier) @ [CHR 0x22]"

definition qualified_history_table :: "string \<Rightarrow> string \<Rightarrow> string" where
  "qualified_history_table schema table = quote_database_identifier schema @ ''.'' @ quote_identifier table"

text \<open>Lines of SQL, each behind a newline.\<close>

definition sql_lines :: "string list \<Rightarrow> string" where
  "sql_lines ls = concat (map (\<lambda>line. newline # line) ls)"

definition schema_query :: string where
  "schema_query = sql_lines
     [''        SELECT COALESCE('',
      ''            ('',
      ''                SELECT namespace.nspname'',
      ''                FROM pg_catalog.pg_class AS relation'',
      ''                JOIN pg_catalog.pg_namespace AS namespace'',
      ''                  ON namespace.oid = relation.relnamespace'',
      ''                WHERE relation.oid = pg_catalog.to_regclass($1)'',
      ''            ),'',
      ''            pg_catalog.current_schema()'',
      ''        )'',
      ''            '']"

text \<open>\<open>_history_table_reference\<close>: the qualified table and its schema.\<close>

definition history_table_reference :: "'w pg_connection \<Rightarrow> string \<Rightarrow> ('w session, string \<times> string) action" where
  "history_table_reference c table = (let physical = physical_connection c in
     bind (ask (\<lambda>s. schemas s physical table)) (\<lambda>cached.
     bind (case cached of
         Some schema \<Rightarrow> ret schema
       | None \<Rightarrow> bind (on_server (pg_fetchval c schema_query [StrValue (quote_identifier table)])) (\<lambda>resolved.
           case resolved of
             StrValue schema \<Rightarrow> bind (act (\<lambda>s. s\<lparr>schemas := (schemas s)(physical := (schemas s physical)(table \<mapsto> schema))\<rparr>))
               (\<lambda>_. ret schema)
           | _ \<Rightarrow> raise (MigrationError ''PostgreSQL did not return a schema for the migration history'' [])))
       (\<lambda>schema. ret (qualified_history_table schema table, schema))))"

text \<open>A column of a record, and \<open>_read_history\<close>.\<close>

definition column :: "string \<Rightarrow> (string \<times> datum) list \<Rightarrow> datum result" where
  "column name row = (case map_of row name of None \<Rightarrow> Inl (External True (''KeyError: '' @ name)) | Some v \<Rightarrow> Inr v)"

fun applied_of :: "(string \<times> datum) list list \<Rightarrow> (string \<times> string) list \<Rightarrow> (string \<times> string) list result" where
  "applied_of [] applied = Inr applied"
| "applied_of (row # rows) applied = and_then (column ''migration_name'' row) (\<lambda>name. and_then (column ''checksum'' row) (\<lambda>digest.
     case (name, digest) of
       (StrValue n, StrValue d) \<Rightarrow> applied_of rows (dict_put applied n d)
     | _ \<Rightarrow> Inl (MigrationError ''migration history contains a malformed row; migration_name and checksum must be text'' [])))"

definition read_history :: "'w pg_connection \<Rightarrow> string \<Rightarrow> ('w session, (string \<times> string) list) action" where
  "read_history c table = bind (on_server (pg_fetch c (''SELECT migration_name, checksum FROM '' @ table)))
     (\<lambda>rows. pure (applied_of rows []))"

definition standard_conforming_strings :: "'w pg_connection \<Rightarrow> ('w session, bool) action" where
  "standard_conforming_strings c = bind (on_server (pg_fetchval c ''SHOW standard_conforming_strings'' [])) (\<lambda>setting.
     if setting \<in> {StrValue ''on'', StrValue ''off''} then ret (setting = StrValue ''on'')
     else raise (MigrationError ''PostgreSQL returned an invalid standard_conforming_strings setting'' []))"

definition create_pg_history :: "string \<Rightarrow> string" where
  "create_pg_history table = sql_lines
     [''                CREATE TABLE IF NOT EXISTS '' @ table @ '' ('',
      ''                    migration_name text PRIMARY KEY,'',
      ''                    checksum text NOT NULL,'',
      ''                    applied_at timestamptz NOT NULL DEFAULT now()'',
      ''                )'',
      ''                '']"

section \<open>One migration\<close>

text \<open>A round of the loop over the statements of a script, from the statement on.\<close>

definition run_pg_statement :: "'w pg_connection \<Rightarrow> migration \<Rightarrow> datum \<Rightarrow> bool \<Rightarrow> string \<Rightarrow> ('w session, unit) action" where
  "run_pg_statement c m transaction_id standard statement =
     (if is_transaction_control_statement statement then raise (migration_error ''migration contains transaction-control SQL'' m)
      else if is_standard_conforming_strings_statement statement
      then raise (migration_error ''migration changes standard_conforming_strings, which is unsupported'' m)
      else bind (on_server (pg_execute c statement [])) (\<lambda>status.
        if is_transaction_control_status status then raise (migration_error ''migration contains transaction-control SQL'' m)
        else bind (ask (\<lambda>s. in_transaction c (server s))) (\<lambda>busy.
        if \<not> busy then raise (migration_error ''migration ended the migrator's transaction'' m)
        else bind (on_server (pg_fetchval c ''SELECT txid_current()'' [])) (\<lambda>current.
        if current \<noteq> transaction_id then raise (migration_error ''migration replaced the migrator's transaction'' m)
        else bind (standard_conforming_strings c) (\<lambda>now.
        pure (raise_if (now \<noteq> standard) (migration_error ''migration changes standard_conforming_strings, which is unsupported'' m)))))))"

function run_script :: "'w pg_connection \<Rightarrow> migration \<Rightarrow> datum \<Rightarrow> string \<Rightarrow> ('w session, unit) action" where
  "run_script c m transaction_id remaining = (if remaining = [] then ret ()
     else bind (standard_conforming_strings c) (\<lambda>standard.
       case iter_postgres_statements standard remaining of
         [] \<Rightarrow> ret ()
       | (statement, consumed) # _ \<Rightarrow> bind (run_pg_statement c m transaction_id standard statement)
           (\<lambda>_. run_script c m transaction_id (drop consumed remaining))))"
  by pat_completeness auto

termination
proof (relation "measure (\<lambda>(_, _, _, remaining). length remaining)")
  fix c :: "'w pg_connection" and m :: migration and transaction_id :: datum and remaining :: string and standard p ps statement consumed
  assume "remaining \<noteq> []" "iter_postgres_statements standard remaining = p # ps" "(statement, consumed) = p"
  then show "((c, m, transaction_id, drop consumed remaining), (c, m, transaction_id, remaining))
      \<in> measure (\<lambda>(_, _, _, remaining). length remaining)"
    using first_statement_consumes by (cases remaining) auto
qed simp

declare run_script.simps [simp del]

text \<open>\<open>async with connection.transaction()\<close>: leaving it commits without an exception and rolls back with one.\<close>

definition with_pg_transaction :: "'w pg_connection \<Rightarrow> ('w session, 'a) action \<Rightarrow> ('w session, 'a) action" where
  "with_pg_transaction c body = bind (on_server (enter_transaction c)) (\<lambda>_.
     try_else body (\<lambda>e. bind (on_server (leave_transaction c (Some e))) (\<lambda>_. raise e))
       (\<lambda>x. bind (on_server (leave_transaction c None)) (\<lambda>_. ret x)))"

definition apply_pg_migration ::
  "'w pg_connection \<Rightarrow> (string \<Rightarrow> string) \<Rightarrow> string \<Rightarrow> migration \<Rightarrow> ('w session, unit) action" where
  "apply_pg_migration c checksum table m = with_pg_transaction c
     (bind (on_server (pg_fetchval c ''SELECT txid_current()'' [])) (\<lambda>transaction_id.
      bind (run_script c m transaction_id (migration_sql m)) (\<lambda>_.
      bind (on_server (pg_execute c (''INSERT INTO '' @ table @ '' (migration_name, checksum) VALUES ($1, $2)'')
        [StrValue (migration_name m), StrValue (checksum (migration_sql m))])) (\<lambda>_. ret ()))))"

section \<open>The migrator\<close>

fun apply_pg_pending ::
  "'w pg_connection \<Rightarrow> (string \<Rightarrow> string) \<Rightarrow> string \<Rightarrow> migration_result list \<Rightarrow> migration list \<Rightarrow> ('w session, migration_report) action" where
  "apply_pg_pending c checksum table results [] = ret \<lparr>report_error = None, report_results = results\<rparr>"
| "apply_pg_pending c checksum table results (m # later) =
     bind (on_exception (bind (apply_pg_migration c checksum table m) (\<lambda>_. ret None)) (\<lambda>e. ret (Some e)))
       (\<lambda>failure. case failure of
          Some e \<Rightarrow> ret \<lparr>report_error = Some e, report_results = results @ [outcome_of m Error (Some e)]
            @ map (\<lambda>n. outcome_of n NotExecuted None) later\<rparr>
        | None \<Rightarrow> apply_pg_pending c checksum table (results @ [outcome_of m Success None]) later)"

text \<open>\<open>_migrate_connection\<close> up to the lock, and from there on.\<close>

definition take_lock :: "'w pg_connection \<Rightarrow> migration list result \<Rightarrow> string \<Rightarrow> ('w session, migration list \<times> string \<times> int) action" where
  "take_lock c provider history_name =
     bind (pure provider) (\<lambda>migrations.
     bind (history_table_reference c history_name) (\<lambda>(table, schema).
     let key = advisory_lock_key (schema @ ''.'' @ history_name) in
     bind (on_server (pg_execute c ''SELECT pg_advisory_lock($1)'' [IntValue key])) (\<lambda>_. ret (migrations, table, key))))"

definition migrate_locked :: "'w pg_connection \<Rightarrow> (string \<Rightarrow> string) \<Rightarrow> migration list \<Rightarrow> string \<Rightarrow> ('w session, migration_report) action" where
  "migrate_locked c checksum migrations table =
     bind (on_server (pg_execute c (create_pg_history table) [])) (\<lambda>_.
     bind (read_history c table) (\<lambda>applied.
     bind (pure (pending_migrations checksum migrations applied)) (\<lambda>pending.
     bind (pure (checks (map (\<lambda>m. raise_if (\<not> foreign_keys m)
       (migration_error ''migration asks for foreign_keys = off, which only SQLiteMigrator supports'' m)) pending))) (\<lambda>_.
     apply_pg_pending c checksum table [] pending))))"

definition failed_report :: "exn \<Rightarrow> migration_report" where
  "failed_report e = \<lparr>report_error = Some e, report_results = []\<rparr>"

definition migrate_connection ::
  "'w pg_connection \<Rightarrow> (string \<Rightarrow> string) \<Rightarrow> migration list result \<Rightarrow> string \<Rightarrow> ('w session, migration_report) action" where
  "migrate_connection c checksum provider history_name = bind (ask (\<lambda>s. in_transaction c (server s))) (\<lambda>busy.
     if busy then raise (RuntimeError ''PostgresMigrator requires a connection outside a caller-owned transaction'' [])
     else bind (on_exception (bind (take_lock c provider history_name) (\<lambda>lock. ret (Inr lock))) (\<lambda>e. ret (Inl e)))
       (\<lambda>start. case start of
          Inl e \<Rightarrow> ret (failed_report e)
        | Inr (migrations, table, key) \<Rightarrow> finally_do
            (on_exception (migrate_locked c checksum migrations table) (\<lambda>e. ret (failed_report e)))
            (on_exception (bind (on_server (pg_execute c ''SELECT pg_advisory_unlock($1)'' [IntValue key])) (\<lambda>_. ret ()))
              (\<lambda>_. ret ()))))"

definition pending_on :: "'w pg_connection \<Rightarrow> (string \<Rightarrow> string) \<Rightarrow> migration list result \<Rightarrow> string \<Rightarrow> ('w session, string list) action" where
  "pending_on c checksum provider history_name =
     bind (pure provider) (\<lambda>migrations.
     bind (history_table_reference c history_name) (\<lambda>(table, _).
     bind (on_server (pg_fetchval c ''SELECT pg_catalog.to_regclass($1)'' [StrValue table])) (\<lambda>found.
     bind (if found \<noteq> NoneValue then read_history c table else ret []) (\<lambda>applied.
     bind (pure (pending_migrations checksum migrations applied)) (\<lambda>pending. ret (map migration_name pending))))))"

text \<open>The public methods, on a connection or with one from the pool, which goes back to it in any case.\<close>

definition with_handle :: "'w pg_handle \<Rightarrow> ('w pg_connection \<Rightarrow> ('w session, 'a) action) \<Rightarrow> ('w session, 'a) action" where
  "with_handle handle body = (case handle of
       DirectHandle c \<Rightarrow> body c
     | PoolHandle take_one give_back \<Rightarrow> bind (on_server take_one) (\<lambda>c. finally_do (body c) (on_server (give_back c))))"

definition postgres_migrate ::
  "'w pg_handle \<Rightarrow> (string \<Rightarrow> string) \<Rightarrow> migration list result \<Rightarrow> string \<Rightarrow> ('w session, migration_report) action" where
  "postgres_migrate handle checksum provider history_name =
     with_handle handle (\<lambda>c. migrate_connection c checksum provider history_name)"

definition postgres_pending ::
  "'w pg_handle \<Rightarrow> (string \<Rightarrow> string) \<Rightarrow> migration list result \<Rightarrow> string \<Rightarrow> ('w session, string list) action" where
  "postgres_pending handle checksum provider history_name = with_handle handle (\<lambda>c. pending_on c checksum provider history_name)"

definition new_postgres_migrator :: "string \<Rightarrow> string result" where
  "new_postgres_migrator history_name = validate_identifier history_name ''PostgreSQL history table'' (Some 63)"

end
