(* ===== verification/Statement_Laws.thy ===== *)
theory Statement_Laws
  imports Statements
begin

text \<open>
  What the PostgreSQL splitter guarantees: nothing of a script is lost, and reading it one statement at a time,
  as the migrator does, is reading it once.
\<close>

section \<open>Nothing of a script is lost\<close>

fun emitted_at :: "nat \<Rightarrow> string list \<Rightarrow> (string \<times> nat) list" where
  "emitted_at n [] = []"
| "emitted_at n (p # ps) = emit p (n + length p) @ emitted_at (n + length p) ps"

lemma scan_keeps: "buffer (snd (scan standard prior s st)) = buffer st"
  by (simp add: scan_def Let_def keyword_step_def split: mode.splits option.splits)

lemma scan_semicolon:
  assumes "s \<noteq> []" "ends_statement s st"
  shows "scan standard prior s st = (1, st)" "take 1 s = [CHR '';'']"
proof -
  obtain t where s: "s = CHR '';'' # t" using assms by (cases s) (auto simp: ends_statement_def)
  then show "take 1 s = [CHR '';'']" by simp
  have "\<not> pair_at (CHR ''-'') (CHR ''-'') s" "\<not> pair_at (CHR ''/'') (CHR ''*'') s" "word_at s = None"
    by (auto simp: s pair_at_def word_at_def is_alpha_def code_def)
  then show "scan standard prior s st = (1, st)"
    using assms(2) by (simp add: ends_statement_def scan_def)
qed

lemma statements_pieces:
  assumes "prior = rev (buffer st) @ outside"
  shows "\<exists>pieces. concat pieces = buffer st @ s \<and> statements standard prior s st = emitted_at (length outside) pieces
    \<and> (\<forall>p \<in> set (butlast pieces). p \<noteq> [] \<and> last p = CHR '';'') \<and> pieces \<noteq> []"
  using assms
proof (induction standard prior s st arbitrary: outside rule: statements.induct)
  case (1 standard prior s st)
  show ?case
  proof (cases "s = []")
    case True
    then show ?thesis using "1.prems"
      by (intro exI [of _ "[buffer st]"]) (simp add: statements.simps [of _ _ "[]"] add.commute)
  next
    case False
    obtain n st' where sc: "scan standard prior s st = (n, st')" by (cases "scan standard prior s st")
    let ?collected = "buffer st @ take n s" and ?behind = "rev (take n s) @ prior"
    have behind: "?behind = rev ?collected @ outside" using "1.prems" by simp
    have n: "1 \<le> n" "n \<le> length s" using scan_bounds [OF False, of standard prior st] sc by simp_all
    show ?thesis
    proof (cases "ends_statement s st")
      case True
      from "1.IH"(1) [OF False sc [symmetric] refl refl True, of ?behind]
      obtain pieces where p: "concat pieces = drop n s"
          "statements standard ?behind (drop n s) (st'\<lparr>buffer := []\<rparr>) = emitted_at (length ?behind) pieces"
          "\<forall>p \<in> set (butlast pieces). p \<noteq> [] \<and> last p = CHR '';''" "pieces \<noteq> []" by auto
      have "take n s = [CHR '';'']" using scan_semicolon(1) [OF False True, of standard prior] scan_semicolon(2) [OF False True] sc by simp
      then have "concat (?collected # pieces) = buffer st @ s" using p(1) append_take_drop_id [of n s] by simp
      moreover have len: "length ?behind = length outside + length ?collected" using behind by (metis add.commute length_append length_rev)
      have "statements standard prior s st = emit ?collected (length ?behind) @ statements standard ?behind (drop n s) (st'\<lparr>buffer := []\<rparr>)"
        using True by (simp add: statements.simps [of standard prior s] False sc)
      then have "statements standard prior s st = emitted_at (length outside) (?collected # pieces)"
        unfolding p(2) len emitted_at.simps .
      ultimately show ?thesis using p(3,4) \<open>take n s = '';''\<close> by (intro exI [of _ "?collected # pieces"]) simp
    next
      case ends: False
      have "buffer st' = buffer st" using scan_keeps [of standard prior s st] sc by simp
      from "1.IH"(2) [OF False sc [symmetric] refl refl ends, of outside]
      obtain pieces where "concat pieces = buffer st @ s"
          "statements standard ?behind (drop n s) (st'\<lparr>buffer := ?collected\<rparr>) = emitted_at (length outside) pieces"
          "\<forall>p \<in> set (butlast pieces). p \<noteq> [] \<and> last p = CHR '';''" "pieces \<noteq> []" using behind by auto
      then show ?thesis
        by (intro exI [of _ pieces]) (simp add: statements.simps [of standard prior s] False sc ends Let_def)
    qed
  qed
qed



section \<open>The state between statements\<close>

text \<open>No character of one kind is one of another.\<close>

lemma alpha_not_space: "is_alpha c \<or> c = CHR ''_'' \<Longrightarrow> \<not> is_space c \<and> c \<noteq> CHR ''-'' \<and> c \<noteq> CHR ''/'' \<and> c \<noteq> CHR '';''"
  by (auto simp: is_alpha_def is_space_def code_def)

lemma not_filler:
  assumes "s = c # t" "\<not> is_space c" "\<not> pair_at (CHR ''-'') (CHR ''-'') s" "\<not> pair_at (CHR ''/'') (CHR ''*'') s"
  shows "skip_filler s = s" "next_keyword s = map_option to_upper (word_at s)"
  using assms by (simp_all add: next_keyword_def skip_filler.simps [of "c # t"])

lemma next_keyword_word: "word_at s = Some w \<Longrightarrow> next_keyword s = Some (to_upper w)"
proof -
  assume w: "word_at s = Some w"
  then obtain c t where s: "s = c # t" "is_alpha c \<or> c = CHR ''_''" by (auto simp: word_at_def split: list.splits if_splits)
  then have "skip_filler s = s" using alpha_not_space [OF s(2)] by (intro not_filler) (auto simp: pair_at_def)
  then show ?thesis using w by (simp add: next_keyword_def)
qed

text \<open>
  A keyword that is to be ignored is the next token, also from within a comment, when lines end in newlines.
\<close>

definition expects :: "string \<Rightarrow> splitter \<Rightarrow> bool" where
  "expects s st \<longleftrightarrow> mode_of st \<noteq> BlockComment 0 \<and> (\<forall>keyword. ignored_end_suffix st = Some keyword \<longrightarrow> (case mode_of st of
       Normal \<Rightarrow> next_keyword s = Some keyword
     | LineComment \<Rightarrow> Option.bind (after_newline s) next_keyword = Some keyword
     | BlockComment depth \<Rightarrow> next_keyword (snd (block_comment depth s)) = Some keyword
     | _ \<Rightarrow> False))"

lemma expects_keyword:
  assumes "word_at s = Some w" "expects s st" "mode_of st = Normal"
  shows "expects after (keyword_step (to_upper w) after st)"
  using assms next_keyword_word [OF assms(1)] by (auto simp: expects_def keyword_step_def)

lemma expects_scan:
  assumes e: "expects s st" and s: "s \<noteq> []" and clean: "\<And>c. c \<in> set s \<Longrightarrow> code c \<noteq> 13" and sc: "scan standard prior s st = (n, st')"
  shows "expects (drop n s) st'"
proof -
  obtain c t where ct: "s = c # t" using s by (cases s) auto
  have cr: "code c \<noteq> 13" using clean ct by simp
  show ?thesis
  proof (cases "mode_of st")
    case LineComment
    then show ?thesis using e sc ct cr by (auto simp: expects_def scan_def split: if_splits)
  next
    case (BlockComment d)
    then obtain d' where d': "d = Suc d'" using e by (cases d) (auto simp: expects_def)
    have "drop 2 s = tl t" using ct by (cases t) simp_all
    then show ?thesis using e sc ct BlockComment d'
      by (auto simp: expects_def scan_def Let_def numeral_2_eq_2 drop_Suc split: if_splits)
  next
    case Normal
    show ?thesis
    proof (cases "word_at s")
      case (Some w)
      then have "is_alpha c \<or> c = CHR ''_''" using ct by (auto simp: word_at_def split: if_splits)
      then have c: "c \<noteq> CHR ''-''" "c \<noteq> CHR ''/''" "c \<noteq> CHR 0x27" "c \<noteq> CHR 0x22" "c \<noteq> CHR ''$''"
        by (auto simp: is_alpha_def code_def)
      then have "st' = keyword_step (to_upper w) (drop n s) st"
        using sc Normal Some ct by (auto simp: scan_def Let_def pair_at_def)
      then show ?thesis using expects_keyword [OF Some e Normal] by simp
    next
      case None
      have plain: "expects (drop n s) st'" if "\<not> pair_at (CHR ''-'') (CHR ''-'') s" "\<not> pair_at (CHR ''/'') (CHR ''*'') s" "is_space c"
      proof -
        have "c \<noteq> CHR 0x27" "c \<noteq> CHR 0x22" "c \<noteq> CHR ''$''" using that(3) by (auto simp: is_space_def code_def)
        then have "n = 1" "st' = st" using sc Normal None that ct by (auto simp: scan_def Let_def)
        moreover have "next_keyword s = next_keyword t" using that(3) ct by (simp add: next_keyword_def skip_filler.simps [of "c # t"])
        ultimately show ?thesis using e Normal ct by (simp add: expects_def)
      qed
      have two: "drop 2 s = tl t" using ct by (cases t) simp_all
      show ?thesis
      proof (cases "is_space c \<or> pair_at (CHR ''-'') (CHR ''-'') s \<or> pair_at (CHR ''/'') (CHR ''*'') s")
        case filler: True
        then consider "is_space c" "\<not> pair_at (CHR ''-'') (CHR ''-'') s" "\<not> pair_at (CHR ''/'') (CHR ''*'') s"
          | "\<not> is_space c" "pair_at (CHR ''-'') (CHR ''-'') s" | "\<not> is_space c" "pair_at (CHR ''/'') (CHR ''*'') s"
          using ct by (auto simp: pair_at_def is_space_def code_def)
        then show ?thesis
        proof cases
          case 1
          then show ?thesis by (intro plain)
        next
          case 2
          then have "n = 2" "st' = st\<lparr>mode_of := LineComment\<rparr>" using sc Normal ct by (auto simp: scan_def Let_def)
          then show ?thesis
            using e Normal 2 ct by (auto simp: expects_def next_keyword_def skip_filler.simps [of "c # t"] word_at_def split: option.splits)
        next
          case 3
          then have "\<not> pair_at (CHR ''-'') (CHR ''-'') s" by (auto simp: pair_at_def)
          with 3 have "n = 2" "st' = st\<lparr>mode_of := BlockComment 1\<rparr>" using sc Normal ct by (auto simp: scan_def Let_def)
          then show ?thesis
            using e Normal 3 \<open>\<not> pair_at (CHR ''-'') (CHR ''-'') s\<close> ct
            by (auto simp: expects_def next_keyword_def skip_filler.simps [of "c # t"] skip_block_comment_def)
        qed
      next
        case False
        then have "next_keyword s = None" using not_filler(2) [OF ct] None by simp
        then have "ignored_end_suffix st = None" using e Normal by (cases "ignored_end_suffix st") (auto simp: expects_def)
        moreover have "ignored_end_suffix st' = ignored_end_suffix st" "mode_of st' \<noteq> BlockComment 0"
          using sc Normal None False by (auto simp: scan_def Let_def split: if_splits option.splits)
        ultimately show ?thesis by (simp add: expects_def)
      qed
    qed
  next
    case (SingleQuote b)
    then show ?thesis using e sc by (auto simp: expects_def scan_def Let_def split: if_splits)
  next
    case DoubleQuote
    then show ?thesis using e sc by (auto simp: expects_def scan_def Let_def split: if_splits)
  next
    case (DollarQuote tag)
    then show ?thesis using e sc by (auto simp: expects_def scan_def Let_def split: if_splits)
  qed
qed

lemma scan_agrees:
  "scan standard (x @ CHR '';'' # r) s st = scan standard x s st"
proof -
  have not_id: "\<not> identifier_character CHR '';''" by (simp add: identifier_character_def is_alnum_def is_alpha_def code_def)
  have "list_ex identifier_character (take 1 (x @ CHR '';'' # r)) = list_ex identifier_character (take 1 x)"
    by (cases x) (simp_all add: not_id)
  moreover have "is_escape_string standard (x @ CHR '';'' # r) = is_escape_string standard x"
  proof (cases x)
    case (Cons c y)
    then show ?thesis by (cases y) (simp_all add: is_escape_string_def not_id)
  qed (simp add: is_escape_string_def)
  ultimately show ?thesis by (simp only: scan_def dollar_quote_tag_def)
qed

lemma emit_shift: "emit p (k + n) = map (apsnd ((+) k)) (emit p n)"
  by (simp add: emit_def Let_def)

lemma statements_shift:
  "statements standard (x @ CHR '';'' # r) s st = map (apsnd ((+) (Suc (length r)))) (statements standard x s st)"
proof (induction standard x s st rule: statements.induct)
  case (1 standard x s st)
  show ?case
  proof (cases "s = []")
    case True
    then show ?thesis using emit_shift [of "buffer st" "Suc (length r)" "length x"]
      by (simp add: statements.simps [of _ _ "[]"] add.commute)
  next
    case False
    obtain n st' where sc: "scan standard x s st = (n, st')" by (cases "scan standard x s st")
    let ?behind = "rev (take n s) @ x"
    have e: "emit p (length (?behind @ CHR '';'' # r)) = map (apsnd ((+) (Suc (length r)))) (emit p (length ?behind))" for p
      using emit_shift [of p "Suc (length r)" "length ?behind"] by (simp add: ac_simps)
    show ?thesis
      using "1.IH"(1) [OF False sc [symmetric] refl refl] "1.IH"(2) [OF False sc [symmetric] refl refl] e
      by (simp add: statements.simps [of _ _ s] False sc scan_agrees Let_def append_assoc [symmetric] del: append_assoc)
  qed
qed

lemma emit_cases: "emit p n = [] \<or> (\<exists>x. emit p n = [(x, n)])"
  by (simp add: emit_def Let_def)

text \<open>Behind a statement the splitter is as at the start of a script.\<close>

lemma statements_restart:
  assumes "statements standard prior s st = (x, e) # ys" "expects s st" "\<And>c. c \<in> set s \<Longrightarrow> code c \<noteq> 13"
  shows "\<exists>k. e = length prior + k \<and> k \<le> length s
    \<and> ys = statements standard (rev (take k s) @ prior) (drop k s) new_splitter
    \<and> (drop k s = [] \<or> (\<exists>r. rev (take k s) = CHR '';'' # r))"
  using assms
proof (induction standard prior s st rule: statements.induct)
  case (1 standard prior s st)
  show ?case
  proof (cases "s = []")
    case True
    then have "emit (buffer st) (length prior) = (x, e) # ys" using "1.prems"(1) by (simp add: statements.simps [of _ _ "[]"])
    then have "e = length prior" "ys = []" using emit_cases [of "buffer st" "length prior"] by auto
    then show ?thesis using True
      by (intro exI [of _ 0]) (simp add: statements.simps [of _ _ "[]"] new_splitter_def emit_def)
  next
    case False
    obtain n st' where sc: "scan standard prior s st = (n, st')" by (cases "scan standard prior s st")
    let ?collected = "buffer st @ take n s" and ?behind = "rev (take n s) @ prior"
    have n: "n \<le> length s" using scan_bounds [OF False, of standard prior st] sc by simp
    have clean: "c \<in> set (drop n s) \<Longrightarrow> code c \<noteq> 13" for c using "1.prems"(3) by (meson in_set_dropD)
    have next_state: "expects (drop n s) st'" by (rule expects_scan [OF "1.prems"(2) False "1.prems"(3) sc])
    then have expects: "expects (drop n s) (st'\<lparr>buffer := b\<rparr>)" for b by (simp add: expects_def)
    have whole: "\<exists>k. e = length prior + k \<and> k \<le> length s
        \<and> ys = statements standard (rev (take k s) @ prior) (drop k s) new_splitter
        \<and> (drop k s = [] \<or> (\<exists>r. rev (take k s) = CHR '';'' # r))"
      if rest: "\<exists>k. e = length ?behind + k \<and> k \<le> length (drop n s)
        \<and> ys = statements standard (rev (take k (drop n s)) @ ?behind) (drop k (drop n s)) new_splitter
        \<and> (drop k (drop n s) = [] \<or> (\<exists>r. rev (take k (drop n s)) = CHR '';'' # r))"
    proof -
      from rest obtain k where k: "e = length ?behind + k" "k \<le> length (drop n s)"
        "ys = statements standard (rev (take k (drop n s)) @ ?behind) (drop k (drop n s)) new_splitter"
        "drop k (drop n s) = [] \<or> (\<exists>r. rev (take k (drop n s)) = CHR '';'' # r)" by blast
      have "take (n + k) s = take n s @ take k (drop n s)" by (rule take_add)
      then show ?thesis using k n by (intro exI [of _ "n + k"]) (auto simp: add.commute)
    qed
    show ?thesis
    proof (cases "ends_statement s st")
      case True
      have one: "n = 1" "st' = st" "take 1 s = [CHR '';'']"
        using scan_semicolon(1) [OF False True, of standard prior] scan_semicolon(2) [OF False True] sc by simp_all
      have "word_at s = None" "\<not> is_space (hd s)" "\<not> pair_at (CHR ''-'') (CHR ''-'') s" "\<not> pair_at (CHR ''/'') (CHR ''*'') s"
        using False True by (cases s; auto simp: ends_statement_def word_at_def is_alpha_def is_space_def code_def pair_at_def)+
      then have "next_keyword s = None" using not_filler(2) [of s "hd s" "tl s"] False by simp
      then have "ignored_end_suffix st = None"
        using "1.prems"(2) True by (cases "ignored_end_suffix st") (auto simp: expects_def ends_statement_def)
      then have fresh: "st\<lparr>buffer := []\<rparr> = new_splitter" using True by (simp add: ends_statement_def new_splitter_def)
      have step: "statements standard prior s st = emit ?collected (length ?behind) @ statements standard ?behind (drop n s) new_splitter"
        using True by (simp add: statements.simps [of standard prior s] False sc one(2) fresh)
      show ?thesis
      proof (cases "emit ?collected (length ?behind) = []")
        case nothing: True
        then have "statements standard ?behind (drop n s) (st'\<lparr>buffer := []\<rparr>) = (x, e) # ys"
          using step "1.prems"(1) by (simp add: one(2) fresh)
        then show ?thesis by (intro whole "1.IH"(1) [OF False sc [symmetric] refl refl True _ expects clean])
      next
        case something: False
        then have "e = length ?behind" "ys = statements standard ?behind (drop n s) new_splitter"
          using step "1.prems"(1) emit_cases [of ?collected "length ?behind"] by auto
        then show ?thesis using n one by (intro exI [of _ n]) (auto simp: add.commute)
      qed
    next
      case ends: False
      have "statements standard ?behind (drop n s) (st'\<lparr>buffer := ?collected\<rparr>) = (x, e) # ys"
        using "1.prems"(1) ends by (simp add: statements.simps [of standard prior s] False sc)
      then show ?thesis by (intro whole "1.IH"(2) [OF False sc [symmetric] refl refl ends _ expects clean])
    qed
  qed
qed

section \<open>One statement at a time\<close>

text \<open>How the migrator walks a script while the string setting stays what it is.\<close>

function one_at_a_time :: "bool \<Rightarrow> string \<Rightarrow> string list" where
  "one_at_a_time standard script = (if script = [] then [] else
     case iter_postgres_statements standard script of
       [] \<Rightarrow> []
     | (statement, consumed) # _ \<Rightarrow> statement # one_at_a_time standard (drop consumed script))"
  by pat_completeness auto

termination
proof (relation "measure (length \<circ> snd)")
  fix standard :: bool and script :: string and p ps statement consumed
  assume "script \<noteq> []" "iter_postgres_statements standard script = p # ps" "(statement, consumed) = p"
  then show "((standard, drop consumed script), (standard, script)) \<in> measure (length \<circ> snd)"
    using first_statement_consumes by (cases script) auto
qed simp

declare one_at_a_time.simps [simp del]

lemma restart:
  assumes "iter_postgres_statements standard s = (x, e) # ys" "\<forall>c \<in> set s. code c \<noteq> 13"
  shows "map fst ys = map fst (iter_postgres_statements standard (drop e s))"
proof -
  have "expects s new_splitter" by (simp add: expects_def new_splitter_def)
  from statements_restart [OF assms(1) [unfolded iter_postgres_statements_def] this] assms(2)
  obtain k where k: "e = k" "ys = statements standard (rev (take k s)) (drop k s) new_splitter"
    "drop k s = [] \<or> (\<exists>r. rev (take k s) = CHR '';'' # r)" by auto
  show ?thesis
  proof (cases "drop k s = []")
    case True
    then show ?thesis by (simp add: k iter_postgres_statements_def statements.simps [of _ _ "[]"] new_splitter_def emit_def strip_def)
  next
    case False
    then obtain r where r: "rev (take k s) = CHR '';'' # r" using k(3) by blast
    show ?thesis
      unfolding k(2) r k(1) iter_postgres_statements_def using statements_shift [of standard "[]" r "drop k s" new_splitter]
      by (simp add: comp_def)
  qed
qed

lemma one_at_a_time_split:
  assumes "\<forall>c \<in> set script. code c \<noteq> 13"
  shows "one_at_a_time standard script = split_postgres_statements standard script"
  using assms
proof (induction standard script rule: one_at_a_time.induct)
  case (1 standard script)
  show ?case
  proof (cases "iter_postgres_statements standard script")
    case Nil
    then show ?thesis by (simp add: one_at_a_time.simps [of _ script] split_postgres_statements_def)
  next
    case (Cons p ys)
    obtain x e where p: "p = (x, e)" by (cases p)
    have "script \<noteq> []"
      using Cons by (auto simp: iter_postgres_statements_def statements.simps [of _ _ "[]"] new_splitter_def emit_def strip_def)
    moreover have "\<forall>c \<in> set (drop e script). code c \<noteq> 13" using "1.prems" by (meson in_set_dropD)
    ultimately show ?thesis
      using "1.IH" [OF _ Cons p [symmetric]] restart [OF Cons [unfolded p] "1.prems"] Cons p
      by (simp add: one_at_a_time.simps [of _ script] split_postgres_statements_def)
  qed
qed

text \<open>
  C31.  Reading a script one statement at a time, each time from behind the last one, gives the statements of reading
  it once from its start: no state of the splitter is lost between them.  (The files of a provider have no
  carriage returns.)
\<close>

theorem one_at_a_time_equals_split:
  assumes "\<forall>c \<in> set script. code c \<noteq> 13"
  shows "one_at_a_time standard script = split_postgres_statements standard script"
  by (rule one_at_a_time_split [OF assms])

theorem one_at_a_time_equals_split_witness:
  "one_at_a_time True ''select ';'; begin'' = split_postgres_statements True ''select ';'; begin''"
  by (rule one_at_a_time_equals_split) (simp add: code_def)

end
