(* ===== verification/Postgres_Migrator_Laws.thy ===== *)
theory Postgres_Migrator_Laws
  imports Postgres_Migrator Statement_Laws Triples History_Table
begin

text \<open>
  What a run of the PostgreSQL migrator does: the key and the release of its lock, the statements of a
  script, and the history it leaves.
\<close>

section \<open>The lock\<close>

lemma eight_times: "(f ^^ 8) x = f (f (f (f (f (f (f (f x)))))))"
  by (simp add: eval_nat_numeral)

text \<open>The checksum of a known text.\<close>

lemma crc32_check: "crc32 (utf8 ''a'') = 0xE8B7BE43"
  by (simp add: crc32_def crc_byte_def crc_bit_def eight_times utf8_def code_def)

text \<open>
  The key of the advisory lock is a positive bigint, whatever the history table: its upper half is the namespace
  and its lower half the checksum of the table's name, so two tables share a lock only if their checksums agree.
\<close>

theorem lock_key_range:
  "0 < advisory_lock_key identity \<and> advisory_lock_key identity < 2 ^ 63
    \<and> advisory_lock_key identity div 2 ^ 32 = lock_namespace
    \<and> (advisory_lock_key identity = advisory_lock_key other \<longleftrightarrow> crc32 (utf8 identity) = crc32 (utf8 other))"
proof -
  have key: "advisory_lock_key i = lock_namespace * 2 ^ 32 + uint (crc32 (utf8 i))" for i
  proof -
    have "push_bit 32 lock_namespace AND uint (crc32 (utf8 i)) = 0"
      by (rule bit_eqI) (simp add: bit_and_iff bit_push_bit_iff bit_uint_iff)
    then show ?thesis
      unfolding advisory_lock_key_def by (simp add: disjunctive_add_eq_or push_bit_eq_mult)
  qed
  have arith: "0 < n * 2 ^ 32 + u \<and> n * 2 ^ 32 + u < 2 ^ 63 \<and> (n * 2 ^ 32 + u) div 2 ^ 32 = n"
    if "0 \<le> u" "u < 2 ^ 32" "0 < n" "n < 2 ^ 31" for u n :: int
  proof -
    have "n * 2 ^ 32 + u < 2 ^ 63" using that by simp
    then show ?thesis using that by (simp add: add_pos_nonneg div_pos_pos_trivial)
  qed
  have "0 \<le> uint (crc32 (utf8 identity))" "uint (crc32 (utf8 identity)) < 2 ^ 32"
    using uint_lt2p [of "crc32 (utf8 identity)"] by simp_all
  from arith [OF this, of lock_namespace] show ?thesis
    unfolding key by (simp add: lock_namespace_def word_uint_eq_iff)
qed

text \<open>A state predicate that an action keeps, whether it returns or raises.\<close>

definition keeps :: "('s \<Rightarrow> bool) \<Rightarrow> ('s, 'a) action \<Rightarrow> bool" where
  "keeps P m \<longleftrightarrow> (\<forall>s. P s \<longrightarrow> P (snd (m s)))"

named_theorems keeping \<open>actions that keep a state predicate\<close>

lemma keeps_simple [keeping]:
  "keeps P (ret x)" "keeps P (raise e)" "keeps P (ask f)" "keeps P (pure r)"
  by (simp_all add: keeps_def action_defs)

lemma keeps_wp: "keeps P m \<longleftrightarrow> (\<forall>s. P s \<longrightarrow> wp m (\<lambda>_. P) (\<lambda>_. P) s)"
  by (simp add: keeps_def wp_final)

lemma keeps_bind [keeping]: "keeps P m \<Longrightarrow> (\<And>x. keeps P (f x)) \<Longrightarrow> keeps P (bind m f)"
  unfolding keeps_wp wp_bind by (blast intro: wp_mono)

lemma keeps_handlers [keeping]:
  assumes "keeps P m" "\<And>e. keeps P (h e)"
  shows "keeps P (on_exception m h)" "(\<And>x. keeps P (f x)) \<Longrightarrow> keeps P (try_else m h f)"
proof -
  have m: "P s \<Longrightarrow> wp m (\<lambda>_. P) (\<lambda>_. P) s" and h: "P s \<Longrightarrow> wp (h e) (\<lambda>_. P) (\<lambda>_. P) s" for s e
    using assms by (simp_all add: keeps_wp)
  show "keeps P (on_exception m h)"
    unfolding keeps_wp wp_on_exception by (intro allI impI, rule wp_mono [OF m]) (simp_all add: h)
  show "keeps P (try_else m h f)" if "\<And>x. keeps P (f x)"
    using that unfolding keeps_wp wp_try_else by (intro allI impI, intro wp_mono [OF m]) (simp_all add: h)
qed

lemma keeps_if [keeping]: "keeps P m \<Longrightarrow> keeps P n \<Longrightarrow> keeps P (if b then m else n)"
  by simp

text \<open>
  The locks of the session: \<open>held w key\<close> counts how often it holds one.  The lock function takes one when it
  succeeds, the unlock function gives one back, if only because the session ends, and no other command of the
  migrator takes one, nor does a statement of the migrations (\<open>scripts\<close>).
\<close>

definition no_more :: "('w \<Rightarrow> int \<Rightarrow> nat) \<Rightarrow> ('w \<Rightarrow> 'a result \<times> 'w) \<Rightarrow> bool" where
  "no_more held f \<longleftrightarrow> (\<forall>w key. held (snd (f w)) key \<le> held w key)"

definition lock_laws :: "'w pg_connection \<Rightarrow> string set \<Rightarrow> ('w \<Rightarrow> int \<Rightarrow> nat) \<Rightarrow> bool" where
  "lock_laws c scripts held \<longleftrightarrow>
     (\<forall>key w other. case pg_execute c ''SELECT pg_advisory_lock($1)'' [IntValue key] w of (r, w') \<Rightarrow>
        held w' other \<le> held w other + (if succeeds r \<and> other = key then 1 else 0))
   \<and> (\<forall>key w other. held (snd (pg_execute c ''SELECT pg_advisory_unlock($1)'' [IntValue key] w)) other
        \<le> held w other - (if other = key then 1 else 0))
   \<and> (\<forall>statement \<in> scripts. no_more held (pg_execute c statement []))
   \<and> (\<forall>table. no_more held (pg_execute c (create_pg_history table) []))
   \<and> (\<forall>insert name digest. no_more held (pg_execute c insert [StrValue name, StrValue digest]))
   \<and> (\<forall>query args. no_more held (pg_fetchval c query args)) \<and> (\<forall>query. no_more held (pg_fetch c query))
   \<and> no_more held (enter_transaction c) \<and> (\<forall>failure. no_more held (leave_transaction c failure))"

text \<open>The statements a migration may come to run, whatever the settings are while it does.\<close>

definition statements_of :: "migration \<Rightarrow> string set" where
  "statements_of m = {statement. \<exists>k standard. statement \<in> set (split_postgres_statements standard (drop k (migration_sql m)))}"

definition bounded :: "('w \<Rightarrow> int \<Rightarrow> nat) \<Rightarrow> (int \<Rightarrow> nat) \<Rightarrow> 'w session \<Rightarrow> bool" where
  "bounded held H s \<longleftrightarrow> (\<forall>key. held (server s) key \<le> H key)"

lemma keeps_server:
  "no_more held f \<Longrightarrow> keeps (bounded held H) (on_server f)"
  unfolding keeps_def on_server_def no_more_def bounded_def by (auto split: prod.split) (metis order_trans snd_conv)

lemma keeps_script:
  assumes "lock_laws c scripts held" "\<And>k standard. set (split_postgres_statements standard (drop k script)) \<subseteq> scripts"
  shows "keeps (bounded held H) (run_script c m transaction_id script)"
  using assms
proof (induction c m transaction_id script rule: run_script.induct)
  case (1 c m transaction_id remaining)
  note [keeping] = keeps_server [where H = H]
  have get: "no_more held (pg_fetchval c query args)" for query args using "1.prems"(1) by (simp add: lock_laws_def)
  have setting: "keeps (bounded held H) (standard_conforming_strings c)"
    unfolding standard_conforming_strings_def by (intro keeping get)
  have one: "keeps (bounded held H) (run_pg_statement c m transaction_id standard statement)"
    if "no_more held (pg_execute c statement [])" for standard statement
    unfolding run_pg_statement_def by (intro keeping that get setting)
  have round: "keeps (bounded held H) (bind (run_pg_statement c m transaction_id standard statement)
      (\<lambda>_. run_script c m transaction_id (drop consumed remaining)))"
    if "remaining \<noteq> []" "iter_postgres_statements standard remaining = (statement, consumed) # rest" for standard statement consumed rest
  proof (intro keeping one)
    have "statement \<in> scripts" using "1.prems"(2) [of standard 0] that(2) by (simp add: split_postgres_statements_def)
    then show "no_more held (pg_execute c statement [])" using "1.prems"(1) by (simp add: lock_laws_def)
    show "keeps (bounded held H) (run_script c m transaction_id (drop consumed remaining))"
      using "1.IH" [OF that(1) that(2) refl "1.prems"(1)] "1.prems"(2) by (simp add: drop_drop)
  qed
  show ?case
  proof (cases "remaining = []")
    case False
    then show ?thesis
      unfolding run_script.simps [of c m transaction_id remaining]
      by (simp only: if_False) (intro keeping setting, use round in \<open>auto split: list.split simp: keeping\<close>)
  qed (simp add: run_script.simps [of _ _ _ "[]"] keeping)
qed

lemma keeps_migration:
  assumes "lock_laws c scripts held" "statements_of m \<subseteq> scripts"
  shows "keeps (bounded held H) (apply_pg_migration c checksum table m)"
proof -
  note [keeping] = keeps_server [where H = H]
  have script: "keeps (bounded held H) (run_script c m transaction_id (migration_sql m))" for transaction_id
    by (rule keeps_script [OF assms(1)]) (use assms(2) in \<open>auto simp: statements_of_def\<close>)
  show ?thesis
    unfolding apply_pg_migration_def with_pg_transaction_def
    by (intro keeping script) (use assms(1) in \<open>auto simp: lock_laws_def\<close>)
qed

lemma keeps_pending:
  assumes "lock_laws c scripts held" "\<forall>m \<in> set todo. statements_of m \<subseteq> scripts"
  shows "keeps (bounded held H) (apply_pg_pending c checksum table results todo)"
  using assms(2)
proof (induction todo arbitrary: results)
  case (Cons m later)
  then have "keeps (bounded held H) (apply_pg_migration c checksum table m)"
    by (intro keeps_migration [OF assms(1)]) simp
  then show ?case using Cons by (auto intro!: keeping split: option.split)
qed (simp add: keeping)

lemma pending_subset: "pending_migrations checksum migrations applied = Inr pending \<Longrightarrow> set pending \<subseteq> set migrations"
  by (auto simp: pending_migrations_def Let_def and_then_ok dest: set_dropWhileD)

lemma keeps_pure:
  assumes "\<And>x. r = Inr x \<Longrightarrow> keeps P (f x)"
  shows "keeps P (bind (pure r) f)"
  using assms by (cases r) (auto simp: keeps_def action_defs)

lemma keeps_locked:
  assumes "lock_laws c scripts held" "\<forall>m \<in> set migrations. statements_of m \<subseteq> scripts"
  shows "keeps (bounded held H) (migrate_locked c checksum migrations table)"
proof -
  note [keeping] = keeps_server [where H = H]
  have "keeps (bounded held H) (apply_pg_pending c checksum table [] pending)"
    if "pending_migrations checksum migrations applied = Inr pending" for applied pending
    by (rule keeps_pending [OF assms(1)]) (use assms(2) pending_subset [OF that] in blast)
  then show ?thesis
    unfolding migrate_locked_def read_history_def
    by (intro keeping keeps_pure) (use assms(1) in \<open>auto simp: lock_laws_def\<close>)
qed

lemma keeps_reference:
  assumes "lock_laws c scripts held"
  shows "keeps (bounded held H) (history_table_reference c name)"
proof -
  note [keeping] = keeps_server [where H = H]
  have "no_more held (pg_fetchval c query args)" for query args using assms by (simp add: lock_laws_def)
  then have look: "keeps (bounded held H) (on_server (pg_fetchval c query args))" for query args
    by (intro keeping)
  have note_it: "keeps (bounded held H) (act (\<lambda>s. s\<lparr>schemas := f s\<rparr>))" for f
    by (simp add: keeps_def act_def bounded_def)
  show ?thesis
    unfolding history_table_reference_def Let_def
    by (intro keeping) (auto intro!: keeping look note_it split: option.split datum.split)
qed

definition one_more :: "(int \<Rightarrow> nat) \<Rightarrow> int \<Rightarrow> int \<Rightarrow> nat" where
  "one_more H key = H(key := Suc (H key))"

lemma lock_spec:
  assumes "lock_laws c scripts held" "bounded held H s"
  shows "wp (on_server (pg_execute c ''SELECT pg_advisory_lock($1)'' [IntValue key]))
    (\<lambda>_. bounded held (one_more H key)) (\<lambda>_. bounded held H) s"
proof -
  obtain r w' where r: "pg_execute c ''SELECT pg_advisory_lock($1)'' [IntValue key] (server s) = (r, w')" by force
  have "held w' k \<le> held (server s) k + (if succeeds r \<and> k = key then 1 else 0)" for k
    using assms(1) [unfolded lock_laws_def, THEN conjunct1, rule_format, of k "server s" key] r by simp
  moreover have "held (server s) k \<le> H k" for k using assms(2) by (simp add: bounded_def)
  ultimately have "held w' k \<le> H k + (if succeeds r \<and> k = key then 1 else 0)" for k by (meson add_le_mono1 order_trans)
  then have "held w' k \<le> (if succeeds r then one_more H key else H) k" for k
    by (cases "k = key") (auto simp: one_more_def dest: meta_spec [of _ k] split: if_splits)
  then show ?thesis by (cases r) (auto simp: wp_def on_server_def r succeeds_def bounded_def)
qed

lemma unlock_spec:
  assumes "lock_laws c scripts held" "bounded held (one_more H key) s"
  shows "wp (on_exception (bind (on_server (pg_execute c ''SELECT pg_advisory_unlock($1)'' [IntValue key])) (\<lambda>_. ret ()))
      (\<lambda>_. ret ())) (\<lambda>_. bounded held H) (\<lambda>_. bounded held H) s"
proof -
  let ?unlock = "pg_execute c ''SELECT pg_advisory_unlock($1)'' [IntValue key]"
  have "held (snd (?unlock (server s))) other \<le> H other" for other
  proof -
    have "held (snd (?unlock (server s))) other \<le> held (server s) other - (if other = key then 1 else 0)"
      using assms(1) by (simp add: lock_laws_def)
    also have "\<dots> \<le> H other"
      using assms(2) [unfolded bounded_def one_more_def, rule_format, of other] by (auto split: if_splits)
    finally show ?thesis .
  qed
  then have "bounded held H (snd (on_server ?unlock s))" by (simp add: bounded_def on_server_def split_beta)
  then have "wp (on_server ?unlock) (\<lambda>_. bounded held H) (\<lambda>_. bounded held H) s" by (simp add: wp_final)
  then show ?thesis unfolding wp_on_exception wp_bind by (rule wp_mono) (simp_all add: wp_ret)
qed

lemma take_lock_spec:
  assumes laws: "lock_laws c scripts held" and s: "bounded held H s"
  shows "wp (take_lock c (Inr migrations) name)
    (\<lambda>(ms, _, key) s'. ms = migrations \<and> bounded held (one_more H key) s') (\<lambda>_. bounded held H) s"
proof -
  have "wp (history_table_reference c name) (\<lambda>_. bounded held H) (\<lambda>_. bounded held H) s"
    using keeps_reference [OF laws, of H name] s by (simp add: keeps_wp)
  then show ?thesis
    unfolding take_lock_def wp_bind [of "pure _"] wp_pure sum.case wp_bind [of "history_table_reference _ _"]
    by (rule wp_mono) (auto simp: Let_def wp_bind wp_ret intro!: wp_mono [OF lock_spec [OF laws]])
qed

lemma locked_spec:
  assumes laws: "lock_laws c scripts held" and "\<forall>m \<in> set migrations. statements_of m \<subseteq> scripts"
    and s: "bounded held (one_more H key) s"
  shows "wp (finally_do
      (on_exception (migrate_locked c checksum migrations table) (\<lambda>e. ret (failed_report e)))
      (on_exception (bind (on_server (pg_execute c ''SELECT pg_advisory_unlock($1)'' [IntValue key])) (\<lambda>_. ret ())) (\<lambda>_. ret ())))
    (\<lambda>_. bounded held H) (\<lambda>_. bounded held H) s"
proof -
  have "keeps (bounded held (one_more H key)) (on_exception (migrate_locked c checksum migrations table) (\<lambda>e. ret (failed_report e)))"
    by (intro keeping keeps_locked [OF laws]) (use assms(2) in blast)
  then have "wp (on_exception (migrate_locked c checksum migrations table) (\<lambda>e. ret (failed_report e)))
      (\<lambda>_. bounded held (one_more H key)) (\<lambda>_. bounded held (one_more H key)) s" using s by (simp add: keeps_wp)
  then show ?thesis unfolding wp_finally by (rule wp_mono) (rule unlock_spec [OF laws], assumption)+
qed


section \<open>A connection that obeys the laws\<close>

text \<open>A database of one history table, the newest row first, with the rows of the open transaction and the locks.\<close>

record pg_sample =
  sample_rows :: "(string \<times> string) list"
  sample_open :: "(string \<times> string) list option"
  sample_locks :: "int \<Rightarrow> nat"

definition sample_execute :: "string \<Rightarrow> datum list \<Rightarrow> pg_sample \<Rightarrow> string result \<times> pg_sample" where
  "sample_execute statement args w = (Inr ''SELECT 1'', case args of
     [IntValue key] \<Rightarrow>
       if statement = ''SELECT pg_advisory_lock($1)'' then w\<lparr>sample_locks := (sample_locks w)(key := sample_locks w key + 1)\<rparr>
       else w\<lparr>sample_locks := (sample_locks w)(key := sample_locks w key - 1)\<rparr>
   | [StrValue name, StrValue digest] \<Rightarrow> w\<lparr>sample_open := map_option ((#) (name, digest)) (sample_open w)\<rparr>
   | _ \<Rightarrow> w)"

definition pg_sample_connection :: "pg_sample pg_connection" where
  "pg_sample_connection = \<lparr>pg_execute = sample_execute,
     pg_fetchval = (\<lambda>query args w. (Inr (StrValue (if query = ''SHOW standard_conforming_strings'' then ''on'' else ''public'')), w)),
     pg_fetch = (\<lambda>query w. (Inr (map (\<lambda>(name, digest). [(''migration_name'', StrValue name), (''checksum'', StrValue digest)])
       (rev (case sample_open w of None \<Rightarrow> sample_rows w | Some rows \<Rightarrow> rows))), w)),
     in_transaction = (\<lambda>w. sample_open w \<noteq> None),
     enter_transaction = (\<lambda>w. (Inr (), w\<lparr>sample_open := if sample_open w = None then Some (sample_rows w) else sample_open w\<rparr>)),
     leave_transaction = (\<lambda>failure w. (Inr (), if failure = None
       then w\<lparr>sample_rows := (case sample_open w of None \<Rightarrow> sample_rows w | Some rows \<Rightarrow> rows), sample_open := None\<rparr>
       else w\<lparr>sample_open := None\<rparr>)),
     physical_connection = 1\<rparr>"

lemma sample_lock_laws: "lock_laws pg_sample_connection UNIV sample_locks"
proof -
  note defs = pg_sample_connection_def sample_execute_def no_more_def
  show ?thesis
    unfolding lock_laws_def by (intro conjI allI ballI) (auto simp: defs split: datum.splits)
qed


section \<open>The statements of a script\<close>

text \<open>What a migration runs when the setting of the session is \<open>standard\<close> throughout.\<close>

fun run_each :: "'w pg_connection \<Rightarrow> migration \<Rightarrow> datum \<Rightarrow> bool \<Rightarrow> string list \<Rightarrow> ('w session, unit) action" where
  "run_each c m transaction_id standard [] = ret ()"
| "run_each c m transaction_id standard (statement # rest) =
     bind (run_pg_statement c m transaction_id standard statement) (\<lambda>_. run_each c m transaction_id standard rest)"

lemma run_script_one_at_a_time:
  assumes "\<And>s. standard_conforming_strings c s = (Inr standard, s)"
  shows "run_script c m transaction_id script = run_each c m transaction_id standard (one_at_a_time standard script)"
  using assms
proof (induction c m transaction_id script rule: run_script.induct)
  case (1 c m transaction_id remaining)
  show ?case
  proof (cases "remaining = []")
    case False
    have "bind (standard_conforming_strings c) f = f standard" for f :: "bool \<Rightarrow> ('a session, unit) action"
      by (rule ext) (simp add: bind_def "1.prems")
    then show ?thesis
      using "1.IH" [OF False _ refl "1.prems"] False
      by (auto simp: run_script.simps [of c m transaction_id remaining] one_at_a_time.simps [of _ remaining] split: list.split)
  qed (simp add: run_script.simps [of _ _ _ "[]"] one_at_a_time.simps [of _ "[]"])
qed

text \<open>
  C35.  While the session reads string literals one way, running a script is running the statements it splits into, in
  order, each with all its checks, until one fails: cutting them off one at a time changes nothing.
\<close>

theorem run_script_runs_the_split:
  assumes "\<And>s. standard_conforming_strings c s = (Inr standard, s)" "\<forall>x \<in> set script. code x \<noteq> 13"
  shows "run_script c m transaction_id script = run_each c m transaction_id standard (split_postgres_statements standard script)"
  unfolding run_script_one_at_a_time [OF assms(1)] one_at_a_time_split [OF assms(2)] ..

theorem run_script_runs_the_split_witness:
  "run_script pg_sample_connection \<lparr>migration_name = ''0001_a.sql'', migration_sql = ''x'', foreign_keys = True\<rparr> (IntValue 1)
      ''select ';'; select 2''
    = run_each pg_sample_connection \<lparr>migration_name = ''0001_a.sql'', migration_sql = ''x'', foreign_keys = True\<rparr> (IntValue 1)
      True (split_postgres_statements True ''select ';'; select 2'')"
  by (rule run_script_runs_the_split)
    (auto simp: standard_conforming_strings_def pg_sample_connection_def action_defs on_server_def code_def)

end
