(* ===== verification/Postgres_History.thy ===== *)
theory Postgres_History
  imports Postgres_Migrator_Laws
begin

text \<open>What a run of the PostgreSQL migrator does to the history, from the committed rows and the rows of the transaction.\<close>

section \<open>The laws of the connection\<close>

definition pg_history :: "'w pg_connection \<Rightarrow> string set \<Rightarrow> ('w \<Rightarrow> (string \<rightharpoonup> string)) \<Rightarrow> ('w \<Rightarrow> (string \<rightharpoonup> string) option) \<Rightarrow> bool" where
  "pg_history c scripts committed working \<longleftrightarrow>
     (\<forall>w. in_transaction c w \<longleftrightarrow> working w \<noteq> None)
   \<and> begins committed working (enter_transaction c) \<and> commits committed working (leave_transaction c None)
   \<and> (\<forall>e. rolls_back committed working (leave_transaction c (Some e)))
   \<and> (\<forall>table w. stays committed working w (snd (pg_execute c (create_pg_history table) [] w)))
   \<and> (\<forall>table name digest. adds committed working (name, digest)
        (pg_execute c (''INSERT INTO '' @ table @ '' (migration_name, checksum) VALUES ($1, $2)'') [StrValue name, StrValue digest]))
   \<and> (\<forall>table. reads committed working (\<lambda>rows. applied_of rows []) (pg_fetch c (''SELECT migration_name, checksum FROM '' @ table)))
   \<and> (\<forall>query args w. stays committed working w (snd (pg_fetchval c query args w)))
   \<and> (\<forall>query key w. stays committed working w (snd (pg_execute c query [IntValue key] w)))
   \<and> (\<forall>statement \<in> scripts. spares committed working (pg_execute c statement []))"

lemma wp_on_server:
  "wp (on_server f) Q E s = wp f (\<lambda>x w. Q x (s\<lparr>server := w\<rparr>)) (\<lambda>e w. E e (s\<lparr>server := w\<rparr>)) (server s)"
  by (simp add: wp_def on_server_def split: prod.split sum.split)

abbreviation pg_stands :: "('w \<Rightarrow> (string \<rightharpoonup> string)) \<Rightarrow> ('w \<Rightarrow> (string \<rightharpoonup> string) option)
    \<Rightarrow> (string \<rightharpoonup> string) \<Rightarrow> (string \<rightharpoonup> string) option \<Rightarrow> 'w session \<Rightarrow> bool" where
  "pg_stands committed working R v s \<equiv> stands committed working R v (server s)"

lemma pg_commands:
  assumes h: "pg_history c scripts committed working" and w: "pg_stands committed working R v s"
  shows "v = None \<Longrightarrow> wp (on_server (enter_transaction c)) (\<lambda>_. pg_stands committed working R (Some R)) (\<lambda>_. pg_stands committed working R None) s"
    "wp (on_server (leave_transaction c None)) (\<lambda>_. pg_stands committed working (case v of None \<Rightarrow> R | Some rows \<Rightarrow> rows) None)
      (\<lambda>_ s'. committed (server s') = R) s"
    "wp (on_server (leave_transaction c (Some e))) (\<lambda>_ s'. committed (server s') = R) (\<lambda>_ s'. committed (server s') = R) s"
    "wp (on_server (pg_execute c (create_pg_history table) [])) (\<lambda>_. pg_stands committed working R v) (\<lambda>_. pg_stands committed working R v) s"
    "v = Some rows \<Longrightarrow> wp (on_server (pg_execute c (''INSERT INTO '' @ table @ '' (migration_name, checksum) VALUES ($1, $2)'')
        [StrValue name, StrValue digest])) (\<lambda>_. pg_stands committed working R (Some (rows(name \<mapsto> digest)))) (\<lambda>_ s'. committed (server s') = R) s"
    "wp (read_history c table) (\<lambda>applied s'. map_of applied = (case v of None \<Rightarrow> R | Some rows \<Rightarrow> rows) \<and> pg_stands committed working R v s')
      (\<lambda>_. pg_stands committed working R v) s"
    "wp (on_server (pg_fetchval c query args)) (\<lambda>_. pg_stands committed working R v) (\<lambda>_. pg_stands committed working R v) s"
    "wp (on_server (pg_execute c query [IntValue key])) (\<lambda>_. pg_stands committed working R v) (\<lambda>_. pg_stands committed working R v) s"
    "statement \<in> scripts \<Longrightarrow> v = Some rows \<Longrightarrow> wp (on_server (pg_execute c statement []))
      (\<lambda>_ s'. committed (server s') = R \<and> working (server s') \<in> {None, v}) (\<lambda>_ s'. committed (server s') = R) s"
proof -
  note laws = h [unfolded pg_history_def]
  note specs = command_specs [OF w]
  have lift: "wp (on_server f) (\<lambda>x s'. Q x (server s')) (\<lambda>e s'. E e (server s')) s" if "wp f Q E (server s)" for f Q E
    using that by (simp add: wp_on_server)
  show "v = None \<Longrightarrow> wp (on_server (enter_transaction c)) (\<lambda>_. pg_stands committed working R (Some R)) (\<lambda>_. pg_stands committed working R None) s"
    by (rule lift, rule specs(1)) (use laws in blast)
  show "wp (on_server (leave_transaction c None)) (\<lambda>_. pg_stands committed working (case v of None \<Rightarrow> R | Some rows \<Rightarrow> rows) None)
      (\<lambda>_ s'. committed (server s') = R) s"
    by (rule lift, rule specs(2)) (use laws in blast)
  have "wp (leave_transaction c (Some e)) (\<lambda>_. stands committed working R None) (\<lambda>_ w'. committed w' = R) (server s)"
    by (rule specs(3)) (use laws in blast)
  then show "wp (on_server (leave_transaction c (Some e))) (\<lambda>_ s'. committed (server s') = R) (\<lambda>_ s'. committed (server s') = R) s"
    by (intro lift, elim wp_mono) (simp_all add: stands_def)
  show "wp (on_server (pg_execute c (create_pg_history table) [])) (\<lambda>_. pg_stands committed working R v) (\<lambda>_. pg_stands committed working R v) s"
    by (rule lift, rule specs(7)) (use laws in blast)
  have "adds committed working (name, digest)
      (pg_execute c (''INSERT INTO '' @ table @ '' (migration_name, checksum) VALUES ($1, $2)'') [StrValue name, StrValue digest])"
    using laws by blast
  from specs(5) [OF this, unfolded fst_conv snd_conv] show "v = Some rows \<Longrightarrow> wp (on_server (pg_execute c (''INSERT INTO '' @ table @ '' (migration_name, checksum) VALUES ($1, $2)'')
        [StrValue name, StrValue digest])) (\<lambda>_. pg_stands committed working R (Some (rows(name \<mapsto> digest)))) (\<lambda>_ s'. committed (server s') = R) s"
    by (intro lift)
  have "wp (bind (pg_fetch c (''SELECT migration_name, checksum FROM '' @ table)) (\<lambda>rows. pure (applied_of rows [])))
      (\<lambda>applied w'. map_of applied = (case v of None \<Rightarrow> R | Some rows \<Rightarrow> rows) \<and> stands committed working R v w')
      (\<lambda>_. stands committed working R v) (server s)"
    by (rule specs(6)) (use laws in blast)
  then show "wp (read_history c table) (\<lambda>applied s'. map_of applied = (case v of None \<Rightarrow> R | Some rows \<Rightarrow> rows) \<and> pg_stands committed working R v s')
      (\<lambda>_. pg_stands committed working R v) s"
    unfolding read_history_def wp_bind wp_on_server by (elim wp_mono) (auto simp: wp_pure split: sum.splits)
  show "wp (on_server (pg_fetchval c query args)) (\<lambda>_. pg_stands committed working R v) (\<lambda>_. pg_stands committed working R v) s"
    by (rule lift, rule specs(7)) (use laws in blast)
  show "wp (on_server (pg_execute c query [IntValue key])) (\<lambda>_. pg_stands committed working R v) (\<lambda>_. pg_stands committed working R v) s"
    by (rule lift, rule specs(7)) (use laws in blast)
  show "statement \<in> scripts \<Longrightarrow> v = Some rows \<Longrightarrow> wp (on_server (pg_execute c statement []))
      (\<lambda>_ s'. committed (server s') = R \<and> working (server s') \<in> {None, v}) (\<lambda>_ s'. committed (server s') = R) s"
    by (rule lift, rule specs(4)) (use laws in blast)+
qed

section \<open>One migration\<close>

lemma setting_spec:
  assumes "pg_history c scripts committed working" "pg_stands committed working R v s"
  shows "wp (standard_conforming_strings c) (\<lambda>_. pg_stands committed working R v) (\<lambda>_. pg_stands committed working R v) s"
  unfolding standard_conforming_strings_def wp_bind
  by (rule wp_mono [OF pg_commands(7) [OF assms]]) (simp_all add: wp_ret wp_raise)

lemma statement_spec:
  fixes c :: "'w pg_connection"
  assumes h: "pg_history c scripts committed working" and s: "pg_stands committed working R (Some V) s" and mine: "statement \<in> scripts"
  shows "wp (run_pg_statement c m transaction_id standard statement)
    (\<lambda>_. pg_stands committed working R (Some V)) (\<lambda>_ s'. committed (server s') = R) s"
proof -
  let ?E = "\<lambda>(_ :: exn) (s' :: 'w session). committed (server s') = R"
  have busy: "in_transaction c w \<longleftrightarrow> working w \<noteq> None" for w using h by (simp add: pg_history_def)
  have checked: "wp (bind (on_server (pg_fetchval c ''SELECT txid_current()'' [])) (\<lambda>current.
        if current \<noteq> transaction_id then raise (migration_error ''migration replaced the migrator's transaction'' m)
        else bind (standard_conforming_strings c) (\<lambda>now.
        pure (raise_if (now \<noteq> standard) (migration_error ''migration changes standard_conforming_strings, which is unsupported'' m)))))
      (\<lambda>_. pg_stands committed working R (Some V)) ?E s'"
    if s': "pg_stands committed working R (Some V) s'" for s'
    unfolding wp_bind
  proof (rule wp_mono [OF pg_commands(7) [OF h s']])
    fix current s2 assume s2: "pg_stands committed working R (Some V) s2"
    have "wp (standard_conforming_strings c) (\<lambda>now. wp (pure (raise_if (now \<noteq> standard)
        (migration_error ''migration changes standard_conforming_strings, which is unsupported'' m)))
        (\<lambda>_. pg_stands committed working R (Some V)) ?E) ?E s2"
      by (rule wp_mono [OF setting_spec [OF h s2]]) (simp_all add: wp_pure raise_if_def stands_def)
    then show "wp (if current \<noteq> transaction_id then raise (migration_error ''migration replaced the migrator's transaction'' m)
        else bind (standard_conforming_strings c) (\<lambda>now.
        pure (raise_if (now \<noteq> standard) (migration_error ''migration changes standard_conforming_strings, which is unsupported'' m))))
        (\<lambda>_. pg_stands committed working R (Some V)) ?E s2"
      using s2 by (simp add: wp_raise wp_bind stands_def)
  qed (simp add: stands_def)
  have ran: "wp (on_server (pg_execute c statement [])) (\<lambda>status. wp
      (if is_transaction_control_status status then raise (migration_error ''migration contains transaction-control SQL'' m)
        else bind (ask (\<lambda>s. in_transaction c (server s))) (\<lambda>busy.
        if \<not> busy then raise (migration_error ''migration ended the migrator's transaction'' m)
        else bind (on_server (pg_fetchval c ''SELECT txid_current()'' [])) (\<lambda>current.
        if current \<noteq> transaction_id then raise (migration_error ''migration replaced the migrator's transaction'' m)
        else bind (standard_conforming_strings c) (\<lambda>now.
        pure (raise_if (now \<noteq> standard) (migration_error ''migration changes standard_conforming_strings, which is unsupported'' m))))))
      (\<lambda>_. pg_stands committed working R (Some V)) ?E) ?E s"
  proof (rule wp_mono [OF pg_commands(9) [OF h s mine refl]])
    fix status and s' :: "'w session" assume "committed (server s') = R \<and> working (server s') \<in> {None, Some V}"
    then consider "committed (server s') = R" "working (server s') = None" | "pg_stands committed working R (Some V) s'"
      by (auto simp: stands_def)
    then show "wp (if is_transaction_control_status status then raise (migration_error ''migration contains transaction-control SQL'' m)
        else bind (ask (\<lambda>s. in_transaction c (server s))) (\<lambda>busy.
        if \<not> busy then raise (migration_error ''migration ended the migrator's transaction'' m)
        else bind (on_server (pg_fetchval c ''SELECT txid_current()'' [])) (\<lambda>current.
        if current \<noteq> transaction_id then raise (migration_error ''migration replaced the migrator's transaction'' m)
        else bind (standard_conforming_strings c) (\<lambda>now.
        pure (raise_if (now \<noteq> standard) (migration_error ''migration changes standard_conforming_strings, which is unsupported'' m))))))
      (\<lambda>_. pg_stands committed working R (Some V)) ?E s'"
    proof cases
      case 1
      then show ?thesis by (simp add: wp_raise wp_bind [of "ask _"] wp_ask busy)
    next
      case 2
      then show ?thesis using checked [OF 2] by (simp add: wp_raise wp_bind [of "ask _"] wp_ask busy stands_def)
    qed
  qed simp
  then show ?thesis
    using s unfolding run_pg_statement_def by (simp add: wp_raise wp_bind [of "on_server (pg_execute _ _ _)"] stands_def)
qed

lemma script_spec:
  fixes c :: "'w pg_connection"
  assumes h: "pg_history c scripts committed working"
  shows "pg_stands committed working R (Some V) s \<Longrightarrow>
    (\<And>k standard. set (split_postgres_statements standard (drop k script)) \<subseteq> scripts) \<Longrightarrow>
    wp (run_script c m transaction_id script) (\<lambda>_. pg_stands committed working R (Some V)) (\<lambda>_ s'. committed (server s') = R) s"
  using h
proof (induction c m transaction_id script arbitrary: s rule: run_script.induct)
  case (1 c m transaction_id remaining)
  let ?E = "\<lambda>(_ :: exn) (s' :: 'w session). committed (server s') = R"
  show ?case
  proof (cases "remaining = []")
    case True
    then show ?thesis using "1.prems"(1) by (simp add: run_script.simps [of _ _ _ "[]"] wp_ret)
  next
    case False
    have "wp (case iter_postgres_statements standard remaining of [] \<Rightarrow> ret ()
        | (statement, consumed) # _ \<Rightarrow> bind (run_pg_statement c m transaction_id standard statement)
            (\<lambda>_. run_script c m transaction_id (drop consumed remaining)))
        (\<lambda>_. pg_stands committed working R (Some V)) ?E s'"
      if s': "pg_stands committed working R (Some V) s'" for standard s'
    proof (cases "iter_postgres_statements standard remaining")
      case Nil
      then show ?thesis using s' by (simp add: wp_ret)
    next
      case (Cons p rest)
      obtain statement consumed where p: "p = (statement, consumed)" by (cases p)
      have "statement \<in> scripts" using "1.prems"(2) [of standard 0] Cons p by (simp add: split_postgres_statements_def)
      note one = statement_spec [OF "1.prems"(3) s' this, of m transaction_id standard]
      have "wp (bind (run_pg_statement c m transaction_id standard statement) (\<lambda>_. run_script c m transaction_id (drop consumed remaining)))
          (\<lambda>_. pg_stands committed working R (Some V)) ?E s'"
        unfolding wp_bind
        by (rule wp_mono [OF one], rule "1.IH" [OF False Cons p [symmetric] _ _ "1.prems"(3)]) (use "1.prems"(2) in \<open>simp_all add: drop_drop\<close>)
      then show ?thesis by (simp add: Cons p)
    qed
    then show ?thesis
      unfolding run_script.simps [of c m transaction_id remaining] if_not_P [OF False] wp_bind [of "standard_conforming_strings c"]
      by (intro wp_mono [OF setting_spec [OF "1.prems"(3,1)]]) (simp_all add: stands_def)
  qed
qed

lemma apply_pg_spec:
  fixes c :: "'w pg_connection"
  assumes h: "pg_history c scripts committed working"
    and s: "pg_stands committed working (history checksum past) None s"
    and d: "distinct (map migration_name (past @ m # rest))" and mine: "statements_of m \<subseteq> scripts"
  shows "wp (apply_pg_migration c checksum table m)
    (\<lambda>_. pg_stands committed working (history checksum (past @ [m])) None) (\<lambda>_ s'. committed (server s') = history checksum past) s"
proof -
  let ?R = "history checksum past" and ?R' = "history checksum (past @ [m])"
  let ?E = "\<lambda>(_ :: exn) (s' :: 'w session). committed (server s') = history checksum past"
  have body: "wp (bind (on_server (pg_fetchval c ''SELECT txid_current()'' [])) (\<lambda>transaction_id.
      bind (run_script c m transaction_id (migration_sql m)) (\<lambda>_.
      bind (on_server (pg_execute c (''INSERT INTO '' @ table @ '' (migration_name, checksum) VALUES ($1, $2)'')
        [StrValue (migration_name m), StrValue (checksum (migration_sql m))])) (\<lambda>_. ret ()))))
      (\<lambda>_. pg_stands committed working ?R (Some ?R')) ?E s'"
    if s': "pg_stands committed working ?R (Some ?R) s'" for s'
    unfolding wp_bind
  proof (rule wp_mono [OF pg_commands(7) [OF h s']], rule wp_mono [OF script_spec [OF h]], assumption)
    show "set (split_postgres_statements standard (drop k (migration_sql m))) \<subseteq> scripts" for k standard
      using mine by (auto simp: statements_of_def)
    fix s2 :: "'w session" assume "pg_stands committed working ?R (Some ?R) s2"
    from pg_commands(5) [OF h this refl, of table "migration_name m" "checksum (migration_sql m)", folded history_snoc(1) [OF d]]
    show "wp (on_server (pg_execute c (''INSERT INTO '' @ table @ '' (migration_name, checksum) VALUES ($1, $2)'')
        [StrValue (migration_name m), StrValue (checksum (migration_sql m))]))
        (\<lambda>_. wp (ret ()) (\<lambda>_. pg_stands committed working ?R (Some ?R')) ?E) ?E s2"
      by (elim wp_mono) (simp_all add: wp_ret)
  qed (simp_all add: stands_def)
  have failed: "wp (bind (on_server (leave_transaction c (Some e))) (\<lambda>_. raise e))
      (\<lambda>_. pg_stands committed working ?R' None) ?E s'" if "committed (server s') = ?R" for e s'
  proof -
    have "pg_stands committed working ?R (working (server s')) s'" using that by (simp add: stands_def)
    from pg_commands(3) [OF h this, of e] show ?thesis unfolding wp_bind by (elim wp_mono) (simp_all add: wp_raise)
  qed
  have done_it: "wp (bind (on_server (leave_transaction c None)) (\<lambda>_. ret x))
      (\<lambda>_. pg_stands committed working ?R' None) ?E s'" if "pg_stands committed working ?R (Some ?R') s'" for s' and x :: unit
    unfolding wp_bind by (rule wp_mono [OF pg_commands(2) [OF h that]]) (simp_all add: wp_ret)
  show ?thesis
    unfolding apply_pg_migration_def with_pg_transaction_def wp_bind [of "on_server (enter_transaction c)"] wp_try_else
  proof (rule wp_mono [OF pg_commands(1) [OF h s refl]], rule wp_mono [OF body], assumption)
    show "wp (bind (on_server (leave_transaction c None)) (\<lambda>_. ret x)) (\<lambda>_. pg_stands committed working ?R' None) ?E s'"
      if "pg_stands committed working ?R (Some ?R') s'" for s' and x :: unit by (rule done_it [OF that])
  qed (use failed in \<open>simp_all add: stands_def\<close>)
qed

lemma apply_pg_pending_run:
  "apply_pg_pending c checksum table results todo = run_pending (\<lambda>m. bind (apply_pg_migration c checksum table m) (\<lambda>_. ret True)) results todo"
proof (induction todo arbitrary: results)
  case (Cons m later)
  have "bind (on_exception (bind (apply_pg_migration c checksum table m) (\<lambda>_. ret None)) (\<lambda>e. ret (Some e))) f
      = bind (on_exception (bind (bind (apply_pg_migration c checksum table m) (\<lambda>_. ret True)) (\<lambda>executed. ret (Inr executed)))
          (\<lambda>e. ret (Inl e))) g"
    if "\<And>e. f (Some e) = g (Inl e)" "f None = g (Inr True)"
    for f :: "exn option \<Rightarrow> ('a session, migration_report) action" and g :: "exn + bool \<Rightarrow> ('a session, migration_report) action"
    by (rule ext) (simp add: on_exception_def action_defs that split: prod.split sum.split)
  then show ?case by (simp add: Cons.IH)
qed simp

lemma apply_pg_pending_spec:
  fixes c :: "'w pg_connection"
  assumes h: "pg_history c scripts committed working" and s: "pg_stands committed working (history checksum past) None s"
    and d: "distinct (map migration_name (past @ todo))" and mine: "\<forall>m \<in> set todo. statements_of m \<subseteq> scripts"
  shows "wp (apply_pg_pending c checksum table results todo)
    (\<lambda>report s'. tells checksum past todo results report (committed (server s')))
    (\<lambda>e s'. \<not> is_exception e \<and> (\<exists>k. committed (server s') = history checksum (past @ take k todo))) s"
proof -
  have "wp (bind (apply_pg_migration c checksum table m) (\<lambda>_. ret True))
      (\<lambda>executed s'. executed \<and> stands (committed \<circ> server) (working \<circ> server) (history checksum (applied @ [m])) None s')
      (\<lambda>_ s'. (committed \<circ> server) s' = history checksum applied
        \<or> (\<not> foreign_keys m \<and> (committed \<circ> server) s' = history checksum (applied @ [m]))) s1"
    if "past @ todo = applied @ m # later" "m \<in> set todo" "stands (committed \<circ> server) (working \<circ> server) (history checksum applied) None s1"
    for applied m later and s1 :: "'w session"
  proof -
    have "pg_stands committed working (history checksum applied) None s1" using that(3) by (simp add: stands_def)
    moreover have "distinct (map migration_name (applied @ m # later))" "statements_of m \<subseteq> scripts"
      using d mine that(1,2) by (simp_all del: map_append distinct_append)
    ultimately show ?thesis
      unfolding wp_bind by (intro wp_mono [OF apply_pg_spec [OF h, of checksum applied s1 m later]]) (simp_all add: wp_ret stands_def del: map_append distinct_append)
  qed
  from run_pending_spec [OF this _ refl subset_refl, where w = s and results = results] s
  have "wp (run_pending (\<lambda>m. bind (apply_pg_migration c checksum table m) (\<lambda>_. ret True)) results todo)
      (\<lambda>report s'. tells checksum past todo results report (committed (server s')))
      (\<lambda>_ s'. \<exists>k. committed (server s') = history checksum (past @ take k todo)) s" by (simp add: stands_def)
  from wp_both [OF run_pending_raises this] show ?thesis unfolding apply_pg_pending_run by simp
qed

section \<open>A run\<close>

lemma take_lock_stands:
  assumes h: "pg_history c scripts committed working" and s: "pg_stands committed working R None s"
  shows "wp (take_lock c (Inr migrations) name)
    (\<lambda>(ms, _, _) s'. ms = migrations \<and> pg_stands committed working R None s') (\<lambda>_. pg_stands committed working R None) s"
proof -
  let ?S = "pg_stands committed working R None"
  have look: "wp (on_server (pg_fetchval c query args)) (\<lambda>_. ?S) (\<lambda>_. ?S) s'" if "?S s'" for query args s'
    by (rule pg_commands(7) [OF h that])
  have reference: "wp (history_table_reference c name) (\<lambda>_. ?S) (\<lambda>_. ?S) s"
    unfolding history_table_reference_def Let_def using s
    by (auto simp: wp_bind wp_ask wp_ret wp_raise wp_act intro!: wp_mono [OF look] split: option.split datum.split)
  show ?thesis
    unfolding take_lock_def wp_bind [of "pure _"] wp_pure sum.case wp_bind [of "history_table_reference _ _"]
    by (rule wp_mono [OF reference]) (auto simp: Let_def wp_bind wp_ret intro!: wp_mono [OF pg_commands(8) [OF h]])
qed

text \<open>The part of a run under the lock, with any conclusions.\<close>

lemma locked_history:
  assumes h: "pg_history c scripts committed working" and s: "pg_stands committed working R None s"
    and E: "\<And>e s'. committed (server s') = R \<Longrightarrow> E e s'"
    and run: "\<And>applied pending s'. map_of applied = R \<Longrightarrow> pending_migrations checksum migrations applied = Inr pending \<Longrightarrow>
      pg_stands committed working R None s' \<Longrightarrow> wp (apply_pg_pending c checksum table [] pending) Q E s'"
  shows "wp (migrate_locked c checksum migrations table) Q E s"
  unfolding migrate_locked_def wp_bind [of "on_server _"] wp_bind [of "read_history _ _"]
proof (rule wp_mono [OF pg_commands(4) [OF h s]], rule wp_mono [OF pg_commands(6) [OF h]], assumption)
  fix applied s' assume "map_of applied = (case None of None \<Rightarrow> R | Some rows \<Rightarrow> rows) \<and> pg_stands committed working R None s'"
  then show "wp (bind (pure (pending_migrations checksum migrations applied)) (\<lambda>pending.
     bind (pure (checks (map (\<lambda>m. raise_if (\<not> foreign_keys m)
       (migration_error ''migration asks for foreign_keys = off, which only SQLiteMigrator supports'' m)) pending))) (\<lambda>_.
     apply_pg_pending c checksum table [] pending))) Q E s'"
    using E run by (auto simp: wp_bind wp_pure stands_def split: sum.split)
qed (simp_all add: E stands_def)

lemma unlock_keeps:
  assumes h: "pg_history c scripts committed working" and P: "P (committed (server s))" "E (committed (server s))"
  shows "wp (on_exception (bind (on_server (pg_execute c ''SELECT pg_advisory_unlock($1)'' [IntValue key])) (\<lambda>_. ret ()))
      (\<lambda>_. ret ())) (\<lambda>_ s'. P (committed (server s'))) (\<lambda>_ s'. E (committed (server s'))) s"
proof -
  have "pg_stands committed working (committed (server s)) (working (server s)) s" by (simp add: stands_def)
  from pg_commands(8) [OF h this] show ?thesis
    unfolding wp_on_exception wp_bind by (rule wp_mono) (use P in \<open>simp_all add: wp_ret stands_def\<close>)
qed


section \<open>The sample connection\<close>

definition pg_committed :: "pg_sample \<Rightarrow> (string \<rightharpoonup> string)" where
  "pg_committed w = map_of (sample_rows w)"

definition pg_working :: "pg_sample \<Rightarrow> (string \<rightharpoonup> string) option" where
  "pg_working w = map_option map_of (sample_open w)"

lemma applied_of_sample:
  "\<exists>applied. applied_of (map (\<lambda>(name, digest). [(''migration_name'', StrValue name), (''checksum'', StrValue digest)]) (rev kvs)) acc
    = Inr applied \<and> map_of applied = map_of acc ++ map_of kvs"
proof (induction kvs arbitrary: acc rule: rev_induct)
  case (snoc kv kvs)
  obtain k v where kv: "kv = (k, v)" by (cases kv)
  have "map_of (dict_put acc k v) ++ map_of kvs = map_of acc ++ map_of (kvs @ [kv])" by (simp add: map_of_dict_put kv)
  then show ?case using snoc.IH [of "dict_put acc k v"] by (simp add: kv column_def and_then_def)
qed simp

lemma pg_sample_laws: "pg_history pg_sample_connection scripts pg_committed pg_working"
proof -
  note defs = pg_sample_connection_def sample_execute_def pg_committed_def pg_working_def
    begins_def commits_def rolls_back_def spares_def adds_def stays_def view_def
  have read: "reads pg_committed pg_working (\<lambda>rows. applied_of rows []) (pg_fetch pg_sample_connection query)" for query
    using applied_of_sample [where acc = "[]"] by (auto simp: reads_def defs split: option.splits)
  show ?thesis
    unfolding pg_history_def by (intro conjI allI ballI read) (auto simp: defs succeeds_def split: option.splits)
qed


end
