(* ===== verification/Postgres_Executor.thy ===== *)
theory Postgres_Executor
  imports Sqlite Postgres_Migrator
begin

text \<open>
  The PostgreSQL executor (\<open>relq_postgres/__init__.py\<close>) on any number of connections and pools.  Python objects with
  identity are numbered and live in the state: registries (\<open>_PostgresTransactionState\<close>), controlled transactions,
  savepoints and streams.  \<open>state_of_connection\<close> and \<open>handles_on\<close> are the two module-level maps; a program keeps the
  handles it has not completed, so the weak set of open handles is a set.

  asyncpg, the clock and the observers are code outside the repository: the fields of \<open>asyncpg\<close>, functions on an
  environment \<open>'w\<close> of their own.  One task is modelled: what other tasks do while it waits is part of the environment.
  \<open>visit\<close> is the order in which Python visits a set of handles, which the language leaves open.
\<close>

section \<open>State\<close>

record pg_transaction =
  kept_state :: nat
  raw_connection :: nat
  watcher_of :: "nat option"
  taken_names :: "string set"
  own_points :: "nat list"
  generated_savepoint :: "string option"
  is_closed :: bool
  pool_of :: "nat option"
  pool_connection :: "nat option"

datatype stream_phase = Waiting | Fetching string "datum list list" | Ended

record stream =
  phase :: stream_phase
  rows_seen :: nat
  stream_error :: "exn option"
  consumer_error :: bool

record 'w executor =
  kept_registries :: "nat \<Rightarrow> registry"
  registries_made :: nat
  state_of_connection :: "nat \<Rightarrow> nat option"
  handles_on :: "nat \<Rightarrow> nat set"
  controlled :: "nat \<Rightarrow> pg_transaction"
  controlled_made :: nat
  points :: "nat \<Rightarrow> savepoint"
  points_made :: nat
  streams :: "nat \<Rightarrow> stream"
  streams_made :: nat
  name_counter :: nat
  cursor_counter :: nat
  outer :: 'w

record 'w asyncpg =
  run_statement :: "nat \<Rightarrow> string \<Rightarrow> py_value list \<Rightarrow> 'w \<Rightarrow> string result \<times> 'w"
  fetch_records :: "nat \<Rightarrow> string \<Rightarrow> py_value list \<Rightarrow> 'w \<Rightarrow> datum list list result \<times> 'w"
  fetch_record :: "nat \<Rightarrow> string \<Rightarrow> py_value list \<Rightarrow> 'w \<Rightarrow> datum list option result \<times> 'w"
  set_interval_codec :: "nat \<Rightarrow> 'w \<Rightarrow> unit result \<times> 'w"
  acquire_from :: "nat \<Rightarrow> 'w \<Rightarrow> nat result \<times> 'w"
  release_to :: "nat \<Rightarrow> nat \<Rightarrow> 'w \<Rightarrow> unit result \<times> 'w"
  is_in_transaction :: "nat \<Rightarrow> 'w \<Rightarrow> bool"
  clock_of :: "'w \<Rightarrow> int"
  tell :: "nat \<Rightarrow> event \<Rightarrow> 'w \<Rightarrow> unit result \<times> 'w"
  visit :: "nat set \<Rightarrow> nat list"

text \<open>A wrapper a program holds: a database on a pool or on a connection with its observer, or a controlled transaction.\<close>

datatype pg_client = PoolDatabase nat "nat option" | ConnectionDatabase nat "nat option" | Controlled nat

section \<open>The registry\<close>

definition update_kept :: "nat \<Rightarrow> (registry \<Rightarrow> registry) \<Rightarrow> 'w executor \<Rightarrow> 'w executor" where
  "update_kept r f s = s\<lparr>kept_registries := (kept_registries s)(r := f (kept_registries s r))\<rparr>"

definition update_controlled :: "nat \<Rightarrow> (pg_transaction \<Rightarrow> pg_transaction) \<Rightarrow> 'w executor \<Rightarrow> 'w executor" where
  "update_controlled t f s = s\<lparr>controlled := (controlled s)(t := f (controlled s t))\<rparr>"

definition update_point :: "nat \<Rightarrow> (savepoint \<Rightarrow> savepoint) \<Rightarrow> 'w executor \<Rightarrow> 'w executor" where
  "update_point p f s = s\<lparr>points := (points s)(p := f (points s p))\<rparr>"

definition update_stream :: "nat \<Rightarrow> (stream \<Rightarrow> stream) \<Rightarrow> 'w executor \<Rightarrow> 'w executor" where
  "update_stream i f s = s\<lparr>streams := (streams s)(i := f (streams s i))\<rparr>"

lemmas executor_updates = update_kept_def update_controlled_def update_point_def update_stream_def

definition register_controlled :: "nat \<Rightarrow> nat \<Rightarrow> 'w executor \<Rightarrow> 'w executor" where
  "register_controlled r t = update_kept r
     (\<lambda>g. g\<lparr>stack := stack g @ [t], entries := entries g @ [TransactionEntry t]\<rparr>)"

definition register_point :: "nat \<Rightarrow> nat \<Rightarrow> 'w executor \<Rightarrow> 'w executor" where
  "register_point r p = update_kept r (\<lambda>g. g\<lparr>entries := entries g @ [SavepointEntry p]\<rparr>)"

definition drop_entry :: "nat \<Rightarrow> entry \<Rightarrow> 'w executor \<Rightarrow> 'w executor" where
  "drop_entry r e = update_kept r (\<lambda>g. g\<lparr>entries := remove1 e (entries g)\<rparr>)"

definition drop_controlled :: "nat \<Rightarrow> nat \<Rightarrow> 'w executor \<Rightarrow> 'w executor" where
  "drop_controlled r t s = drop_entry r (TransactionEntry t) (update_kept r (\<lambda>g. g\<lparr>stack := remove1 t (stack g)\<rparr>) s)"

definition reserve_name :: "nat \<Rightarrow> string \<Rightarrow> ('w executor, unit) action" where
  "reserve_name r name = bind (ask (\<lambda>s. savepoint_names (kept_registries s r)))
     (\<lambda>names. bind (pure (raise_if (savepoint_name_key name \<in> names)
         (ValueError ''savepoint name is already active'' [name])))
       (\<lambda>_. act (update_kept r (\<lambda>g. g\<lparr>savepoint_names := insert (savepoint_name_key name) (savepoint_names g)\<rparr>))))"

definition release_names :: "nat \<Rightarrow> string set \<Rightarrow> 'w executor \<Rightarrow> 'w executor" where
  "release_names r names = update_kept r
     (\<lambda>g. g\<lparr>savepoint_names := savepoint_names g - savepoint_name_key ` names\<rparr>)"

definition state_for_connection :: "nat \<Rightarrow> ('w executor, nat) action" where
  "state_for_connection k = (\<lambda>s. case state_of_connection s k of
       Some r \<Rightarrow> (Inr r, s)
     | None \<Rightarrow> (Inr (registries_made s),
         s\<lparr>kept_registries := (kept_registries s)(registries_made s := empty_registry),
           registries_made := Suc (registries_made s),
           state_of_connection := (state_of_connection s)(k \<mapsto> registries_made s)\<rparr>))"

definition discard_state :: "nat \<Rightarrow> nat \<Rightarrow> 'w executor \<Rightarrow> 'w executor" where
  "discard_state k r s = (if entries (kept_registries s r) = [] \<and> state_of_connection s k = Some r
     then s\<lparr>state_of_connection := (state_of_connection s)(k := None)\<rparr> else s)"

section \<open>Invalidation\<close>

definition forget_point :: "nat \<Rightarrow> nat \<Rightarrow> 'w executor \<Rightarrow> 'w executor" where
  "forget_point t p s =
     (let r = kept_state (controlled s t); name = quoted_name (points s p) in
      release_names r {name}
        (update_controlled t (\<lambda>x. x\<lparr>taken_names := taken_names x - {name}\<rparr>)
          (drop_entry r (SavepointEntry p)
            (update_controlled t (\<lambda>x. x\<lparr>own_points := remove1 p (own_points x)\<rparr>) s))))"

definition invalidate_point :: "nat \<Rightarrow> 'w executor \<Rightarrow> 'w executor" where
  "invalidate_point p s =
     (if released (points s p) \<or> invalidated (points s p) then s
      else update_point p (\<lambda>x. x\<lparr>invalidated := True\<rparr>) (forget_point (owner (points s p)) p s))"

definition clear_names :: "nat \<Rightarrow> 'w executor \<Rightarrow> 'w executor" where
  "clear_names t s =
     (let s1 = fold invalidate_point (own_points (controlled s t)) s;
          s2 = update_controlled t (\<lambda>x. x\<lparr>own_points := []\<rparr>) s1
      in update_controlled t (\<lambda>x. x\<lparr>taken_names := {}\<rparr>)
        (release_names (kept_state (controlled s2 t)) (taken_names (controlled s2 t)) s2))"

definition close_controlled :: "nat \<Rightarrow> 'w executor \<Rightarrow> 'w executor" where
  "close_controlled t s =
     (let s1 = update_controlled t (\<lambda>x. x\<lparr>is_closed := True\<rparr>) (clear_names t s);
          r = kept_state (controlled s1 t); k = raw_connection (controlled s1 t);
          s2 = drop_controlled r t s1
      in discard_state k r (s2\<lparr>handles_on := (handles_on s2)(k := handles_on s2 k - {t})\<rparr>))"

fun invalidate_member :: "entry \<Rightarrow> 'w executor \<Rightarrow> 'w executor" where
  "invalidate_member (TransactionEntry t) s = close_controlled t s"
| "invalidate_member (SavepointEntry p) s = invalidate_point p s"

definition invalidate_behind :: "nat \<Rightarrow> entry \<Rightarrow> 'w executor \<Rightarrow> 'w executor" where
  "invalidate_behind r e s = fold invalidate_member (tl (dropWhile (\<lambda>x. x \<noteq> e) (entries (kept_registries s r)))) s"

definition invalidate_registry :: "nat \<Rightarrow> 'w executor \<Rightarrow> 'w executor" where
  "invalidate_registry r s = update_kept r (\<lambda>_. empty_registry)
     (fold invalidate_member (entries (kept_registries s r)) s)"

definition invalidate_for_recovery :: "nat \<Rightarrow> 'w executor \<Rightarrow> 'w executor" where
  "invalidate_for_recovery t s = invalidate_registry (kept_state (controlled s t)) s"

definition invalidate_subtree :: "nat \<Rightarrow> 'w executor \<Rightarrow> 'w executor" where
  "invalidate_subtree t s = close_controlled t (invalidate_behind (kept_state (controlled s t)) (TransactionEntry t) s)"

definition release_point_object :: "nat \<Rightarrow> nat \<Rightarrow> 'w executor \<Rightarrow> 'w executor" where
  "release_point_object t p s = forget_point t p (invalidate_behind (kept_state (controlled s t)) (SavepointEntry p) s)"

section \<open>Calls outside\<close>

definition beyond :: "('w \<Rightarrow> 'a result \<times> 'w) \<Rightarrow> ('w executor, 'a) action" where
  "beyond f = (\<lambda>s. case f (outer s) of (r, w) \<Rightarrow> (r, s\<lparr>outer := w\<rparr>))"

definition inform ::
  "'w asyncpg \<Rightarrow> nat option \<Rightarrow> string \<Rightarrow> py_value list \<Rightarrow> int \<Rightarrow> int option \<Rightarrow> exn option \<Rightarrow> ('w executor, unit) action" where
  "inform c observer text params started count error = (case observer of
       None \<Rightarrow> ret ()
     | Some watcher \<Rightarrow> bind (ask (\<lambda>s. clock_of c (outer s))) (\<lambda>now.
         on_exception (beyond (tell c watcher \<lparr>event_sql = text, event_parameters = params, duration = now - started,
             row_count = count, event_error = error\<rparr>))
           (\<lambda>_. ret ())))"

definition execute_on :: "'w asyncpg \<Rightarrow> nat \<Rightarrow> string \<Rightarrow> ('w executor, unit) action" where
  "execute_on c k text = bind (beyond (run_statement c k text [])) (\<lambda>_. ret ())"

definition controlled_run :: "'w asyncpg \<Rightarrow> nat option \<Rightarrow> string \<Rightarrow> ('w executor, unit) action \<Rightarrow> ('w executor, int) action" where
  "controlled_run c observer text operation = bind (ask (\<lambda>s. clock_of c (outer s)))
     (\<lambda>started. on_error (bind operation (\<lambda>_. ret started))
       (\<lambda>e. bind (inform c observer text [] started None (Some e)) (\<lambda>_. raise e)))"

definition recovery_control :: "'w asyncpg \<Rightarrow> nat option \<Rightarrow> nat \<Rightarrow> string \<Rightarrow> ('w executor, unit) action" where
  "recovery_control c observer k text = bind (controlled_run c observer text (execute_on c k text))
     (\<lambda>started. inform c observer text [] started (Some 0) None)"

datatype control = Start | Commit | Rollback

fun control_sql :: "string option \<Rightarrow> control \<Rightarrow> string" where
  "control_sql None Start = ''begin''"
| "control_sql None Commit = ''commit''"
| "control_sql None Rollback = ''rollback''"
| "control_sql (Some name) Start = ''savepoint '' @ name"
| "control_sql (Some name) Commit = ''release savepoint '' @ name"
| "control_sql (Some name) Rollback = ''rollback to '' @ name"

definition quote_point :: "string \<Rightarrow> string result" where
  "quote_point name = and_then (checks
     [raise_if (name = []) (ValueError ''savepoint name must not be empty'' []),
      raise_if (length (utf8 name) > 63) (ValueError ''PostgreSQL savepoint names must be at most 63 UTF-8 bytes'' [])])
     (\<lambda>_. Inr (CHR 0x22 # replace_char (CHR 0x22) [CHR 0x22, CHR 0x22] name @ [CHR 0x22]))"

definition new_savepoint_name :: "('w executor, string) action" where
  "new_savepoint_name = bind (ask name_counter) (\<lambda>n.
     bind (act (\<lambda>s. s\<lparr>name_counter := Suc n\<rparr>)) (\<lambda>_. pure (quote_point (''relq_savepoint_'' @ str_of_nat n))))"

section \<open>Connections\<close>

definition release_pool_connection :: "'w asyncpg \<Rightarrow> nat option \<Rightarrow> nat \<Rightarrow> ('w executor, unit) action" where
  "release_pool_connection c pool k = (case pool of None \<Rightarrow> ret () | Some p \<Rightarrow> beyond (release_to c p k))"

text \<open>\<open>_release_connection\<close>: the handle gives its pooled connection up before it releases it.\<close>

definition release_lease :: "'w asyncpg \<Rightarrow> nat \<Rightarrow> ('w executor, unit) action" where
  "release_lease c t = bind (ask (\<lambda>s. controlled s t)) (\<lambda>x.
     bind (act (update_controlled t (\<lambda>y. y\<lparr>pool_connection := None\<rparr>))) (\<lambda>_.
       case (pool_of x, pool_connection x) of (Some p, Some k) \<Rightarrow> beyond (release_to c p k) | _ \<Rightarrow> ret ()))"

text \<open>Every handle is released; the first exception is kept.\<close>

fun release_leases :: "'w asyncpg \<Rightarrow> nat list \<Rightarrow> ('w executor, unit result) action" where
  "release_leases c [] = ret (Inr ())"
| "release_leases c (t # ts) = bind (outcome (release_lease c t)) (\<lambda>first.
     bind (release_leases c ts) (\<lambda>rest. ret (case first of Inl e \<Rightarrow> Inl e | Inr _ \<Rightarrow> rest)))"

definition recover_connection ::
  "'w asyncpg \<Rightarrow> nat \<Rightarrow> nat set \<Rightarrow> bool \<Rightarrow> nat option \<Rightarrow> (string \<Rightarrow> ('w executor, unit) action) \<Rightarrow> ('w executor, unit) action" where
  "recover_connection c k extra owns boundary control = bind (ask (\<lambda>s. handles_on s k \<union> extra)) (\<lambda>handles.
     if handles = {} \<and> \<not> owns then ret ()
     else bind (ask (\<lambda>s. Option.bind boundary (\<lambda>b. map_option (\<lambda>name. (b, name)) (generated_savepoint (controlled s b))))) (\<lambda>nested.
       case nested of
         Some (b, name) \<Rightarrow> bind (act (invalidate_subtree b)) (\<lambda>_.
           bind (control (''rollback to '' @ name)) (\<lambda>_. control (''release savepoint '' @ name)))
       | None \<Rightarrow> bind (act (fold invalidate_for_recovery (visit c handles))) (\<lambda>_.
           bind (outcome (control ''rollback'')) (\<lambda>recovery.
           bind (release_leases c (visit c handles)) (\<lambda>release.
             pure (case recovery of Inl e \<Rightarrow> Inl e | Inr _ \<Rightarrow> release))))))"

text \<open>The recovery of a handle reports to that handle's observer.\<close>

definition control_of :: "'w asyncpg \<Rightarrow> nat \<Rightarrow> nat \<Rightarrow> string \<Rightarrow> ('w executor, unit) action" where
  "control_of c k b text = bind (ask (\<lambda>s. watcher_of (controlled s b))) (\<lambda>observer. recovery_control c observer k text)"

definition cleanup_savepoint :: "'w asyncpg \<Rightarrow> nat \<Rightarrow> string \<Rightarrow> nat option \<Rightarrow> ('w executor, unit) action" where
  "cleanup_savepoint c k name boundary = on_error
     (bind (execute_on c k (control_sql (Some name) Rollback)) (\<lambda>_. execute_on c k (control_sql (Some name) Commit)))
     (\<lambda>_. recover_connection c k {} False boundary
       (case boundary of None \<Rightarrow> execute_on c k | Some b \<Rightarrow> control_of c k b))"

text \<open>\<open>async with self._connection_scope() as connection: work\<close>.\<close>

definition connection_scope :: "'w asyncpg \<Rightarrow> pg_client \<Rightarrow> (nat \<Rightarrow> ('w executor, 'a) action) \<Rightarrow> ('w executor, 'a) action" where
  "connection_scope c h work = (case h of
       PoolDatabase p _ \<Rightarrow> bind (beyond (acquire_from c p)) (\<lambda>k.
         finally_do (bind (beyond (set_interval_codec c k)) (\<lambda>_. work k)) (beyond (release_to c p k)))
     | ConnectionDatabase k _ \<Rightarrow> bind (beyond (set_interval_codec c k)) (\<lambda>_. work k)
     | Controlled t \<Rightarrow> bind (ask (\<lambda>s. raw_connection (controlled s t))) (\<lambda>k.
         bind (beyond (set_interval_codec c k)) (\<lambda>_. work k)))"

section \<open>Transactions\<close>

definition require_open :: "pg_client \<Rightarrow> ('w executor, unit) action" where
  "require_open h = (case h of
       Controlled t \<Rightarrow> bind (ask (\<lambda>s. is_closed (controlled s t)))
         (\<lambda>closed. pure (raise_if closed
           (TransactionUnavailableError ''controlled transaction is no longer usable'')))
     | _ \<Rightarrow> ret ())"

definition watcher :: "pg_client \<Rightarrow> 'w executor \<Rightarrow> nat option" where
  "watcher h s = (case h of PoolDatabase _ observer \<Rightarrow> observer | ConnectionDatabase _ observer \<Rightarrow> observer
     | Controlled t \<Rightarrow> watcher_of (controlled s t))"

text \<open>\<open>PostgresDatabase(connection, observer=observer)\<close>; the wrapper's own reference to the registry is refreshed before use.\<close>

definition new_pg_database :: "nat \<Rightarrow> nat option \<Rightarrow> ('w executor, pg_client) action" where
  "new_pg_database k observer = bind (state_for_connection k) (\<lambda>_. ret (ConnectionDatabase k observer))"

text \<open>\<open>ControlledTransaction.__init__\<close>, the constructor of the base class included.\<close>

definition new_controlled :: "nat \<Rightarrow> nat option \<Rightarrow> nat option \<Rightarrow> nat \<Rightarrow> string option \<Rightarrow> ('w executor, nat) action" where
  "new_controlled k observer pool r name = bind (state_for_connection k) (\<lambda>_.
     bind (ask controlled_made) (\<lambda>t.
       bind (act (\<lambda>s. (register_controlled r t (s\<lparr>controlled_made := Suc t,
           controlled := (controlled s)(t := \<lparr>kept_state = r, raw_connection = k, watcher_of = observer,
             taken_names = set_option name, own_points = [], generated_savepoint = name, is_closed = False,
             pool_of = pool, pool_connection = (if pool = None then None else Some k)\<rparr>),
           handles_on := (handles_on s)(k := insert t (handles_on s k))\<rparr>))))
         (\<lambda>_. ret t)))"

text \<open>
  What the failure of the first statement leads to.  The error is reported; then a connection of the caller is
  recovered, and a pooled one goes back, whatever the observer does.
\<close>

definition start_failed ::
  "'w asyncpg \<Rightarrow> nat option \<Rightarrow> nat option \<Rightarrow> nat \<Rightarrow> string \<Rightarrow> bool \<Rightarrow> nat option \<Rightarrow> int \<Rightarrow> exn \<Rightarrow> ('w executor, 'a) action" where
  "start_failed c observer pool k text owns boundary started e =
     bind (finally_do (inform c observer text [] started None (Some e))
       (case pool of
          None \<Rightarrow> recover_connection c k {} owns boundary
            (case boundary of None \<Rightarrow> recovery_control c observer k | Some b \<Rightarrow> control_of c k b)
        | Some p \<Rightarrow> release_pool_connection c (Some p) k))
     (\<lambda>_. raise e)"

text \<open>What an exception behind the first statement leads to: the statement is undone.\<close>

definition undo_start :: "'w asyncpg \<Rightarrow> nat option \<Rightarrow> nat option \<Rightarrow> nat \<Rightarrow> string option \<Rightarrow> nat option \<Rightarrow> exn \<Rightarrow> ('w executor, 'a) action" where
  "undo_start c observer pool k name boundary e = bind (case name of
       None \<Rightarrow> finally_do (recover_connection c k {} True None (recovery_control c observer k)) (release_pool_connection c pool k)
     | Some n \<Rightarrow> cleanup_savepoint c k n boundary) (\<lambda>_. raise e)"

definition begin_controlled ::
  "'w asyncpg \<Rightarrow> nat option \<Rightarrow> nat option \<Rightarrow> nat \<Rightarrow> nat option \<Rightarrow> ('w executor, nat) action" where
  "begin_controlled c observer pool given kept =
     bind (case pool of Some p \<Rightarrow> beyond (acquire_from c p) | None \<Rightarrow> ret given) (\<lambda>k.
     bind (case kept of Some r \<Rightarrow> ret r | None \<Rightarrow> state_for_connection k) (\<lambda>r.
     bind (ask (\<lambda>s. is_in_transaction c k (outer s))) (\<lambda>open.
     bind (if open then bind new_savepoint_name (\<lambda>name. ret (Some name)) else ret None) (\<lambda>name.
     bind (ask (\<lambda>s. if name \<noteq> None \<and> stack (kept_registries s r) \<noteq> [] then Some (last (stack (kept_registries s r))) else None)) (\<lambda>boundary.
     bind (ask (\<lambda>s. clock_of c (outer s))) (\<lambda>started.
     let text = control_sql name Start in
     try_else (execute_on c k text) (start_failed c observer pool k text (name = None) boundary started) (\<lambda>_.
     bind (on_error (bind (inform c observer text [] started (Some 0) None)
           (\<lambda>_. case name of None \<Rightarrow> ret () | Some n \<Rightarrow> reserve_name r n))
         (undo_start c observer pool k name boundary))
       (\<lambda>_. new_controlled k observer pool r name))))))))"

definition pg_begin :: "'w asyncpg \<Rightarrow> pg_client \<Rightarrow> ('w executor, nat) action" where
  "pg_begin c h = bind (require_open h) (\<lambda>_. bind (ask (watcher h)) (\<lambda>observer. case h of
       PoolDatabase p _ \<Rightarrow> begin_controlled c observer (Some p) 0 None
     | ConnectionDatabase k _ \<Rightarrow> bind (state_for_connection k) (\<lambda>r. begin_controlled c observer None k (Some r))
     | Controlled t \<Rightarrow> bind (ask (\<lambda>s. controlled s t)) (\<lambda>x.
         begin_controlled c observer None (raw_connection x) (Some (kept_state x)))))"

definition recover_after_failure :: "'w asyncpg \<Rightarrow> nat \<Rightarrow> exn \<Rightarrow> ('w executor, 'a) action" where
  "recover_after_failure c t operation_error = bind (ask (\<lambda>s. raw_connection (controlled s t))) (\<lambda>k.
     bind (recover_connection c k {t} False (Some t) (control_of c k t)) (\<lambda>_. raise operation_error))"

definition pg_commit :: "'w asyncpg \<Rightarrow> nat \<Rightarrow> ('w executor, unit) action" where
  "pg_commit c t = bind (require_open (Controlled t)) (\<lambda>_.
     bind (ask (\<lambda>s. controlled s t)) (\<lambda>x.
     bind (act (invalidate_behind (kept_state x) (TransactionEntry t))) (\<lambda>_.
     let text = control_sql (generated_savepoint x) Commit in
     finally_do (try_else (controlled_run c (watcher_of x) text (execute_on c (raw_connection x) text))
         (recover_after_failure c t)
         (\<lambda>started. bind (act (close_controlled t))
           (\<lambda>_. inform c (watcher_of x) text [] started (Some 0) None)))
       (release_lease c t))))"

text \<open>
  The statements of a rollback.  A nested one also releases its savepoint; what its observer raises is kept until the
  handle is closed, and the first such exception wins.
\<close>

definition rollback_statements :: "'w asyncpg \<Rightarrow> pg_transaction \<Rightarrow> ('w executor, int \<times> unit result) action" where
  "rollback_statements c x = (let text = control_sql (generated_savepoint x) Rollback; k = raw_connection x in
     bind (controlled_run c (watcher_of x) text (execute_on c k text)) (\<lambda>started.
       case generated_savepoint x of
         None \<Rightarrow> ret (started, Inr ())
       | Some name \<Rightarrow> bind (outcome (inform c (watcher_of x) text [] started (Some 0) None)) (\<lambda>first.
           bind (controlled_run c (watcher_of x) (''release savepoint '' @ name) (execute_on c k (''release savepoint '' @ name))) (\<lambda>later.
           bind (outcome (inform c (watcher_of x) (''release savepoint '' @ name) [] later (Some 0) None)) (\<lambda>second.
             ret (started, case first of Inl e \<Rightarrow> Inl e | Inr _ \<Rightarrow> second))))))"

definition pg_rollback :: "'w asyncpg \<Rightarrow> nat \<Rightarrow> ('w executor, unit) action" where
  "pg_rollback c t = bind (require_open (Controlled t)) (\<lambda>_.
     bind (ask (\<lambda>s. controlled s t)) (\<lambda>x.
     bind (act (invalidate_behind (kept_state x) (TransactionEntry t))) (\<lambda>_.
     finally_do (try_else (rollback_statements c x)
         (recover_after_failure c t)
         (\<lambda>(started, told). bind (act (close_controlled t)) (\<lambda>_.
           bind (if generated_savepoint x = None then inform c (watcher_of x) ''rollback'' [] started (Some 0) None else ret ())
             (\<lambda>_. pure told))))
       (release_lease c t))))"

text \<open>\<open>async with database.transaction() as handle: body\<close>; \<open>transaction_connection\<close> hands the raw connection out instead.\<close>

definition pg_with_transaction :: "'w asyncpg \<Rightarrow> pg_client \<Rightarrow> (nat \<Rightarrow> ('w executor, 'a) action) \<Rightarrow> ('w executor, 'a) action" where
  "pg_with_transaction c h body = bind (pg_begin c h) (\<lambda>t.
     try_else (body t)
       (\<lambda>e. bind (on_error (pg_rollback c t)
           (\<lambda>e'. case e' of TransactionUnavailableError _ \<Rightarrow> ret () | _ \<Rightarrow> raise e')) (\<lambda>_. raise e))
       (\<lambda>x. bind (pg_commit c t) (\<lambda>_. ret x)))"

definition pg_with_connection :: "'w asyncpg \<Rightarrow> pg_client \<Rightarrow> (nat \<Rightarrow> ('w executor, 'a) action) \<Rightarrow> ('w executor, 'a) action" where
  "pg_with_connection c h body = pg_with_transaction c h (\<lambda>t. bind (ask (\<lambda>s. raw_connection (controlled s t))) body)"

section \<open>Savepoints\<close>

definition pg_savepoint :: "'w asyncpg \<Rightarrow> nat \<Rightarrow> string \<Rightarrow> ('w executor, nat) action" where
  "pg_savepoint c t name = bind (require_open (Controlled t)) (\<lambda>_.
     bind (ask (\<lambda>s. controlled s t)) (\<lambda>x.
     bind (pure (quote_point name)) (\<lambda>quoted.
     bind (reserve_name (kept_state x) quoted) (\<lambda>_.
     let text = ''savepoint '' @ quoted; k = raw_connection x in
     bind (on_error (controlled_run c (watcher_of x) text (execute_on c k text))
         (\<lambda>e. bind (act (release_names (kept_state x) {quoted})) (\<lambda>_. raise e))) (\<lambda>started.
     bind (ask points_made) (\<lambda>p.
     bind (act (\<lambda>s. register_point (kept_state x) p (update_controlled t
         (\<lambda>y. y\<lparr>taken_names := insert quoted (taken_names y), own_points := own_points y @ [p]\<rparr>)
         (s\<lparr>points_made := Suc p, points := (points s)(p :=
           \<lparr>owner = t, quoted_name = quoted, released = False, invalidated = False\<rparr>)\<rparr>)))) (\<lambda>_.
     on_error (bind (inform c (watcher_of x) text [] started (Some 0) None) (\<lambda>_. ret p))
       (\<lambda>e. bind (act (invalidate_point p)) (\<lambda>_.
         bind (on_error (execute_on c k (''release savepoint '' @ quoted)) (\<lambda>_. ret ())) (\<lambda>_. raise e))))))))))"

definition require_open_point :: "nat \<Rightarrow> ('w executor, unit) action" where
  "require_open_point p = bind (ask (\<lambda>s. points s p)) (\<lambda>x.
     bind (require_open (Controlled (owner x))) (\<lambda>_.
       pure (raise_if (released x \<or> invalidated x) (TransactionUnavailableError ''savepoint is no longer usable''))))"

definition point_failed :: "'w asyncpg \<Rightarrow> nat \<Rightarrow> exn \<Rightarrow> ('w executor, unit) action" where
  "point_failed c p e = bind (ask (\<lambda>s. owner (points s p))) (\<lambda>t.
     bind (act (\<lambda>s. invalidate_point p (invalidate_behind (kept_state (controlled s t)) (SavepointEntry p) s)))
       (\<lambda>_. recover_after_failure c t e))"

definition pg_release_point :: "'w asyncpg \<Rightarrow> nat \<Rightarrow> ('w executor, unit) action" where
  "pg_release_point c p = bind (require_open_point p) (\<lambda>_.
     bind (ask (\<lambda>s. points s p)) (\<lambda>x. bind (ask (\<lambda>s. controlled s (owner x))) (\<lambda>y.
     let text = ''release savepoint '' @ quoted_name x in
     try_else (controlled_run c (watcher_of y) text (execute_on c (raw_connection y) text))
       (point_failed c p)
       (\<lambda>started. bind (act (\<lambda>s. update_point p (\<lambda>z. z\<lparr>released := True\<rparr>) (release_point_object (owner x) p s)))
         (\<lambda>_. inform c (watcher_of y) text [] started (Some 0) None)))))"

definition pg_rollback_point :: "'w asyncpg \<Rightarrow> nat \<Rightarrow> ('w executor, unit) action" where
  "pg_rollback_point c p = bind (require_open_point p) (\<lambda>_.
     bind (ask (\<lambda>s. points s p)) (\<lambda>x. bind (ask (\<lambda>s. controlled s (owner x))) (\<lambda>y.
     let text = ''rollback to savepoint '' @ quoted_name x in
     try_else (controlled_run c (watcher_of y) text (execute_on c (raw_connection y) text))
       (point_failed c p)
       (\<lambda>started. bind (act (\<lambda>s. invalidate_behind (kept_state (controlled s (owner x))) (SavepointEntry p) s))
         (\<lambda>_. inform c (watcher_of y) text [] started (Some 0) None)))))"

end
