(* ===== verification/Postgres_Queries.thy ===== *)
theory Postgres_Queries
  imports Postgres_Executor
begin

text \<open>
  The queries of the PostgreSQL executor: fetching, executing, and streaming the rows of a SELECT through a cursor.
\<close>

section \<open>Queries\<close>

definition compile_pg :: "any_query \<Rightarrow> compiled_query result" where
  "compile_pg query = compile_postgres (state_node (extract_query query))"

text \<open>
  The frame of every query method: the work between the clock and the event.  \<open>work\<close> returns the result with the row
  count of the event.
\<close>

definition reported ::
  "'w asyncpg \<Rightarrow> pg_client \<Rightarrow> compiled_query \<Rightarrow> ('w executor, 'a \<times> int) action \<Rightarrow> ('w executor, 'a) action" where
  "reported c h compiled work = bind (ask (\<lambda>s. clock_of c (outer s))) (\<lambda>started.
     bind (ask (watcher h)) (\<lambda>observer.
     try_else work
       (\<lambda>e. bind (inform c observer (sql compiled) (parameters compiled) started None (Some e)) (\<lambda>_. raise e))
       (\<lambda>(result, count). bind (inform c observer (sql compiled) (parameters compiled) started (Some count) None)
         (\<lambda>_. ret result))))"

definition fetched_rows :: "'w asyncpg \<Rightarrow> pg_client \<Rightarrow> compiled_query \<Rightarrow> ('w executor, datum list list) action" where
  "fetched_rows c h compiled = connection_scope c h (\<lambda>k. beyond (fetch_records c k (sql compiled) (parameters compiled)))"

definition fetched_row :: "'w asyncpg \<Rightarrow> pg_client \<Rightarrow> compiled_query \<Rightarrow> ('w executor, datum list option) action" where
  "fetched_row c h compiled = connection_scope c h (\<lambda>k. beyond (fetch_record c k (sql compiled) (parameters compiled)))"

definition pg_fetch_all :: "'w asyncpg \<Rightarrow> pg_client \<Rightarrow> any_query \<Rightarrow> ('w executor, mapped list) action" where
  "pg_fetch_all c h query = bind (require_open h) (\<lambda>_. bind (pure (compile_pg query)) (\<lambda>compiled.
     reported c h compiled (bind (fetched_rows c h compiled) (\<lambda>rows.
       bind (pure (map_all query rows)) (\<lambda>result. ret (result, int (length rows)))))))"

definition pg_fetch_one :: "'w asyncpg \<Rightarrow> pg_client \<Rightarrow> any_query \<Rightarrow> ('w executor, mapped option) action" where
  "pg_fetch_one c h query = bind (require_open h) (\<lambda>_. bind (pure (compile_pg query)) (\<lambda>compiled.
     reported c h compiled (bind (fetched_row c h compiled) (\<lambda>row.
       bind (pure (map_one query row)) (\<lambda>result. ret (result, if row = None then 0 else 1))))))"

definition pg_fetch_all_as :: "'w asyncpg \<Rightarrow> pg_client \<Rightarrow> any_query \<Rightarrow> row_adapter \<Rightarrow> ('w executor, mapped list) action" where
  "pg_fetch_all_as c h query adapter = bind (require_open h) (\<lambda>_.
     bind (pure (reject_adapter query ''fetch_all'')) (\<lambda>_. bind (pure (compile_pg query)) (\<lambda>compiled.
     reported c h compiled (bind (fetched_rows c h compiled) (\<lambda>rows.
       bind (pure (map_results (\<lambda>row. and_then (adapter_map adapter row) (\<lambda>m. Inr (ModelRow m))) rows))
         (\<lambda>result. ret (result, int (length rows))))))))"

definition pg_fetch_one_as :: "'w asyncpg \<Rightarrow> pg_client \<Rightarrow> any_query \<Rightarrow> row_adapter \<Rightarrow> ('w executor, mapped option) action" where
  "pg_fetch_one_as c h query adapter = bind (require_open h) (\<lambda>_.
     bind (pure (reject_adapter query ''fetch_one'')) (\<lambda>_. bind (pure (compile_pg query)) (\<lambda>compiled.
     reported c h compiled (bind (fetched_row c h compiled) (\<lambda>row.
       bind (pure (case row of None \<Rightarrow> Inr None
           | Some r \<Rightarrow> and_then (adapter_map adapter r) (\<lambda>m. Inr (Some (ModelRow m)))))
         (\<lambda>result. ret (result, if row = None then 0 else 1)))))))"

definition pg_fetch_one_or_raise :: "'w asyncpg \<Rightarrow> pg_client \<Rightarrow> any_query \<Rightarrow> exn option \<Rightarrow> ('w executor, mapped) action" where
  "pg_fetch_one_or_raise c h query error = bind (pg_fetch_one c h query) (\<lambda>result. pure (or_raise error result))"

definition pg_fetch_one_as_or_raise ::
  "'w asyncpg \<Rightarrow> pg_client \<Rightarrow> any_query \<Rightarrow> row_adapter \<Rightarrow> exn option \<Rightarrow> ('w executor, mapped) action" where
  "pg_fetch_one_as_or_raise c h query adapter error =
     bind (pg_fetch_one_as c h query adapter) (\<lambda>result. pure (or_raise error result))"

text \<open>\<open>_command_count\<close>: what stands behind the last blank of the status must be a decimal number.\<close>

definition command_count :: "string \<Rightarrow> int result" where
  "command_count status = (let count = rev (takeWhile (\<lambda>c. c \<noteq> CHR '' '') (rev status)) in
     if count \<noteq> [] \<and> list_all digit count then Inr (int (foldl (\<lambda>n c. 10 * n + (code c - 48)) 0 count))
     else Inl (RuntimeError ''asyncpg returned an invalid command status'' [status]))"

definition pg_run_command :: "'w asyncpg \<Rightarrow> pg_client \<Rightarrow> any_query \<Rightarrow> ('w executor, int) action" where
  "pg_run_command c h query = bind (require_open h) (\<lambda>_.
     bind (pure (require_command query)) (\<lambda>_. bind (pure (compile_pg query)) (\<lambda>compiled.
     reported c h compiled (bind (connection_scope c h (\<lambda>k. beyond (run_statement c k (sql compiled) (parameters compiled)))) (\<lambda>status.
       bind (pure (command_count status)) (\<lambda>count. ret (count, count)))))))"

text \<open>The codec of intervals.\<close>

definition encode_interval :: "datum \<Rightarrow> (int \<times> int \<times> int) result" where
  "encode_interval v = (case v of IntervalValue months days microseconds \<Rightarrow> Inr (months, days, microseconds)
     | _ \<Rightarrow> Inl (TypeError ''PostgreSQL interval parameters must be relq.Interval values'' []))"

definition decode_interval :: "int \<times> int \<times> int \<Rightarrow> datum result" where
  "decode_interval v = (case v of (months, days, microseconds) \<Rightarrow>
     new_interval (IntValue months) (IntValue days) (IntValue microseconds))"

section \<open>Streams\<close>

definition cursor_batch_size :: nat where "cursor_batch_size = 100"

definition fresh_stream :: stream where
  "fresh_stream = \<lparr>phase = Waiting, rows_seen = 0, stream_error = None, consumer_error = False\<rparr>"

definition new_stream :: "('w executor, nat) action" where
  "new_stream = bind (ask streams_made) (\<lambda>i.
     bind (act (\<lambda>s. s\<lparr>streams_made := Suc i, streams := (streams s)(i := fresh_stream)\<rparr>)) (\<lambda>_. ret i))"

text \<open>
  One step of the generator \<open>_stream_rows\<close>: \<open>None\<close> is its end.  The first step declares the cursor; a step that finds
  no row left fetches the next batch.
\<close>

definition next_row :: "'w asyncpg \<Rightarrow> any_query \<Rightarrow> compiled_query \<Rightarrow> nat \<Rightarrow> nat \<Rightarrow> ('w executor, mapped option) action" where
  "next_row c query compiled k i = bind (ask (\<lambda>s. phase (streams s i))) (\<lambda>at_start.
     if at_start = Ended then ret None
     else on_error
       (bind (case at_start of Fetching name rows \<Rightarrow> ret (name, rows)
           | _ \<Rightarrow> bind (ask cursor_counter) (\<lambda>n. let name = ''relq_cursor_'' @ str_of_nat n in
               bind (act (\<lambda>s. s\<lparr>cursor_counter := Suc n\<rparr>)) (\<lambda>_.
               bind (beyond (run_statement c k (''declare '' @ name @ '' no scroll cursor for '' @ sql compiled) (parameters compiled)))
                 (\<lambda>_. ret (name, [])))))
         (\<lambda>(name, rows). bind (if rows = []
             then beyond (fetch_records c k (''fetch forward '' @ str_of_nat cursor_batch_size @ '' from '' @ name) []) else ret rows)
           (\<lambda>batch. case batch of
              [] \<Rightarrow> bind (act (update_stream i (\<lambda>x. x\<lparr>phase := Ended\<rparr>))) (\<lambda>_. ret None)
            | record # rest \<Rightarrow> bind (pure (map_row query record)) (\<lambda>row.
                bind (act (update_stream i (\<lambda>x. x\<lparr>phase := Fetching name rest, rows_seen := Suc (rows_seen x)\<rparr>)))
                  (\<lambda>_. ret (Some row))))))
       (\<lambda>e. bind (act (update_stream i (\<lambda>x. x\<lparr>phase := Ended, stream_error := Some e\<rparr>))) (\<lambda>_. raise e)))"

text \<open>
  \<open>aclose\<close> throws \<open>GeneratorExit\<close> where the generator stands; one that has not begun or has ended does not see it.
\<close>

definition generator_exit :: exn where "generator_exit = External False ''GeneratorExit''"

definition close_stream :: "nat \<Rightarrow> ('w executor, unit) action" where
  "close_stream i = act (update_stream i (\<lambda>x. case phase x of
       Fetching _ _ \<Rightarrow> x\<lparr>phase := Ended, stream_error := Some generator_exit\<rparr> | _ \<Rightarrow> x\<lparr>phase := Ended\<rparr>))"

text \<open>What is reported when the stream is over.\<close>

definition report_stream :: "'w asyncpg \<Rightarrow> nat option \<Rightarrow> compiled_query \<Rightarrow> int \<Rightarrow> nat \<Rightarrow> ('w executor, unit) action" where
  "report_stream c observer compiled started i = bind (ask (\<lambda>s. streams s i)) (\<lambda>x.
     inform c observer (sql compiled) (parameters compiled) started
       (if stream_error x = None then Some (int (rows_seen x)) else None) (stream_error x))"

text \<open>What happens to the transaction when its body raises: it is rolled back, and the stream remembers whose error it was.\<close>

definition stream_failed :: "'w asyncpg \<Rightarrow> nat \<Rightarrow> nat \<Rightarrow> exn \<Rightarrow> ('w executor, 'a) action" where
  "stream_failed c t i e = bind (ask (\<lambda>s. stream_error (streams s i) = None)) (\<lambda>consumer.
     bind (on_error (pg_rollback c t) (\<lambda>e'. bind (act (update_stream i (\<lambda>x. x\<lparr>stream_error := Some e'\<rparr>))) (\<lambda>_. raise e')))
       (\<lambda>_. bind (act (update_stream i (\<lambda>x. x\<lparr>consumer_error := consumer\<rparr>))) (\<lambda>_. raise e)))"

text \<open>
  \<open>async with database.fetch_iter(query) as rows: body\<close>.  The body is given the two operations of \<open>rows\<close>: asking for
  the next row and closing.
\<close>

definition fetch_iter :: "'w asyncpg \<Rightarrow> pg_client \<Rightarrow> any_query
    \<Rightarrow> (('w executor, mapped option) action \<Rightarrow> ('w executor, unit) action \<Rightarrow> ('w executor, 'a) action) \<Rightarrow> ('w executor, 'a) action" where
  "fetch_iter c h query body = bind (require_open h) (\<lambda>_.
     bind (pure (require_select query)) (\<lambda>_. bind (pure (compile_pg query)) (\<lambda>compiled.
     bind (ask (\<lambda>s. clock_of c (outer s))) (\<lambda>started. bind (ask (watcher h)) (\<lambda>observer. bind new_stream (\<lambda>i.
     finally_do
       (on_error
         (bind (pg_begin c h) (\<lambda>t. bind (ask (\<lambda>s. raw_connection (controlled s t))) (\<lambda>k.
           try_else (bind (on_error (beyond (set_interval_codec c k))
                 (\<lambda>e. bind (act (update_stream i (\<lambda>x. x\<lparr>stream_error := Some e\<rparr>))) (\<lambda>_. raise e)))
               (\<lambda>_. body (next_row c query compiled k i) (close_stream i)))
             (stream_failed c t i)
             (\<lambda>result. bind (pg_commit c t) (\<lambda>_. ret result)))))
         (\<lambda>e. bind (act (update_stream i (\<lambda>x. if consumer_error x then x else x\<lparr>stream_error := Some e\<rparr>))) (\<lambda>_. raise e)))
       (report_stream c observer compiled started i)))))))"

end
