(* ===== verification/Postgres_Pool_Laws.thy ===== *)
theory Postgres_Pool_Laws
  imports Postgres_Queries Frames
begin

text \<open>
  Pooled connections: every connection the executor takes from a pool goes back to it exactly once, however the work on
  it ends.  \<open>pool_laws\<close> says what of asyncpg this rests on.
\<close>

section \<open>The books of the pools\<close>

text \<open>
  \<open>out w k\<close> is how often the connection \<open>k\<close> is out of its pool.  Acquiring takes one out that is in and has no
  transaction, or raises and takes none; \<open>release\<close> gives its connection up even when it raises, as asyncpg then closes
  it; nothing else concerns the pools.
\<close>

definition pool_laws :: "'w asyncpg \<Rightarrow> ('w \<Rightarrow> nat \<Rightarrow> nat) \<Rightarrow> bool" where
  "pool_laws c out \<longleftrightarrow>
     (\<forall>k text params w. out (snd (run_statement c k text params w)) = out w
        \<and> out (snd (fetch_records c k text params w)) = out w \<and> out (snd (fetch_record c k text params w)) = out w)
   \<and> (\<forall>k w. out (snd (set_interval_codec c k w)) = out w)
   \<and> (\<forall>watcher event w. out (snd (tell c watcher event w)) = out w)
   \<and> (\<forall>p w. case acquire_from c p w of (Inl e, w') \<Rightarrow> out w' = out w
        | (Inr k, w') \<Rightarrow> out w k = 0 \<and> out w' = (out w)(k := 1) \<and> \<not> is_in_transaction c k w')
   \<and> (\<forall>p k w. out (snd (release_to c p k w)) = (out w)(k := out w k - 1))
   \<and> (\<forall>handles. set (visit c handles) \<subseteq> handles)"

text \<open>What a step leaves as it was: the books and the leases; handles may have been closed.\<close>

definition same_books :: "('w \<Rightarrow> nat \<Rightarrow> nat) \<Rightarrow> 'w executor \<Rightarrow> 'w executor \<Rightarrow> bool" where
  "same_books out s s' \<longleftrightarrow> out (outer s') = out (outer s)
     \<and> (\<forall>t. pool_connection (controlled s' t) = pool_connection (controlled s t)
          \<and> pool_of (controlled s' t) = pool_of (controlled s t) \<and> raw_connection (controlled s' t) = raw_connection (controlled s t)
          \<and> generated_savepoint (controlled s' t) = generated_savepoint (controlled s t))
     \<and> handles_on s' \<le> handles_on s \<and> controlled_made s' = controlled_made s"

lemma same_books_refl [simp]: "same_books out s s"
  by (simp add: same_books_def)

lemma same_books_trans: "same_books out s s' \<Longrightarrow> same_books out s' s'' \<Longrightarrow> same_books out s s''"
  unfolding same_books_def by (auto intro: order_trans)

interpretation books: frame "same_books out" for out :: "'w \<Rightarrow> nat \<Rightarrow> nat"
  by unfold_locales (auto intro: same_books_trans)

section \<open>Steps that leave the books alone\<close>

abbreviation frugal :: "('w \<Rightarrow> nat \<Rightarrow> nat) \<Rightarrow> ('w executor, 'a) action \<Rightarrow> bool" where
  "frugal out \<equiv> moves (same_books out)"

lemma frugal_beyond: "(\<And>w. out (snd (f w)) = out w) \<Longrightarrow> frugal out (beyond f)"
  by (auto simp: moves_def beyond_def same_books_def split: prod.split) (metis snd_conv)

lemma frugal_inform: "pool_laws c out \<Longrightarrow> frugal out (inform c observer text params started count error)"
  unfolding inform_def
  by (auto intro!: books.moves_control frugal_beyond simp: pool_laws_def split: option.split)

lemma frugal_execute: "pool_laws c out \<Longrightarrow> frugal out (execute_on c k text)"
  unfolding execute_on_def by (intro books.moves_control frugal_beyond) (simp add: pool_laws_def)

lemma frugal_run: "pool_laws c out \<Longrightarrow> frugal out m \<Longrightarrow> frugal out (controlled_run c observer text m)"
  unfolding controlled_run_def by (intro books.moves_control frugal_inform)

lemma frugal_recovery: "pool_laws c out \<Longrightarrow> frugal out (recovery_control c observer k text)"
  unfolding recovery_control_def by (intro books.moves_control frugal_inform frugal_run frugal_execute)

lemma frugal_control_of: "pool_laws c out \<Longrightarrow> frugal out (control_of c k b text)"
  unfolding control_of_def by (intro books.moves_control frugal_recovery)

text \<open>Registry operations.\<close>

lemma same_books_updates:
  "same_books out s (update_kept r f s)" "same_books out s (update_point p g s)" "same_books out s (update_stream i h s)"
  "(\<And>x. pool_connection (u x) = pool_connection x \<and> pool_of (u x) = pool_of x \<and> raw_connection (u x) = raw_connection x
     \<and> generated_savepoint (u x) = generated_savepoint x) \<Longrightarrow> same_books out s (update_controlled t u s)"
  by (simp_all add: same_books_def executor_updates)

lemma same_books_discard: "same_books out s (discard_state k r s)"
  by (simp add: same_books_def discard_state_def)

lemma same_books_forget: "same_books out s (forget_point t p s)"
  unfolding forget_point_def Let_def release_names_def drop_entry_def
  by (rule same_books_trans [OF _ same_books_updates(1)], rule same_books_trans [OF _ same_books_updates(4)],
      rule same_books_trans [OF _ same_books_updates(1)], rule same_books_updates(4)) simp_all

lemma same_books_invalidate_point: "same_books out s (invalidate_point p s)"
  by (auto simp: invalidate_point_def intro: same_books_trans [OF same_books_forget same_books_updates(2)])

lemma same_books_clear: "same_books out s (clear_names t s)"
  unfolding clear_names_def Let_def release_names_def
  by (rule same_books_trans [OF _ same_books_updates(4)], rule same_books_trans [OF _ same_books_updates(1)],
      rule same_books_trans [OF books.moves_fold same_books_updates(4)], rule same_books_invalidate_point) simp_all

lemma same_books_handles: "same_books out s (s\<lparr>handles_on := (handles_on s)(k := handles_on s k - A)\<rparr>)"
  by (auto simp: same_books_def le_fun_def)

lemma same_books_close: "same_books out s (close_controlled t s)"
  unfolding close_controlled_def Let_def drop_controlled_def drop_entry_def
  by (rule same_books_trans [OF _ same_books_discard], rule same_books_trans [OF _ same_books_handles],
      rule same_books_trans [OF _ same_books_updates(1)], rule same_books_trans [OF _ same_books_updates(1)],
      rule same_books_trans [OF same_books_clear same_books_updates(4)]) simp

lemma same_books_member: "same_books out s (invalidate_member e s)"
  by (cases e) (simp_all add: same_books_close same_books_invalidate_point)

lemma same_books_invalidate:
  "same_books out s (invalidate_behind r e s)" "same_books out s (invalidate_for_recovery t s)"
  "same_books out s (invalidate_subtree t s)"
  by (auto simp: invalidate_behind_def invalidate_for_recovery_def invalidate_registry_def invalidate_subtree_def
      intro!: books.moves_fold same_books_member same_books_trans [OF _ same_books_close] same_books_trans [OF _ same_books_updates(1)])

section \<open>Connections and leases\<close>

text \<open>
  The books balance when a connection is out once for the handle that has a lease on it and as often as \<open>F\<close> says for
  others: no two handles have the same lease, and a lease is on the connection of its handle.
\<close>

definition leased :: "'w executor \<Rightarrow> nat \<Rightarrow> bool" where
  "leased s k \<longleftrightarrow> (\<exists>t. pool_connection (controlled s t) = Some k)"

definition balanced :: "('w \<Rightarrow> nat \<Rightarrow> nat) \<Rightarrow> (nat \<Rightarrow> nat) \<Rightarrow> 'w executor \<Rightarrow> bool" where
  "balanced out F s \<longleftrightarrow> (\<forall>k. out (outer s) k = F k + (if leased s k then 1 else 0))
     \<and> (\<forall>t u k. pool_connection (controlled s t) = Some k \<and> pool_connection (controlled s u) = Some k \<longrightarrow> t = u)
     \<and> (\<forall>t. pool_connection (controlled s t) \<noteq> None \<longrightarrow> pool_of (controlled s t) \<noteq> None \<and> t < controlled_made s)"

definition stays_balanced :: "('w \<Rightarrow> nat \<Rightarrow> nat) \<Rightarrow> 'w executor \<Rightarrow> 'w executor \<Rightarrow> bool" where
  "stays_balanced out s s' \<longleftrightarrow> (\<forall>F. balanced out F s \<longrightarrow> balanced out F s')"

interpretation balance: frame "stays_balanced out" for out :: "'w \<Rightarrow> nat \<Rightarrow> nat"
  by unfold_locales (auto simp: stays_balanced_def)

lemma same_books_balanced: "same_books out s s' \<Longrightarrow> stays_balanced out s s'"
  by (auto simp: same_books_def stays_balanced_def balanced_def leased_def)

lemma frugal_balanced: "frugal out m \<Longrightarrow> moves (stays_balanced out) m"
  using same_books_balanced by (auto simp: moves_def)

lemma balanced_release_lease:
  assumes l: "pool_laws c out"
  shows "moves (stays_balanced out) (release_lease c t)"
  unfolding moves_def stays_balanced_def
proof (intro allI impI)
  fix s F assume b: "balanced out F s"
  let ?s = "update_controlled t (\<lambda>y. y\<lparr>pool_connection := None\<rparr>) s"
  show "balanced out F (snd (release_lease c t s))"
  proof (cases "pool_connection (controlled s t)")
    case None
    then have "?s = s" by (simp add: update_controlled_def fun_upd_idem_iff)
    then show ?thesis using b None by (simp add: release_lease_def action_defs split: option.split)
  next
    case (Some k)
    then obtain p where p: "pool_of (controlled s t) = Some p" using b by (fastforce simp: balanced_def)
    have books: "out (snd (release_to c p k w)) = (out w)(k := out w k - 1)" for w using l by (simp add: pool_laws_def)
    have outer: "outer ?s = outer s" "controlled_made ?s = controlled_made s" by (simp_all add: update_controlled_def)
    have lease: "pool_connection (controlled ?s u) = (if u = t then None else pool_connection (controlled s u))"
      "pool_of (controlled ?s u) = pool_of (controlled s u)" for u by (simp_all add: update_controlled_def)
    have sole: "pool_connection (controlled s u) = Some k \<Longrightarrow> u = t" for u using b Some by (auto simp: balanced_def)
    have "leased ?s k' \<longleftrightarrow> (\<exists>u. u \<noteq> t \<and> pool_connection (controlled s u) = Some k')" for k'
      by (auto simp: leased_def lease)
    then have "leased ?s k' \<longleftrightarrow> leased s k' \<and> k' \<noteq> k" for k'
      using Some sole unfolding leased_def by (metis option.inject)
    moreover have "leased s k" using Some by (auto simp: leased_def)
    moreover have "snd (release_lease c t s) = ?s\<lparr>outer := snd (release_to c p k (outer s))\<rparr>"
      using p Some outer by (simp add: release_lease_def action_defs beyond_def split: prod.split)
    ultimately show ?thesis
      using b by (auto simp: balanced_def leased_def lease books outer)
  qed
qed

lemma balanced_release_leases: "pool_laws c out \<Longrightarrow> moves (stays_balanced out) (release_leases c ts)"
  by (induction ts) (auto intro!: balance.moves_control balanced_release_lease)

lemma balanced_invalidate:
  "moves (stays_balanced out) (act (invalidate_behind r e))" "moves (stays_balanced out) (act (invalidate_subtree t))"
  "moves (stays_balanced out) (act (fold invalidate_for_recovery ts))" "moves (stays_balanced out) (act (close_controlled t))"
  by (intro frugal_balanced books.moves_act books.moves_fold same_books_invalidate same_books_close)+

lemma balanced_recover:
  assumes l: "pool_laws c out" and control: "\<And>text. frugal out (control text)"
  shows "moves (stays_balanced out) (recover_connection c k extra owns boundary control)"
  unfolding recover_connection_def
  by (intro balance.moves_control balanced_release_leases [OF l] balanced_invalidate frugal_balanced [OF control])

section \<open>Beginning\<close>

lemma wp_balanced:
  "moves (stays_balanced out) m \<Longrightarrow> balanced out F s \<Longrightarrow> wp m (\<lambda>_. balanced out F) (\<lambda>_. balanced out F) s"
  by (auto simp: moves_def stays_balanced_def wp_final)

lemma wp_frugal: "frugal out m \<Longrightarrow> wp m (\<lambda>_. same_books out s) (\<lambda>_. same_books out s) s"
  by (simp add: moves_def wp_final)

lemma frugal_state_for: "frugal out (state_for_connection k)"
  by (simp add: moves_def state_for_connection_def same_books_def split: option.split)

text \<open>A connection that is out for the running method and no handle yet.\<close>

definition taken :: "('w \<Rightarrow> nat \<Rightarrow> nat) \<Rightarrow> (nat \<Rightarrow> nat) \<Rightarrow> nat \<Rightarrow> 'w executor \<Rightarrow> bool" where
  "taken out F k s \<longleftrightarrow> balanced out (F(k := Suc (F k))) s \<and> \<not> leased s k"

lemma taken_same: "same_books out s s' \<Longrightarrow> taken out F k s \<Longrightarrow> taken out F k s'"
  using same_books_balanced [of out s s'] by (auto simp: taken_def stays_balanced_def leased_def same_books_def)

lemma wp_acquire:
  assumes l: "pool_laws c out" and b: "balanced out F s"
  shows "wp (beyond (acquire_from c p)) (\<lambda>k s'. taken out F k s' \<and> \<not> is_in_transaction c k (outer s')) (\<lambda>_. balanced out F) s"
proof -
  have law: "case acquire_from c p (outer s) of (Inl e, w') \<Rightarrow> out w' = out (outer s)
      | (Inr k, w') \<Rightarrow> out (outer s) k = 0 \<and> out w' = (out (outer s))(k := 1) \<and> \<not> is_in_transaction c k w'"
    using l unfolding pool_laws_def by (elim conjE) (erule allE, erule allE, assumption)
  obtain r w where r: "acquire_from c p (outer s) = (r, w)" by (cases "acquire_from c p (outer s)")
  show ?thesis
  proof (cases r)
    case (Inl e)
    then show ?thesis using law b r by (simp add: wp_def beyond_def balanced_def leased_def)
  next
    case (Inr k)
    then have k: "out (outer s) k = 0" "out w = (out (outer s))(k := 1)" "\<not> is_in_transaction c k w" using law r by simp_all
    then have free: "F k = 0" "\<not> leased s k" using b by (auto simp: balanced_def split: if_splits)
    have "leased (s\<lparr>outer := w\<rparr>) = leased s" by (simp add: leased_def fun_eq_iff)
    then have "taken out F k (s\<lparr>outer := w\<rparr>)" using b k free by (auto simp: taken_def balanced_def)
    then show ?thesis using Inr r k(3) by (simp add: wp_def beyond_def)
  qed
qed

lemma wp_give_back:
  assumes l: "pool_laws c out" and b: "balanced out (F(k := Suc (F k))) s"
  shows "wp (beyond (release_to c p k)) (\<lambda>_. balanced out F) (\<lambda>_. balanced out F) s"
proof -
  have "out (snd (release_to c p k (outer s))) = (out (outer s))(k := out (outer s) k - 1)"
    using l by (simp add: pool_laws_def)
  then show ?thesis
    using b by (auto simp: wp_final beyond_def balanced_def leased_def split: prod.split)
qed

lemma wp_new_controlled:
  assumes "case pool of None \<Rightarrow> balanced out F s | Some p \<Rightarrow> taken out F k s"
  shows "wp (new_controlled k observer pool r name) (\<lambda>_. balanced out F) (\<lambda>_. balanced out F) s"
proof -
  have same: "wp (state_for_connection k) (\<lambda>_. same_books out s) (\<lambda>_ _. False) s"
    by (simp add: wp_def state_for_connection_def same_books_def split: option.split)
  show ?thesis
    unfolding new_controlled_def wp_bind wp_ask wp_act wp_ret
  proof (rule wp_mono [OF same])
    fix s' assume s': "same_books out s s'"
    let ?t = "controlled_made s'"
    have pre: "case pool of None \<Rightarrow> balanced out F s' | Some p \<Rightarrow> taken out F k s'"
      using assms s' same_books_balanced [OF s'] by (auto simp: stays_balanced_def taken_same split: option.splits)
    then have fresh: "pool_connection (controlled s' ?t) = None"
      by (auto simp: balanced_def taken_def split: option.splits)
    define s2 where "s2 = register_controlled r ?t (s'\<lparr>controlled_made := Suc ?t,
           controlled := (controlled s')(?t := \<lparr>kept_state = r, raw_connection = k, watcher_of = observer,
             taken_names = set_option name, own_points = [], generated_savepoint = name, is_closed = False,
             pool_of = pool, pool_connection = (if pool = None then None else Some k)\<rparr>),
           handles_on := (handles_on s')(k := insert ?t (handles_on s' k))\<rparr>)"
    have facts: "outer s2 = outer s'" "controlled_made s2 = Suc ?t"
      "pool_connection (controlled s2 u) = (if u = ?t then (if pool = None then None else Some k) else pool_connection (controlled s' u))"
      "pool_of (controlled s2 u) = (if u = ?t then pool else pool_of (controlled s' u))" for u
      by (simp_all add: s2_def register_controlled_def update_kept_def)
    have "balanced out F s2"
    proof (cases pool)
      case None
      then have "pool_connection (controlled s2 u) = pool_connection (controlled s' u)" for u using facts fresh by simp
      then show ?thesis using pre None fresh by (auto simp: balanced_def leased_def facts(1,2,4) less_Suc_eq)
    next
      case (Some p)
      then have "leased s2 k' \<longleftrightarrow> leased s' k' \<or> k' = k" for k'
        unfolding leased_def facts(3) using fresh by (metis option.distinct(1) option.inject)
      then show ?thesis using pre Some
        by (auto simp: balanced_def taken_def leased_def facts less_Suc_eq split: if_splits)
    qed
    then show "balanced out F (register_controlled r ?t (s'\<lparr>controlled_made := Suc ?t,
           controlled := (controlled s')(?t := \<lparr>kept_state = r, raw_connection = k, watcher_of = observer,
             taken_names = set_option name, own_points = [], generated_savepoint = name, is_closed = False,
             pool_of = pool, pool_connection = (if pool = None then None else Some k)\<rparr>),
           handles_on := (handles_on s')(k := insert ?t (handles_on s' k))\<rparr>))" by (simp only: s2_def)
  qed simp
qed

lemma balanced_wp:
  "(\<And>F s. balanced out F s \<Longrightarrow> wp m (\<lambda>_. balanced out F) (\<lambda>_. balanced out F) s) \<Longrightarrow> moves (stays_balanced out) m"
  by (simp add: moves_def stays_balanced_def wp_final)

lemma balanced_new: "moves (stays_balanced out) (new_controlled k observer None r name)"
  by (rule balanced_wp) (rule wp_new_controlled, simp)

lemma frugal_reserve: "frugal out (reserve_name r name)"
  unfolding reserve_name_def by (intro books.moves_control books.moves_act same_books_updates)

lemma frugal_new_name: "frugal out new_savepoint_name"
  unfolding new_savepoint_name_def by (intro books.moves_control books.moves_act) (simp add: same_books_def)

lemma balanced_cleanup:
  assumes "pool_laws c out"
  shows "moves (stays_balanced out) (cleanup_savepoint c k name boundary)"
  unfolding cleanup_savepoint_def
  by (cases boundary) (auto intro!: balance.moves_on_error balanced_recover assms frugal_execute frugal_control_of
      frugal_balanced [OF books.moves_bind])

lemma frugal_boundary:
  "pool_laws c out \<Longrightarrow> frugal out ((case boundary of None \<Rightarrow> recovery_control c observer k | Some b \<Rightarrow> control_of c k b) text)"
  by (cases boundary) (simp_all add: frugal_recovery frugal_control_of)

lemma begin_on_connection_balanced:
  assumes l: "pool_laws c out"
  shows "moves (stays_balanced out) (begin_controlled c observer None k kept)"
  unfolding begin_controlled_def start_failed_def undo_start_def option.case Let_def release_pool_connection_def
  by (intro balance.moves_control balanced_new balanced_recover [OF l] frugal_boundary [OF l] frugal_recovery [OF l] balanced_cleanup [OF l]
      frugal_balanced [OF frugal_state_for] frugal_balanced [OF frugal_new_name] frugal_balanced [OF frugal_execute [OF l]]
      frugal_balanced [OF frugal_inform [OF l]] frugal_balanced [OF frugal_reserve])

lemma wp_taken:
  assumes "frugal out m" "taken out F k s"
  shows "wp m (\<lambda>_. taken out F k) (\<lambda>_. taken out F k) s"
  by (rule wp_mono [OF wp_frugal [OF assms(1)]]) (use assms(2) in \<open>auto intro: taken_same\<close>)

lemma wp_state_for_taken:
  assumes "taken out F k s" "\<not> is_in_transaction c k (outer s)"
  shows "wp (case kept of None \<Rightarrow> state_for_connection k | Some r \<Rightarrow> ret r)
      (\<lambda>r s'. taken out F k s' \<and> \<not> is_in_transaction c k (outer s')) (\<lambda>_ _. False) s"
  using assms taken_same [of out s _ F k]
  by (cases kept) (auto simp: wp_def ret_def state_for_connection_def same_books_def split: option.split)

lemma wp_returned:
  assumes l: "pool_laws c out" and m: "moves (stays_balanced out) m" and t: "taken out F k s"
  shows "wp (finally_do m (release_pool_connection c (Some p) k)) (\<lambda>_. balanced out F) (\<lambda>_. balanced out F) s"
  unfolding finally_do_def wp_bind wp_outcome wp_pure release_pool_connection_def option.case
  by (rule wp_mono [OF wp_balanced [OF m, of "F(k := Suc (F k))"]])
    (use t in \<open>auto simp: taken_def split: sum.split intro!: wp_mono [OF wp_give_back [OF l]]\<close>)

text \<open>The transaction of an idle pooled connection: it becomes the lease of the new handle, or it goes back.\<close>

lemma wp_opened:
  assumes l: "pool_laws c out" and t: "taken out F k s"
  shows "wp (try_else (execute_on c k ''begin'') (start_failed c observer (Some p) k ''begin'' True None started)
      (\<lambda>_. bind (on_error (bind (inform c observer ''begin'' [] started (Some 0) None) (\<lambda>_. ret ()))
          (undo_start c observer (Some p) k None None))
        (\<lambda>_. new_controlled k observer (Some p) r None))) (\<lambda>_. balanced out F) (\<lambda>_. balanced out F) s"
  unfolding wp_try_else
proof (rule wp_mono [OF wp_taken [OF frugal_execute [OF l] t]])
  fix s3 assume t: "taken out F k s3"
  show "wp (bind (on_error (bind (inform c observer ''begin'' [] started (Some 0) None) (\<lambda>_. ret ()))
        (undo_start c observer (Some p) k None None)) (\<lambda>_. new_controlled k observer (Some p) r None))
      (\<lambda>_. balanced out F) (\<lambda>_. balanced out F) s3"
    unfolding wp_on_error wp_bind wp_ret undo_start_def option.case wp_raise
    by (rule wp_mono [OF wp_taken [OF frugal_inform [OF l] t]])
      (auto intro!: wp_new_controlled wp_mono [OF wp_returned [OF l balanced_recover [OF l frugal_recovery [OF l]]]])
next
  fix e s3 assume t: "taken out F k s3"
  show "wp (start_failed c observer (Some p) k ''begin'' True None started e) (\<lambda>_. balanced out F) (\<lambda>_. balanced out F) s3"
    unfolding start_failed_def wp_bind wp_raise option.case
    by (rule wp_mono [OF wp_returned [OF l frugal_balanced [OF frugal_inform [OF l]] t]])
qed

lemma begin_on_pool_balanced:
  assumes l: "pool_laws c out"
  shows "moves (stays_balanced out) (begin_controlled c observer (Some p) k kept)"
proof (rule balanced_wp)
  fix F s assume b: "balanced out F s"
  show "wp (begin_controlled c observer (Some p) k kept) (\<lambda>_. balanced out F) (\<lambda>_. balanced out F) s"
    unfolding begin_controlled_def option.case Let_def
    by (subst wp_bind, rule wp_mono [OF wp_acquire [OF l b]], elim conjE)
      (subst wp_bind, rule wp_mono [OF wp_state_for_taken], assumption, assumption, elim conjE,
        simp only: wp_bind wp_ask wp_ret if_False simp_thms option.case control_sql.simps, rule wp_opened [OF l], assumption, erule FalseE, assumption)
qed

section \<open>Completing\<close>

lemma balanced_failure:
  assumes l: "pool_laws c out"
  shows "moves (stays_balanced out) (recover_after_failure c t e)"
  unfolding recover_after_failure_def
  by (intro balance.moves_control balanced_recover [OF l] frugal_control_of [OF l])

lemma balanced_run:
  assumes l: "pool_laws c out"
  shows "moves (stays_balanced out) (controlled_run c observer text (execute_on c k text'))"
  by (intro frugal_balanced frugal_run [OF l] frugal_execute [OF l])

lemmas balanced_outside = balanced_run frugal_balanced [OF frugal_inform] frugal_balanced [OF frugal_execute]

lemma balanced_require_open: "moves (stays_balanced out) (require_open h)"
  unfolding require_open_def by (cases h) (auto intro: balance.moves_control)

lemma commit_balanced:
  assumes l: "pool_laws c out"
  shows "moves (stays_balanced out) (pg_commit c t)"
  unfolding pg_commit_def Let_def
  by (intro balance.moves_control balanced_require_open balanced_invalidate balanced_failure [OF l] balanced_outside [OF l]
      balanced_release_lease [OF l])

lemma rollback_balanced:
  assumes l: "pool_laws c out"
  shows "moves (stays_balanced out) (pg_rollback c t)"
  unfolding pg_rollback_def rollback_statements_def Let_def
  by (intro balance.moves_control balanced_require_open balanced_invalidate balanced_failure [OF l] balanced_outside [OF l]
      balanced_release_lease [OF l])

lemma release_ends_lease:
  "wp (release_lease c t) (\<lambda>_ s'. pool_connection (controlled s' t) = None) (\<lambda>_ s'. pool_connection (controlled s' t) = None) s"
  by (auto simp: release_lease_def action_defs wp_final beyond_def update_controlled_def split: option.split prod.split)

lemma finally_ends_lease:
  "wp (finally_do m (release_lease c t)) (\<lambda>_ s'. pool_connection (controlled s' t) = None)
     (\<lambda>_ s'. pool_connection (controlled s' t) = None) s"
  unfolding wp_finally by (rule wp_always) (rule release_ends_lease)+

lemma completion_ends_lease:
  assumes "\<not> is_closed (controlled s t)"
  shows "wp (pg_commit c t) (\<lambda>_ s'. pool_connection (controlled s' t) = None) (\<lambda>_ s'. pool_connection (controlled s' t) = None) s"
    "wp (pg_rollback c t) (\<lambda>_ s'. pool_connection (controlled s' t) = None) (\<lambda>_ s'. pool_connection (controlled s' t) = None) s"
  unfolding pg_commit_def pg_rollback_def require_open_def pg_client.case wp_bind wp_ask wp_pure wp_act Let_def
  using assms by (simp_all add: finally_ends_lease)

section \<open>Savepoints and queries\<close>

lemma savepoints_balanced:
  assumes l: "pool_laws c out"
  shows "moves (stays_balanced out) (pg_savepoint c t name)" "moves (stays_balanced out) (pg_release_point c p)"
    "moves (stays_balanced out) (pg_rollback_point c p)"
proof -
  have new: "moves (stays_balanced out) (act (\<lambda>s. register_point r q (update_controlled t
      (\<lambda>y. y\<lparr>taken_names := insert quoted (taken_names y), own_points := own_points y @ [q]\<rparr>) (s\<lparr>points_made := n, points := f s\<rparr>))))"
    for r q quoted n f
    by (intro frugal_balanced books.moves_act) (simp add: same_books_def register_point_def executor_updates)
  have small: "moves (stays_balanced out) (act (release_names r names))" "moves (stays_balanced out) (act (invalidate_point q))"
    "moves (stays_balanced out) (act (\<lambda>s. invalidate_point q (invalidate_behind (g s) e s)))"
    "moves (stays_balanced out) (act (\<lambda>s. invalidate_behind (g s) e s))"
    "moves (stays_balanced out) (act (\<lambda>s. update_point q h (release_point_object u q s)))" for r names q e g h u
    unfolding release_names_def release_point_object_def
    by (intro frugal_balanced books.moves_act same_books_updates same_books_invalidate_point same_books_invalidate
        same_books_trans [OF same_books_invalidate(1) same_books_invalidate_point]
        same_books_trans [OF same_books_trans [OF same_books_invalidate(1) same_books_forget] same_books_updates(2)])+
  note rules = balance.moves_control balanced_require_open balanced_failure [OF l] balanced_outside [OF l] new small
    frugal_balanced [OF frugal_reserve]
  show "moves (stays_balanced out) (pg_savepoint c t name)"
    unfolding pg_savepoint_def Let_def by (intro rules)
  show "moves (stays_balanced out) (pg_release_point c p)" "moves (stays_balanced out) (pg_rollback_point c p)"
    unfolding pg_release_point_def pg_rollback_point_def require_open_point_def point_failed_def Let_def by (intro rules)+
qed

lemma scope_balanced:
  assumes l: "pool_laws c out" and work: "\<And>k. moves (stays_balanced out) (work k)"
  shows "moves (stays_balanced out) (connection_scope c h work)"
proof -
  have codec: "moves (stays_balanced out) (beyond (set_interval_codec c k))" for k
    by (intro frugal_balanced frugal_beyond) (use l in \<open>simp add: pool_laws_def\<close>)
  show ?thesis
  proof (cases h)
    case (PoolDatabase p observer)
    show ?thesis
    proof (rule balanced_wp)
      fix F s assume b: "balanced out F s"
      show "wp (connection_scope c h work) (\<lambda>_. balanced out F) (\<lambda>_. balanced out F) s"
        unfolding PoolDatabase connection_scope_def pg_client.case wp_bind [of "beyond (acquire_from c p)"] wp_finally
      proof (rule wp_mono [OF wp_acquire [OF l b]], elim conjE)
        fix k s1 assume "taken out F k s1"
        then have "wp (bind (beyond (set_interval_codec c k)) (\<lambda>_. work k)) (\<lambda>_. balanced out (F(k := Suc (F k))))
            (\<lambda>_. balanced out (F(k := Suc (F k)))) s1"
          by (intro wp_balanced balance.moves_control codec work) (simp add: taken_def)
        then show "wp (bind (beyond (set_interval_codec c k)) (\<lambda>_. work k))
            (\<lambda>_. wp (beyond (release_to c p k)) (\<lambda>_. balanced out F) (\<lambda>_. balanced out F))
            (\<lambda>_. wp (beyond (release_to c p k)) (\<lambda>_. balanced out F) (\<lambda>_. balanced out F)) s1"
          by (rule wp_mono) (auto intro: wp_give_back [OF l])
      qed simp
    qed
  qed (auto simp: connection_scope_def intro!: balance.moves_control codec work)
qed

lemma begin_balanced:
  assumes l: "pool_laws c out"
  shows "moves (stays_balanced out) (pg_begin c h)"
proof -
  have "moves (stays_balanced out) (begin_controlled c observer pool k kept)" for observer pool k kept
    by (cases pool) (simp_all add: begin_on_connection_balanced [OF l] begin_on_pool_balanced [OF l])
  then show ?thesis
    unfolding pg_begin_def
    by (cases h) (auto intro!: balance.moves_control balanced_require_open frugal_balanced [OF frugal_state_for])
qed

lemma reported_balanced:
  assumes l: "pool_laws c out" and work: "moves (stays_balanced out) work"
  shows "moves (stays_balanced out) (reported c h compiled work)"
  unfolding reported_def by (intro balance.moves_control balanced_outside [OF l] work)

lemma frugal_fetches:
  assumes l: "pool_laws c out"
  shows "frugal out (beyond (fetch_records c k text params))" "frugal out (beyond (fetch_record c k text params))"
    "frugal out (beyond (run_statement c k text params))" "frugal out (beyond (set_interval_codec c k))"
  by (intro frugal_beyond; use l in \<open>simp add: pool_laws_def\<close>)+

lemma queries_balanced:
  assumes l: "pool_laws c out"
  shows "moves (stays_balanced out) (pg_fetch_all c h query)" "moves (stays_balanced out) (pg_fetch_one c h query)"
    "moves (stays_balanced out) (pg_fetch_all_as c h query adapter)" "moves (stays_balanced out) (pg_fetch_one_as c h query adapter)"
    "moves (stays_balanced out) (pg_run_command c h query)"
  unfolding pg_fetch_all_def pg_fetch_one_def pg_fetch_all_as_def pg_fetch_one_as_def pg_run_command_def fetched_rows_def fetched_row_def
  by (intro balance.moves_control balanced_require_open reported_balanced [OF l] scope_balanced [OF l]
      frugal_balanced [OF frugal_fetches(1) [OF l]] frugal_balanced [OF frugal_fetches(2) [OF l]] frugal_balanced [OF frugal_fetches(3) [OF l]])+

lemma frugal_stream_update: "frugal out (act (update_stream i f))"
  by (intro books.moves_act same_books_updates)

lemma next_row_frugal:
  assumes l: "pool_laws c out"
  shows "frugal out (next_row c query compiled k i)"
proof -
  have count: "frugal out (act (\<lambda>s. s\<lparr>cursor_counter := n\<rparr>))" for n
    by (intro books.moves_act) (simp add: same_books_def)
  have batch: "frugal out (case b of [] \<Rightarrow> bind (act (update_stream i f)) (\<lambda>_. ret None)
      | record # rest \<Rightarrow> bind (pure (map_row query record)) (\<lambda>row. bind (act (update_stream i (g record rest))) (\<lambda>_. ret (Some row))))"
    for b f g
    by (cases b) (auto intro!: books.moves_control frugal_stream_update)
  have start: "frugal out (case ph of Fetching name rows \<Rightarrow> ret (name, rows)
           | _ \<Rightarrow> bind (ask cursor_counter) (\<lambda>n. let name = ''relq_cursor_'' @ str_of_nat n in
               bind (act (\<lambda>s. s\<lparr>cursor_counter := Suc n\<rparr>)) (\<lambda>_.
               bind (beyond (run_statement c k (''declare '' @ name @ '' no scroll cursor for '' @ sql compiled) (parameters compiled)))
                 (\<lambda>_. ret (name, [])))))" for ph
    unfolding Let_def by (cases ph) (auto intro!: books.moves_control count frugal_fetches(3) [OF l])
  show ?thesis
    unfolding next_row_def
    by (intro books.moves_control start batch frugal_fetches(1) [OF l] frugal_stream_update)
qed

lemma close_stream_frugal: "frugal out (close_stream i)"
  unfolding close_stream_def by (rule frugal_stream_update)

lemma stream_balanced:
  assumes l: "pool_laws c out"
    and body: "\<And>next_of close. moves (stays_balanced out) next_of \<Longrightarrow> moves (stays_balanced out) close
      \<Longrightarrow> moves (stays_balanced out) (body next_of close)"
  shows "moves (stays_balanced out) (fetch_iter c h query body)"
proof -
  have new: "frugal out new_stream"
    unfolding new_stream_def by (intro books.moves_control books.moves_act) (simp add: same_books_def)
  have failed: "moves (stays_balanced out) (stream_failed c t i e)" for t i e
    unfolding stream_failed_def
    by (intro balance.moves_control rollback_balanced [OF l] frugal_balanced [OF frugal_stream_update])
  show ?thesis
    unfolding fetch_iter_def report_stream_def
    by (intro balance.moves_control balanced_require_open begin_balanced [OF l] commit_balanced [OF l] failed body
        frugal_balanced [OF new] frugal_balanced [OF frugal_stream_update] frugal_balanced [OF frugal_fetches(4) [OF l]]
        frugal_balanced [OF next_row_frugal [OF l]] frugal_balanced [OF close_stream_frugal] balanced_outside [OF l])
qed

section \<open>Programs\<close>

text \<open>A consumer of a stream: it takes up to \<open>n\<close> rows, then leaves, closes the stream, or raises.\<close>

datatype consumer_end = Leave | CloseStream | RaiseError exn

fun consume :: "nat \<Rightarrow> consumer_end \<Rightarrow> ('s, mapped option) action \<Rightarrow> ('s, unit) action \<Rightarrow> ('s, unit) action" where
  "consume 0 ending next_of close = (case ending of Leave \<Rightarrow> ret () | CloseStream \<Rightarrow> close | RaiseError e \<Rightarrow> raise e)"
| "consume (Suc n) ending next_of close = bind next_of (\<lambda>row. case row of
     None \<Rightarrow> consume 0 ending next_of close | Some _ \<Rightarrow> consume n ending next_of close)"

text \<open>
  The states a program reaches: it makes databases, begins and completes transactions and savepoints, queries and
  streams, in any order, and goes on after every exception.  A \<open>with\<close> block is a beginning, calls, and a completion.
\<close>

inductive pg_run :: "'w asyncpg \<Rightarrow> 'w executor \<Rightarrow> 'w executor \<Rightarrow> bool" for c start where
  run_start: "pg_run c start start"
| run_database: "pg_run c start s \<Longrightarrow> pg_run c start (snd (new_pg_database k observer s))"
| run_begin: "pg_run c start s \<Longrightarrow> pg_run c start (snd (pg_begin c h s))"
| run_commit: "pg_run c start s \<Longrightarrow> pg_run c start (snd (pg_commit c t s))"
| run_rollback: "pg_run c start s \<Longrightarrow> pg_run c start (snd (pg_rollback c t s))"
| run_savepoint: "pg_run c start s \<Longrightarrow> pg_run c start (snd (pg_savepoint c t name s))"
| run_release_point: "pg_run c start s \<Longrightarrow> pg_run c start (snd (pg_release_point c p s))"
| run_rollback_point: "pg_run c start s \<Longrightarrow> pg_run c start (snd (pg_rollback_point c p s))"
| run_fetch_all: "pg_run c start s \<Longrightarrow> pg_run c start (snd (pg_fetch_all c h query s))"
| run_fetch_one: "pg_run c start s \<Longrightarrow> pg_run c start (snd (pg_fetch_one c h query s))"
| run_fetch_all_as: "pg_run c start s \<Longrightarrow> pg_run c start (snd (pg_fetch_all_as c h query adapter s))"
| run_fetch_one_as: "pg_run c start s \<Longrightarrow> pg_run c start (snd (pg_fetch_one_as c h query adapter s))"
| run_execute: "pg_run c start s \<Longrightarrow> pg_run c start (snd (pg_run_command c h query s))"
| run_stream: "pg_run c start s \<Longrightarrow> pg_run c start (snd (fetch_iter c h query (consume n ending) s))"

lemma consume_balanced:
  "moves (stays_balanced out) next_of \<Longrightarrow> moves (stays_balanced out) close \<Longrightarrow> moves (stays_balanced out) (consume n ending next_of close)"
  by (induction n) (auto intro!: balance.moves_control split: consumer_end.split)

lemma moves_step: "moves R m \<Longrightarrow> R s (snd (m s))"
  by (simp add: moves_def)

lemma pg_run_balanced:
  assumes l: "pool_laws c out" and run: "pg_run c start s"
  shows "stays_balanced out start s"
  using run
proof induction
  case run_start
  show ?case by (rule balance.same)
next
  case (run_database s k observer)
  have "moves (stays_balanced out) (new_pg_database k observer)"
    unfolding new_pg_database_def by (intro balance.moves_control frugal_balanced [OF frugal_state_for])
  with run_database.IH show ?case by (blast intro: balance.steps moves_step)
qed (blast intro: balance.steps moves_step begin_balanced [OF l] commit_balanced [OF l] rollback_balanced [OF l]
    savepoints_balanced [OF l] queries_balanced [OF l] stream_balanced [OF l] consume_balanced)+


section \<open>A pool of idle connections\<close>

definition fresh_executor :: "'w \<Rightarrow> 'w executor" where
  "fresh_executor w = \<lparr>kept_registries = (\<lambda>_. empty_registry), registries_made = 0, state_of_connection = Map.empty,
     handles_on = (\<lambda>_. {}), controlled = (\<lambda>_. \<lparr>kept_state = 0, raw_connection = 0, watcher_of = None, taken_names = {},
       own_points = [], generated_savepoint = None, is_closed = True, pool_of = None, pool_connection = None\<rparr>),
     controlled_made = 0, points = (\<lambda>_. \<lparr>owner = 0, quoted_name = [], released = True, invalidated = True\<rparr>), points_made = 0,
     streams = (\<lambda>_. fresh_stream), streams_made = 0, name_counter = 1, cursor_counter = 1, outer = w\<rparr>"

text \<open>One connection, numbered 7; \<open>busy\<close> says whether it has a transaction when it is acquired.\<close>

definition sample_pool :: "bool \<Rightarrow> unit result \<Rightarrow> (nat \<Rightarrow> nat) asyncpg" where
  "sample_pool busy told = \<lparr>run_statement = (\<lambda>_ _ _ w. (Inr ''OK 0'', w)), fetch_records = (\<lambda>_ _ _ w. (Inr [], w)),
     fetch_record = (\<lambda>_ _ _ w. (Inr None, w)), set_interval_codec = (\<lambda>_ w. (Inr (), w)),
     acquire_from = (\<lambda>_ w. if w 7 = 0 then (Inr 7, w(7 := 1)) else (Inl (External True ''timeout''), w)),
     release_to = (\<lambda>_ k w. (Inr (), w(k := w k - 1))), is_in_transaction = (\<lambda>_ _. busy), clock_of = (\<lambda>_. 0),
     tell = (\<lambda>_ _ w. (told, w)), visit = (\<lambda>handles. if finite handles then sorted_list_of_set handles else [])\<rparr>"

lemma sample_pool_laws: "pool_laws (sample_pool False told) (\<lambda>w. w)"
  by (auto simp: pool_laws_def sample_pool_def fun_eq_iff)


text \<open>
  The law that an acquired connection has no transaction is needed: when the pool hands out one that has, as a set-up
  hook may leave it, and the observer raises what is not an \<open>Exception\<close>, \<open>begin\<close> raises and keeps the connection.
\<close>

theorem interrupted_begin_leaks:
  "pg_begin (sample_pool True (Inl (External False ''KeyboardInterrupt''))) (PoolDatabase 0 (Some 0)) (fresh_executor (\<lambda>_. 0)) = (r, s)
     \<Longrightarrow> r = Inl (External False ''KeyboardInterrupt'') \<and> outer s 7 = 1 \<and> pool_connection (controlled s t) = None"
  by (auto simp: pg_begin_def begin_controlled_def sample_pool_def fresh_executor_def action_defs beyond_def inform_def on_exception_def
      is_exception_def undo_start_def cleanup_savepoint_def execute_on_def state_for_connection_def new_savepoint_name_def
      require_open_def watcher_def quote_point_def checks.simps and_then_def str_of_nat_def nat_digits.simps utf8_def code_def raise_if_def empty_registry_def)

end
