(* ===== verification/Postgres_Registry_Laws.thy ===== *)
theory Postgres_Registry_Laws
  imports Postgres_Pool_Laws
begin

text \<open>
  The registries of the PostgreSQL executor: in every state a program reaches they list exactly the open handles, and
  completing a handle, however it ends, closes it and every handle begun after it.
\<close>

section \<open>What the registries list\<close>

fun begun_before :: "entry \<Rightarrow> entry \<Rightarrow> bool" where
  "begun_before (TransactionEntry t) (TransactionEntry u) \<longleftrightarrow> t < u"
| "begun_before _ _ \<longleftrightarrow> True"

definition listed :: "'w executor \<Rightarrow> bool" where
  "listed s \<longleftrightarrow> (\<forall>r. distinct (entries (kept_registries s r)) \<and> sorted_wrt begun_before (entries (kept_registries s r)))
     \<and> (\<forall>r t. TransactionEntry t \<in> set (entries (kept_registries s r)) \<longleftrightarrow> \<not> is_closed (controlled s t) \<and> kept_state (controlled s t) = r)
     \<and> (\<forall>r p. SavepointEntry p \<in> set (entries (kept_registries s r)) \<longrightarrow> p < points_made s)
     \<and> (\<forall>k t. t \<in> handles_on s k \<longleftrightarrow> \<not> is_closed (controlled s t) \<and> raw_connection (controlled s t) = k)
     \<and> (\<forall>t. \<not> is_closed (controlled s t) \<longrightarrow> t < controlled_made s \<and> kept_state (controlled s t) < registries_made s)
     \<and> (\<forall>r \<ge> registries_made s. entries (kept_registries s r) = [])
     \<and> (\<forall>k r. state_of_connection s k = Some r \<longrightarrow> r < registries_made s)"

lemma listedI:
  assumes "\<And>r. distinct (entries (kept_registries s r))" "\<And>r. sorted_wrt begun_before (entries (kept_registries s r))"
    "\<And>r t. TransactionEntry t \<in> set (entries (kept_registries s r)) \<longleftrightarrow> \<not> is_closed (controlled s t) \<and> kept_state (controlled s t) = r"
    "\<And>r p. SavepointEntry p \<in> set (entries (kept_registries s r)) \<Longrightarrow> p < points_made s"
    "\<And>k t. t \<in> handles_on s k \<longleftrightarrow> \<not> is_closed (controlled s t) \<and> raw_connection (controlled s t) = k"
    "\<And>t. \<not> is_closed (controlled s t) \<Longrightarrow> t < controlled_made s"
    "\<And>t. \<not> is_closed (controlled s t) \<Longrightarrow> kept_state (controlled s t) < registries_made s"
    "\<And>r. registries_made s \<le> r \<Longrightarrow> entries (kept_registries s r) = []"
    "\<And>k r. state_of_connection s k = Some r \<Longrightarrow> r < registries_made s"
  shows "listed s"
  unfolding listed_def using assms by blast

lemma listedD:
  assumes "listed s"
  shows "distinct (entries (kept_registries s r))" "sorted_wrt begun_before (entries (kept_registries s r))"
    "TransactionEntry t \<in> set (entries (kept_registries s r)) \<longleftrightarrow> \<not> is_closed (controlled s t) \<and> kept_state (controlled s t) = r"
    "SavepointEntry p \<in> set (entries (kept_registries s r)) \<Longrightarrow> p < points_made s"
    "t \<in> handles_on s k \<longleftrightarrow> \<not> is_closed (controlled s t) \<and> raw_connection (controlled s t) = k"
    "\<not> is_closed (controlled s t) \<Longrightarrow> t < controlled_made s"
    "\<not> is_closed (controlled s t) \<Longrightarrow> kept_state (controlled s t) < registries_made s"
    "registries_made s \<le> r \<Longrightarrow> entries (kept_registries s r) = []"
    "state_of_connection s k = Some r \<Longrightarrow> r < registries_made s"
  using assms unfolding listed_def by blast+

text \<open>
  Every step keeps the invariant, a closed handle closed, and a handle with its registry, its
  connection and its savepoint; numbers of objects only grow.  \<open>D\<close> are registries known to exist.
\<close>

definition grown :: "'w executor \<Rightarrow> 'w executor \<Rightarrow> bool" where
  "grown s s' \<longleftrightarrow> controlled_made s \<le> controlled_made s' \<and> registries_made s \<le> registries_made s'
     \<and> (\<forall>t < controlled_made s. (is_closed (controlled s t) \<longrightarrow> is_closed (controlled s' t))
          \<and> kept_state (controlled s' t) = kept_state (controlled s t) \<and> raw_connection (controlled s' t) = raw_connection (controlled s t)
          \<and> generated_savepoint (controlled s' t) = generated_savepoint (controlled s t))"

definition onward :: "nat set \<Rightarrow> 'w executor \<Rightarrow> 'w executor \<Rightarrow> bool" where
  "onward D s s' \<longleftrightarrow> (listed s \<and> (\<forall>r \<in> D. r < registries_made s) \<longrightarrow> listed s' \<and> grown s s')"

interpretation progress: frame "onward D" for D
  by unfold_locales (fastforce simp: onward_def grown_def)+

lemma onward_any: "onward {} s s' \<Longrightarrow> onward D s s'"
  by (simp add: onward_def)

lemma moves_any: "moves (onward {}) m \<Longrightarrow> moves (onward D) m"
  by (simp add: moves_def onward_any)

text \<open>Steps that touch neither registries nor handles.\<close>

definition untouched :: "'w executor \<Rightarrow> 'w executor \<Rightarrow> bool" where
  "untouched s s' \<longleftrightarrow> (\<forall>r. entries (kept_registries s' r) = entries (kept_registries s r)) \<and> handles_on s' = handles_on s
     \<and> controlled_made s' = controlled_made s \<and> points_made s' = points_made s \<and> registries_made s' = registries_made s
     \<and> (\<forall>k r. state_of_connection s' k = Some r \<longrightarrow> state_of_connection s k = Some r)
     \<and> (\<forall>t. is_closed (controlled s' t) = is_closed (controlled s t) \<and> kept_state (controlled s' t) = kept_state (controlled s t)
          \<and> raw_connection (controlled s' t) = raw_connection (controlled s t)
          \<and> generated_savepoint (controlled s' t) = generated_savepoint (controlled s t))"

lemma untouched_onward: "untouched s s' \<Longrightarrow> onward D s s'"
  by (simp add: untouched_def onward_def grown_def listed_def) blast

lemma moves_untouched: "(\<And>s. untouched s (f s)) \<Longrightarrow> moves (onward D) (act f)"
  by (rule progress.moves_act) (rule untouched_onward)

lemma untouched_simps:
  "untouched s (update_point p g s)" "untouched s (update_stream i h s)" "untouched s (s\<lparr>outer := w\<rparr>)"
  "untouched s (s\<lparr>name_counter := n\<rparr>)" "untouched s (s\<lparr>cursor_counter := n\<rparr>)" "untouched s (discard_state k r s)"
  "(\<And>x. is_closed (u x) = is_closed x \<and> kept_state (u x) = kept_state x \<and> raw_connection (u x) = raw_connection x
     \<and> generated_savepoint (u x) = generated_savepoint x) \<Longrightarrow> untouched s (update_controlled t u s)"
  "(\<And>g. entries (v g) = entries g) \<Longrightarrow> untouched s (update_kept r v s)"
  "untouched s (s\<lparr>streams_made := n, streams := z\<rparr>)"
  by (auto simp: untouched_def executor_updates discard_state_def)

lemma progress_beyond: "moves (onward D) (beyond f)"
  by (auto simp: moves_def beyond_def split: prod.split intro!: untouched_onward untouched_simps)

section \<open>Closing\<close>

lemma sorted_wrt_remove1: "sorted_wrt P xs \<Longrightarrow> sorted_wrt P (remove1 x xs)"
  by (induction xs) (auto dest: notin_set_remove1)

lemma onward_drop_point: "onward D s (drop_entry r (SavepointEntry p) s)"
proof -
  have "set (remove1 (SavepointEntry p) es) \<subseteq> set es" "TransactionEntry t \<in> set (remove1 (SavepointEntry p) es) \<longleftrightarrow> TransactionEntry t \<in> set es"
    for es t by (rule set_remove1_subset) (simp add: in_set_remove1)
  then show ?thesis
    by (auto simp: onward_def grown_def listed_def drop_entry_def update_kept_def sorted_wrt_remove1)
qed

lemmas untouched_steps = untouched_simps [THEN untouched_onward]

lemma onward_forget: "onward D s (forget_point t p s)"
  unfolding forget_point_def Let_def release_names_def
  by (rule progress.steps [OF _ untouched_steps(8)], rule progress.steps [OF _ untouched_steps(7)],
      rule progress.steps [OF _ onward_drop_point], rule untouched_steps(7)) simp_all

lemma onward_invalidate_point: "onward D s (invalidate_point p s)"
  by (auto simp: invalidate_point_def progress.same intro: progress.steps [OF onward_forget untouched_steps(1)])

lemma onward_clear: "onward D s (clear_names t s)"
  unfolding clear_names_def Let_def release_names_def
  by (rule progress.steps [OF _ untouched_steps(7)], rule progress.steps [OF _ untouched_steps(8)],
      rule progress.steps [OF progress.moves_fold untouched_steps(7)], rule onward_invalidate_point) simp_all

text \<open>Closing a handle takes it from its registry and from the handles of its connection.\<close>

lemma onward_closing:
  assumes "r = kept_state (controlled s t)" "k = raw_connection (controlled s t)"
  shows "onward D s (drop_controlled r t (update_controlled t (\<lambda>x. x\<lparr>is_closed := True\<rparr>) s)
     \<lparr>handles_on := (handles_on s)(k := handles_on s k - {t})\<rparr>)"
proof -
  have "TransactionEntry u \<in> set (remove1 (TransactionEntry t) es) \<longleftrightarrow> TransactionEntry u \<in> set es \<and> u \<noteq> t"
    "SavepointEntry p \<in> set (remove1 (TransactionEntry t) es) \<longleftrightarrow> SavepointEntry p \<in> set es" if "distinct es" for es u p
    using that by auto
  then show ?thesis
    using assms by (auto simp: onward_def grown_def listed_def drop_controlled_def drop_entry_def executor_updates sorted_wrt_remove1)
qed

lemma onward_close: "onward D s (close_controlled t s)"
proof -
  let ?s1 = "update_controlled t (\<lambda>x. x\<lparr>is_closed := True\<rparr>) (clear_names t s)"
  let ?r = "kept_state (controlled (clear_names t s) t)" and ?k = "raw_connection (controlled (clear_names t s) t)"
  have fields: "kept_state (controlled ?s1 t) = ?r" "raw_connection (controlled ?s1 t) = ?k"
    by (simp_all add: update_controlled_def)
  have "handles_on (drop_controlled r t (update_controlled t f s')) = handles_on s'" for r f and s' :: "'a executor"
    by (simp add: drop_controlled_def drop_entry_def executor_updates)
  then have "close_controlled t s = discard_state ?k ?r (drop_controlled ?r t ?s1
      \<lparr>handles_on := (handles_on (clear_names t s))(?k := handles_on (clear_names t s) ?k - {t})\<rparr>)"
    by (simp add: close_controlled_def Let_def fields)
  also have "onward D (clear_names t s) \<dots>"
    by (rule progress.steps [OF onward_closing [OF refl refl] untouched_steps(6)])
  finally show ?thesis using onward_clear progress.steps by blast
qed

lemma onward_member: "onward D s (invalidate_member e s)"
  by (cases e) (simp_all add: onward_close onward_invalidate_point)

lemma onward_fold: "onward D s (fold invalidate_member es s)"
  by (rule progress.moves_fold) (rule onward_member)

lemma onward_behind: "onward D s (invalidate_behind r e s)"
  unfolding invalidate_behind_def by (rule onward_fold)


lemma onward_subtree: "onward D s (invalidate_subtree t s)"
  unfolding invalidate_subtree_def by (rule progress.steps [OF onward_behind onward_close])

lemma closed_close: "is_closed (controlled (close_controlled t s) t)"
proof -
  have "is_closed (controlled (discard_state k r s') t) = is_closed (controlled s' t)" for k r and s' :: "'a executor"
    by (simp add: discard_state_def)
  then show ?thesis
    by (simp add: close_controlled_def Let_def drop_controlled_def drop_entry_def update_kept_def update_controlled_def)
qed

text \<open>What is closed stays closed; so a fold closes every handle it meets.\<close>

lemma listed_onward: "onward {} s s' \<Longrightarrow> listed s \<Longrightarrow> listed s' \<and> grown s s'"
  by (simp add: onward_def)

lemma closed_onward:
  assumes "onward {} s s'" "listed s" "t < controlled_made s" "is_closed (controlled s t)"
  shows "is_closed (controlled s' t)"
  using assms by (simp add: onward_def grown_def)

lemma fold_closes:
  assumes "listed s" "TransactionEntry t \<in> set es" "t < controlled_made s"
  shows "is_closed (controlled (fold invalidate_member es s) t)"
  using assms
proof (induction es arbitrary: s)
  case (Cons e es)
  let ?s = "invalidate_member e s"
  have s: "listed ?s" "t < controlled_made ?s"
    using listed_onward [OF onward_member Cons.prems(1), of e] Cons.prems(3) by (auto simp: grown_def)
  show ?case
  proof (cases "e = TransactionEntry t")
    case True
    then have "is_closed (controlled ?s t)" by (simp add: closed_close)
    then show ?thesis using closed_onward [OF onward_fold s] by simp
  next
    case False
    then show ?thesis using Cons.IH [OF s(1) _ s(2)] Cons.prems(2) by simp
  qed
qed simp

lemma registry_closes:
  assumes l: "listed s" and r: "kept_state (controlled s t) = r" and t: "t < controlled_made s"
  shows "is_closed (controlled (fold invalidate_member (entries (kept_registries s r)) s) t)"
proof (cases "is_closed (controlled s t)")
  case True
  then show ?thesis using closed_onward [OF onward_fold l t] by simp
next
  case False
  then show ?thesis using fold_closes [OF l _ t] l r by (auto simp: listed_def)
qed

lemma onward_registry: "onward D s (invalidate_registry r s)"
  unfolding onward_def
proof (intro impI, elim conjE)
  assume l: "listed s"
  let ?s = "fold invalidate_member (entries (kept_registries s r)) s"
  have s: "listed ?s" "grown s ?s" using listed_onward [OF onward_fold l] by simp_all
  have "is_closed (controlled ?s t)" if "kept_state (controlled ?s t) = r" for t
  proof (rule ccontr)
    assume "\<not> is_closed (controlled ?s t)"
    moreover have "t < controlled_made s \<Longrightarrow> kept_state (controlled s t) = r" using s(2) that by (simp add: grown_def)
    moreover have "controlled_made ?s = controlled_made s"
    proof -
      have "same_books (\<lambda>_ _. 0) s ?s" by (rule books.moves_fold) (rule same_books_member)
      then show ?thesis by (simp add: same_books_def)
    qed
    ultimately show False using registry_closes [OF l] s(1) by (auto simp: listed_def)
  qed
  then have "listed (update_kept r (\<lambda>_. empty_registry) ?s)" using s(1)
    by (auto simp: listed_def update_kept_def empty_registry_def)
  moreover have "grown s (update_kept r (\<lambda>_. empty_registry) ?s)" using s(2) by (simp add: grown_def update_kept_def)
  ultimately show "listed (invalidate_registry r s) \<and> grown s (invalidate_registry r s)"
    by (simp add: invalidate_registry_def)
qed

section \<open>Recovering and completing\<close>

lemma progress_inform: "moves (onward D) (inform c observer text params started count error)"
  unfolding inform_def by (auto intro!: progress.moves_control progress_beyond split: option.split)

lemma progress_execute: "moves (onward D) (execute_on c k text)"
  unfolding execute_on_def by (intro progress.moves_control progress_beyond)

lemma progress_run: "moves (onward D) m \<Longrightarrow> moves (onward D) (controlled_run c observer text m)"
  unfolding controlled_run_def by (intro progress.moves_control progress_inform)

lemma progress_recovery: "moves (onward D) (recovery_control c observer k text)"
  unfolding recovery_control_def by (intro progress.moves_control progress_inform progress_run progress_execute)

lemma progress_control_of: "moves (onward D) (control_of c k b text)"
  unfolding control_of_def by (intro progress.moves_control progress_recovery)

lemma progress_lease: "moves (onward D) (release_lease c t)" "moves (onward D) (release_leases c ts)"
proof -
  show one: "moves (onward D) (release_lease c t)" for t
    unfolding release_lease_def
    by (auto intro!: progress.moves_control progress_beyond moves_untouched untouched_simps(7) split: option.split)
  show "moves (onward D) (release_leases c ts)"
    by (induction ts) (auto intro!: progress.moves_control one)
qed

lemma progress_invalidate:
  "moves (onward D) (act (invalidate_behind r e))" "moves (onward D) (act (invalidate_subtree t))"
  "moves (onward D) (act (fold invalidate_for_recovery ts))" "moves (onward D) (act (close_controlled t))"
  unfolding invalidate_for_recovery_def
  by (intro progress.moves_act progress.moves_fold onward_behind onward_subtree onward_registry onward_close)+

lemma progress_recover:
  assumes "\<And>text. moves (onward D) (control text)"
  shows "moves (onward D) (recover_connection c k extra owns boundary control)"
  unfolding recover_connection_def
  by (intro progress.moves_control progress_lease progress_invalidate assms)

lemma progress_failure: "moves (onward D) (recover_after_failure c t e)"
  unfolding recover_after_failure_def by (intro progress.moves_control progress_recover progress_control_of)

lemmas progress_outside = progress_inform progress_execute progress_run progress_recovery progress_control_of progress_beyond

lemma progress_require_open: "moves (onward D) (require_open h)"
  unfolding require_open_def by (cases h) (auto intro: progress.moves_control)

lemma progress_completion: "moves (onward D) (pg_commit c t)" "moves (onward D) (pg_rollback c t)"
  unfolding pg_commit_def pg_rollback_def rollback_statements_def Let_def
  by (intro progress.moves_control progress_require_open progress_invalidate progress_failure progress_outside progress_lease)+


text \<open>The handle that is recovered, and every handle that is completed, ends closed.\<close>

definition visits_all :: "'w asyncpg \<Rightarrow> bool" where
  "visits_all c \<longleftrightarrow> (\<forall>handles. finite handles \<longrightarrow> set (visit c handles) = handles)"

definition ended :: "'w executor \<Rightarrow> nat set \<Rightarrow> 'w executor \<Rightarrow> bool" where
  "ended s T s' \<longleftrightarrow> onward {} s s' \<and> (\<forall>t \<in> T. is_closed (controlled s' t))"

lemma ended_onward:
  assumes "listed s" "\<forall>t \<in> T. t < controlled_made s" "ended s T s'" "onward {} s' s''"
  shows "ended s T s''"
proof -
  have s': "onward {} s s'" "listed s'" "controlled_made s \<le> controlled_made s'"
    using assms(1,3) by (simp_all add: ended_def onward_def grown_def)
  have "is_closed (controlled s'' t)" if "t \<in> T" for t
    by (rule closed_onward [OF assms(4) s'(2)]) (use assms(2,3) s'(3) that in \<open>auto simp: ended_def dest!: bspec\<close>)
  then show ?thesis using progress.steps [OF s'(1) assms(4)] by (simp add: ended_def)
qed

lemma wp_ended:
  assumes "listed s" "\<forall>t \<in> T. t < controlled_made s" "ended s T s'" "moves (onward {}) m"
  shows "wp m (\<lambda>_. ended s T) (\<lambda>_. ended s T) s'"
  using ended_onward [OF assms(1-3)] assms(4) by (simp add: wp_final moves_def)

lemma fold_recovery_closes:
  assumes "listed s" "t \<in> set ts" "t < controlled_made s"
  shows "is_closed (controlled (fold invalidate_for_recovery ts s) t)"
  using assms
proof (induction ts arbitrary: s)
  case (Cons u ts)
  have step: "onward {} s (invalidate_for_recovery v s)" for v and s :: "'a executor"
    by (simp add: invalidate_for_recovery_def onward_registry)
  let ?s = "invalidate_for_recovery u s"
  have s: "listed ?s" "t < controlled_made ?s"
    using listed_onward [OF step Cons.prems(1), of u] Cons.prems(3) by (auto simp: grown_def)
  show ?case
  proof (cases "u = t")
    case True
    have "is_closed (controlled ?s t)"
      using registry_closes [OF Cons.prems(1) refl Cons.prems(3)] True
      by (simp add: invalidate_for_recovery_def invalidate_registry_def update_kept_def)
    then show ?thesis using closed_onward [OF progress.moves_fold [OF step] s] by simp
  next
    case False
    then show ?thesis using Cons.IH [OF s(1) _ s(2)] Cons.prems(2) by simp
  qed
qed simp

lemma run_bind:
  "bind (ask f) g s = g (f s) s" "bind (act h) k s = k () (h s)" "bind (bind m p) q = bind m (\<lambda>x. bind (p x) q)"
  "bind (pure (Inr x)) j = j x" "bind (pure (Inl e)) j = raise e"
  by (simp_all add: action_defs fun_eq_iff split: prod.split sum.split)

lemma wp_at: "m s = m' s' \<Longrightarrow> wp m' Q E s' \<Longrightarrow> wp m Q E s"
  by (simp add: wp_def)

lemma wp_recovered:
  assumes v: "visits_all c" and l: "listed s" and t: "t < controlled_made s"
  shows "wp (recover_after_failure c t e) (\<lambda>_. ended s {t}) (\<lambda>_. ended s {t}) s"
proof -
  have made: "\<forall>u \<in> {t}. u < controlled_made s" using t by simp
  note later = wp_ended [OF l made]
  let ?k = "raw_connection (controlled s t)"
  let ?H = "handles_on s ?k \<union> {t}"
  show ?thesis
  proof (cases "generated_savepoint (controlled s t)")
    case None
    have "finite ?H" using l by (auto simp: listed_def intro!: finite_subset [of _ "{..<controlled_made s}"])
    then have "t \<in> set (visit c ?H)" using v by (simp add: visits_all_def)
    then have all: "ended s {t} (fold invalidate_for_recovery (visit c ?H) s)"
      by (auto simp: ended_def fold_recovery_closes [OF l _ t] invalidate_for_recovery_def onward_registry intro!: progress.moves_fold)
    show ?thesis
      by (rule wp_at [OF _ later [OF all]])
        (simp add: recover_after_failure_def recover_connection_def run_bind None,
          intro progress.moves_control progress_control_of progress_lease)
  next
    case (Some name)
    have sub: "ended s {t} (invalidate_subtree t s)"
      by (simp add: ended_def onward_subtree) (simp add: invalidate_subtree_def closed_close)
    show ?thesis
      by (rule wp_at [OF _ later [OF sub]])
        (simp add: recover_after_failure_def recover_connection_def run_bind Some,
          intro progress.moves_control progress_control_of)
  qed
qed


lemma finally_final: "snd (finally_do m f s) = snd (f (snd (m s)))"
  by (simp add: finally_do_def action_defs split: prod.split sum.split)

lemma completing:
  assumes v: "visits_all c" and l: "listed s" and t: "t < controlled_made s" and m: "moves (onward {}) m"
    and g: "\<And>x. \<exists>g'. moves (onward {}) g' \<and> g x = bind (act (close_controlled t)) (\<lambda>_. g')"
  shows "is_closed (controlled (snd (finally_do (try_else m (recover_after_failure c t) g) (release_lease c t) s)) t)"
proof -
  have made: "\<forall>u \<in> {t}. u < controlled_made s" using t by simp
  have "wp (try_else m (recover_after_failure c t) g) (\<lambda>_. ended s {t}) (\<lambda>_. ended s {t}) s"
    unfolding wp_try_else
  proof (rule wp_mono [OF moves_wp [OF m]])
    fix x s1 assume s1: "onward {} s s1"
    obtain g' where g': "moves (onward {}) g'" "g x = bind (act (close_controlled t)) (\<lambda>_. g')" using g by blast
    have "ended s {t} (close_controlled t s1)"
      using progress.steps [OF s1 onward_close] by (simp add: ended_def closed_close)
    then show "wp (g x) (\<lambda>_. ended s {t}) (\<lambda>_. ended s {t}) s1"
      unfolding g'(2) wp_bind wp_act by (rule wp_ended [OF l made _ g'(1)])
  next
    fix e s1 assume s1: "onward {} s s1"
    then have "listed s1" "t < controlled_made s1" using l t by (auto simp: onward_def grown_def)
    from wp_recovered [OF v this] show "wp (recover_after_failure c t e) (\<lambda>_. ended s {t}) (\<lambda>_. ended s {t}) s1"
      by (rule wp_mono) (use s1 in \<open>auto simp: ended_def intro: progress.steps\<close>)
  qed
  then have "ended s {t} (snd (try_else m (recover_after_failure c t) g s))" by (simp add: wp_final)
  moreover have "onward {} s' (snd (release_lease c t s'))" for s'
    by (rule moves_step [OF progress_lease(1)])
  ultimately have "ended s {t} (snd (release_lease c t (snd (try_else m (recover_after_failure c t) g s))))"
    by (rule ended_onward [OF l made])
  then show ?thesis by (simp add: ended_def finally_final)
qed

lemma behind_closes:
  assumes l: "listed s" and t: "\<not> is_closed (controlled s t)" and r: "kept_state (controlled s t) = r"
    and u: "t < u" "u < controlled_made s" "kept_state (controlled s u) = r"
  shows "is_closed (controlled (invalidate_behind r (TransactionEntry t) s) u)"
proof (cases "is_closed (controlled s u)")
  case True
  then show ?thesis using closed_onward [OF onward_behind l u(2)] by simp
next
  case False
  let ?es = "entries (kept_registries s r)"
  have mem: "TransactionEntry t \<in> set ?es" "TransactionEntry u \<in> set ?es" and order: "sorted_wrt begun_before ?es"
    using l t r u False by (auto simp: listed_def)
  obtain as bs where es: "?es = as @ TransactionEntry t # bs" "TransactionEntry t \<notin> set as"
    using mem(1) by (meson split_list_first)
  then have "TransactionEntry u \<in> set bs" using mem(2) order u(1) by (auto simp: sorted_wrt_append)
  moreover have "tl (dropWhile (\<lambda>x. x \<noteq> TransactionEntry t) ?es) = bs"
    unfolding es(1) using es(2) by (subst dropWhile_append2) auto
  ultimately show ?thesis by (simp add: invalidate_behind_def fold_closes [OF l _ u(2)])
qed

lemma completion_closes:
  assumes v: "visits_all c" and l: "listed s" and t: "\<not> is_closed (controlled s t)"
    and u: "t \<le> u" "u < controlled_made s" "kept_state (controlled s u) = kept_state (controlled s t)"
  shows "is_closed (controlled (snd (pg_commit c t s)) u)" "is_closed (controlled (snd (pg_rollback c t s)) u)"
proof -
  let ?s = "invalidate_behind (kept_state (controlled s t)) (TransactionEntry t) s"
  have s1: "listed ?s" "t < controlled_made ?s" "u < controlled_made ?s"
    using listed_onward [OF onward_behind [of "{}" s "kept_state (controlled s t)" "TransactionEntry t"] l] u by (auto simp: grown_def)
  have closes: "is_closed (controlled (snd (finally_do (try_else m (recover_after_failure c t) g) (release_lease c t) ?s)) u)"
    if m: "moves (onward {}) m" and g: "\<And>x. \<exists>g'. moves (onward {}) g' \<and> g x = bind (act (close_controlled t)) (\<lambda>_. g')"
    for m :: "('a executor, 'b) action" and g :: "'b \<Rightarrow> ('a executor, unit) action"
  proof (cases "u = t")
    case True
    then show ?thesis using completing [OF v s1(1,2) m g] by simp
  next
    case False
    then have "is_closed (controlled ?s u)" using behind_closes [OF l t refl _ u(2,3)] u(1) by simp
    moreover have "moves (onward {}) (g x)" for x
      using g [of x] by (auto intro!: progress.moves_control progress_invalidate)
    then have "moves (onward {}) (finally_do (try_else m (recover_after_failure c t) g) (release_lease c t))"
      by (intro progress.moves_control m progress_failure progress_lease)
    ultimately show ?thesis using closed_onward [OF _ s1(1,3)] by (auto simp: moves_def)
  qed
  have statements: "moves (onward {}) (rollback_statements c x)" for x
    unfolding rollback_statements_def Let_def by (intro progress.moves_control progress_outside)
  show "is_closed (controlled (snd (pg_commit c t s)) u)"
    using t by (simp add: pg_commit_def Let_def require_open_def run_bind raise_if_def)
      (rule closes, intro progress_outside, rule exI, rule conjI [rotated], rule refl, rule progress_inform)
  show "is_closed (controlled (snd (pg_rollback c t s)) u)"
    using t by (simp add: pg_rollback_def Let_def require_open_def run_bind raise_if_def)
      (rule closes [OF statements], unfold case_prod_unfold, rule exI, rule conjI [rotated], rule refl,
        intro progress.moves_control progress_inform)
qed

section \<open>Beginning\<close>

lemma grown_refl [simp]: "grown s s"
  by (simp add: grown_def)

lemma state_for_known:
  "onward {} s (snd (state_for_connection k s))"
  "listed s \<Longrightarrow> \<exists>r. fst (state_for_connection k s) = Inr r \<and> r < registries_made (snd (state_for_connection k s))"
proof -
  show "onward {} s (snd (state_for_connection k s))"
  proof (cases "state_of_connection s k")
    case None
    let ?s = "snd (state_for_connection k s)"
    have "listed ?s \<and> grown s ?s" if l: "listed s"
    proof -
      note old = listedD [OF l]
      have same: "entries (kept_registries ?s r) = entries (kept_registries s r)" for r
        using old(8) None by (simp add: state_for_connection_def empty_registry_def)
      have facts: "controlled ?s = controlled s" "handles_on ?s = handles_on s" "points_made ?s = points_made s"
        "controlled_made ?s = controlled_made s" "registries_made ?s = Suc (registries_made s)"
        "state_of_connection ?s = (state_of_connection s)(k \<mapsto> registries_made s)"
        using None by (simp_all add: state_for_connection_def)
      have "listed ?s"
        by (rule listedI, unfold same facts)
          (rule old(1), rule old(2), rule old(3), rule old(4), assumption, rule old(5), rule old(6), assumption,
            rule less_SucI, rule old(7), assumption, rule old(8), simp, use old(9) in \<open>auto simp: less_Suc_eq split: if_splits\<close>)
      then show ?thesis using None by (simp add: grown_def state_for_connection_def)
    qed
    then show ?thesis by (simp add: onward_def)
  qed (simp add: state_for_connection_def progress.same)
  assume "listed s"
  note known = listedD(9) [OF this, of k]
  show "\<exists>r. fst (state_for_connection k s) = Inr r \<and> r < registries_made (snd (state_for_connection k s))"
    using known by (cases "state_of_connection s k") (simp_all add: state_for_connection_def)
qed

lemma progress_state_for: "moves (onward D) (state_for_connection k)"
  by (rule moves_any) (simp add: moves_def state_for_known(1))

text \<open>What is done in a registry just looked up may count on it.\<close>

lemma progress_in_registry:
  assumes "\<And>r. moves (onward {r}) (g r)"
  shows "moves (onward {}) (bind (state_for_connection k) g)"
  unfolding moves_def
proof
  fix s
  show "onward {} s (snd (bind (state_for_connection k) g s))"
  proof (cases "listed s")
    case True
    then obtain r s1 where r: "state_for_connection k s = (Inr r, s1)" "r < registries_made s1"
      using state_for_known(2) [of s k] by (metis prod.collapse)
    then have "onward {} s s1" using state_for_known(1) [of s k] by simp
    moreover have "onward {r} s1 (snd (g r s1))" using assms by (simp add: moves_def)
    ultimately show ?thesis using r True by (auto simp: onward_def grown_def bind_def)
  qed (simp add: onward_def)
qed

definition enrolled :: "nat \<Rightarrow> nat \<Rightarrow> pg_transaction \<Rightarrow> 'w executor \<Rightarrow> 'w executor" where
  "enrolled r k x s = (let t = controlled_made s in register_controlled r t (s\<lparr>controlled_made := Suc t,
     controlled := (controlled s)(t := x), handles_on := (handles_on s)(k := insert t (handles_on s k))\<rparr>))"

lemma enrolled_simps:
  "entries (kept_registries (enrolled r k x s) r') = entries (kept_registries s r') @ (if r' = r then [TransactionEntry (controlled_made s)] else [])"
  "controlled (enrolled r k x s) = (controlled s)(controlled_made s := x)"
  "handles_on (enrolled r k x s) = (handles_on s)(k := insert (controlled_made s) (handles_on s k))"
  "controlled_made (enrolled r k x s) = Suc (controlled_made s)" "points_made (enrolled r k x s) = points_made s"
  "registries_made (enrolled r k x s) = registries_made s" "state_of_connection (enrolled r k x s) = state_of_connection s"
  by (simp_all add: enrolled_def Let_def register_controlled_def update_kept_def)

lemma progress_enroll:
  assumes x: "kept_state x = r" "raw_connection x = k" "\<not> is_closed x"
  shows "onward {r} s (enrolled r k x s)"
  unfolding onward_def
proof (intro impI, elim conjE)
  assume l: "listed s" and "\<forall>r' \<in> {r}. r' < registries_made s"
  then have r: "r < registries_made s" by simp
  let ?t = "controlled_made s"
  note old = listedD [OF l]
  have t: "is_closed (controlled s ?t)" using old(6) by blast
  have before: "begun_before e (TransactionEntry ?t)" if "e \<in> set (entries (kept_registries s r'))" for e r'
  proof (cases e)
    case (TransactionEntry u)
    then have "\<not> is_closed (controlled s u)" using that old(3) by blast
    then show ?thesis using TransactionEntry old(6) by simp
  qed simp
  have new: "TransactionEntry ?t \<notin> set (entries (kept_registries s r'))" for r' using old(3) t by blast
  have "listed (enrolled r k x s)"
  proof (rule listedI, goal_cases)
    case (1 r') show ?case using old(1) new by (simp add: enrolled_simps)
  next
    case (2 r') show ?case using old(2) before by (auto simp: enrolled_simps sorted_wrt_append)
  next
    case (3 r' u) show ?case using old(3) t x by (auto simp: enrolled_simps)
  next
    case (4 r' p) then show ?case using old(4) by (auto simp: enrolled_simps split: if_splits)
  next
    case (5 k' u) show ?case using old(5) t x by (auto simp: enrolled_simps)
  next
    case (6 u) then show ?case using old(6) by (auto simp: enrolled_simps less_SucI split: if_splits)
  next
    case (7 u) then show ?case using old(7) r x by (auto simp: enrolled_simps split: if_splits)
  next
    case (8 r') then show ?case using old(8) r by (auto simp: enrolled_simps)
  next
    case (9 k' r') then show ?case using old(9) by (simp add: enrolled_simps)
  qed
  then show "listed (enrolled r k x s) \<and> grown s (enrolled r k x s)" by (simp add: grown_def enrolled_simps)
qed

lemma bind_at: "m s = (Inr x, s') \<Longrightarrow> bind m g s = g x s'"
  by (simp add: bind_def)

lemma progress_new: "moves (onward {r}) (new_controlled k observer pool r name)"
  unfolding moves_def
proof
  fix s
  obtain r' s' where s': "state_for_connection k s = (Inr r', s')"
    by (cases "state_of_connection s k") (simp_all add: state_for_connection_def)
  let ?x = "\<lparr>kept_state = r, raw_connection = k, watcher_of = observer, taken_names = set_option name, own_points = [],
    generated_savepoint = name, is_closed = False, pool_of = pool, pool_connection = (if pool = None then None else Some k)\<rparr>"
  have "snd (new_controlled k observer pool r name s) = enrolled r k ?x s'"
    unfolding new_controlled_def by (subst bind_at, rule s') (simp add: run_bind ret_def enrolled_def Let_def)
  moreover have "onward {r} s s'" using onward_any [OF state_for_known(1)] s' by (metis snd_conv)
  moreover have "onward {r} s' (enrolled r k ?x s')" by (rule progress_enroll) simp_all
  ultimately show "onward {r} s (snd (new_controlled k observer pool r name s))"
    by (simp only: progress.steps [of "{r}"])
qed


lemma progress_count:
  "moves (onward D) (act (\<lambda>s. s\<lparr>name_counter := n\<rparr>))" "moves (onward D) (act (\<lambda>s. s\<lparr>cursor_counter := n\<rparr>))"
  by (intro moves_untouched untouched_simps)+

lemma progress_names: "moves (onward D) (reserve_name r name)" "moves (onward D) (act (release_names r names))"
  "moves (onward D) new_savepoint_name"
  unfolding reserve_name_def release_names_def new_savepoint_name_def
  by (intro progress.moves_control progress_count moves_untouched untouched_simps(8); simp)+

lemma progress_cleanup: "moves (onward D) (cleanup_savepoint c k name boundary)"
  unfolding cleanup_savepoint_def
  by (cases boundary) (auto intro!: progress.moves_control progress_recover progress_outside)

lemma progress_undo: "moves (onward D) (undo_start c observer pool k name boundary e)"
  unfolding undo_start_def release_pool_connection_def
  by (intro progress.moves_control progress_recover progress_outside progress_cleanup)

lemma progress_start_failed: "moves (onward D) (start_failed c observer pool k text owns boundary started e)"
  unfolding start_failed_def release_pool_connection_def
  by (cases boundary) (auto intro!: progress.moves_control progress_recover progress_outside)

lemma ret_bind: "bind (ret x) g = g x"
  by (simp add: action_defs)

lemma begin_in_registry:
  "moves (onward {r}) (begin_controlled c observer pool k (Some r))"
  unfolding begin_controlled_def option.case Let_def ret_bind
  by (intro progress.moves_control progress_new progress_undo progress_start_failed progress_outside progress_names)

lemma begin_anywhere: "moves (onward {}) (begin_controlled c observer pool k None)"
  unfolding begin_controlled_def option.case Let_def
  by (intro progress.moves_bind progress_in_registry)
    (intro progress.moves_control progress_new progress_undo progress_start_failed progress_outside progress_names)+

text \<open>The registry of an open handle exists.\<close>

lemma onward_known: "onward {kept_state (controlled s t)} s s' \<Longrightarrow> \<not> is_closed (controlled s t) \<Longrightarrow> onward {} s s'"
  by (auto simp: onward_def listedD(7))

lemma progress_begin: "moves (onward {}) (pg_begin c h)"
proof (cases h)
  case (Controlled t)
  show ?thesis
    unfolding moves_def
  proof
    fix s
    show "onward {} s (snd (pg_begin c h s))"
    proof (cases "is_closed (controlled s t)")
      case True
      then show ?thesis by (simp add: pg_begin_def Controlled require_open_def run_bind raise_if_def progress.same) (simp add: raise_def progress.same)
    next
      case False
      have "onward {kept_state (controlled s t)} s (snd (pg_begin c h s))"
        using False by (simp add: pg_begin_def Controlled require_open_def run_bind raise_if_def) (rule moves_step [OF begin_in_registry])
      with False show ?thesis by (blast intro: onward_known)
    qed
  qed
qed (auto simp: pg_begin_def require_open_def intro!: progress.moves_control progress_in_registry begin_anywhere begin_in_registry)


section \<open>Savepoints, queries and streams\<close>

definition pointed :: "nat \<Rightarrow> nat \<Rightarrow> (nat \<Rightarrow> savepoint) \<Rightarrow> (pg_transaction \<Rightarrow> pg_transaction) \<Rightarrow> nat \<Rightarrow> 'w executor \<Rightarrow> 'w executor" where
  "pointed r t ps u p s = register_point r p (update_controlled t u (s\<lparr>points_made := Suc p, points := ps\<rparr>))"

lemma progress_point:
  assumes u: "\<And>x. is_closed (u x) = is_closed x \<and> kept_state (u x) = kept_state x \<and> raw_connection (u x) = raw_connection x
     \<and> generated_savepoint (u x) = generated_savepoint x"
  shows "onward {r} s (pointed r t ps u (points_made s) s)"
  unfolding onward_def
proof (intro impI, elim conjE)
  assume l: "listed s" and "\<forall>r' \<in> {r}. r' < registries_made s"
  then have r: "r < registries_made s" by simp
  let ?p = "points_made s" and ?s = "pointed r t ps u (points_made s) s"
  note old = listedD [OF l]
  have facts: "entries (kept_registries ?s r') = entries (kept_registries s r') @ (if r' = r then [SavepointEntry ?p] else [])"
    "is_closed (controlled ?s v) = is_closed (controlled s v)" "kept_state (controlled ?s v) = kept_state (controlled s v)"
    "raw_connection (controlled ?s v) = raw_connection (controlled s v)" "generated_savepoint (controlled ?s v) = generated_savepoint (controlled s v)"
    "handles_on ?s = handles_on s" "controlled_made ?s = controlled_made s" "points_made ?s = Suc ?p"
    "registries_made ?s = registries_made s" "state_of_connection ?s = state_of_connection s" for r' v
    using u by (simp_all add: pointed_def register_point_def executor_updates)
  have "SavepointEntry ?p \<notin> set (entries (kept_registries s r'))" for r' using old(4) by blast
  moreover have "begun_before e (SavepointEntry p)" for e p by (cases e) simp_all
  ultimately have "listed ?s"
    using old(1,2) by (intro listedI, unfold facts)
      (simp, simp add: sorted_wrt_append, simp add: old(3), use old(4) in \<open>force split: if_splits\<close>, rule old(5), erule old(6), erule old(7),
        use old(8) r in \<open>simp add: not_le\<close>, erule old(9))
  then show "listed ?s \<and> grown s ?s" by (simp add: grown_def facts)
qed

lemma progress_new_point:
  fixes g :: "nat \<Rightarrow> unit \<Rightarrow> ('w executor, 'b) action"
  assumes "\<And>p x. is_closed (u p x) = is_closed x \<and> kept_state (u p x) = kept_state x \<and> raw_connection (u p x) = raw_connection x
     \<and> generated_savepoint (u p x) = generated_savepoint x" "\<And>p. moves (onward {r}) (g p ())"
  shows "moves (onward {r}) (bind (ask points_made) (\<lambda>p. bind (act (\<lambda>s. register_point r p (update_controlled t (u p)
     (s\<lparr>points_made := Suc p, points := (points s)(p := f p)\<rparr>)))) (g p)))"
  unfolding moves_def
proof
  fix s :: "'w executor"
  let ?p = "points_made s"
  let ?s = "pointed r t ((points s)(?p := f ?p)) (u ?p) ?p s"
  have "onward {r} s ?s" by (rule progress_point) (rule assms(1))
  moreover have "onward {r} ?s (snd (g ?p () ?s))" by (rule moves_step [OF assms(2)])
  ultimately show "onward {r} s (snd (bind (ask points_made) (\<lambda>p. bind (act (\<lambda>s. register_point r p (update_controlled t (u p)
     (s\<lparr>points_made := Suc p, points := (points s)(p := f p)\<rparr>)))) (g p)) s))"
    unfolding run_bind pointed_def by (rule progress.steps)
qed

lemma progress_at_handle:
  assumes "\<And>x. moves (onward {kept_state x}) (g x)"
  shows "moves (onward {}) (bind (require_open (Controlled t)) (\<lambda>_. bind (ask (\<lambda>s. controlled s t)) g))"
  unfolding moves_def
proof
  fix s
  show "onward {} s (snd (bind (require_open (Controlled t)) (\<lambda>_. bind (ask (\<lambda>s. controlled s t)) g) s))"
  proof (cases "is_closed (controlled s t)")
    case True
    then show ?thesis by (simp add: require_open_def run_bind raise_if_def) (simp add: raise_def progress.same)
  next
    case False
    have "onward {kept_state (controlled s t)} s (snd (g (controlled s t) s))" by (rule moves_step [OF assms])
    with False show ?thesis by (simp add: require_open_def run_bind raise_if_def onward_known)
  qed
qed

lemma progress_savepoint: "moves (onward {}) (pg_savepoint c t name)"
  unfolding pg_savepoint_def Let_def
  by (rule progress_at_handle)
    (intro progress.moves_bind progress_new_point progress.moves_on_error progress.moves_pure progress_names progress_outside
      progress.moves_act onward_invalidate_point; simp)

lemma progress_points: "moves (onward {}) (pg_release_point c p)" "moves (onward {}) (pg_rollback_point c p)"
proof -
  have small: "moves (onward {}) (act (\<lambda>s. invalidate_point q (invalidate_behind (g s) e s)))"
    "moves (onward {}) (act (\<lambda>s. invalidate_behind (g s) e s))"
    "moves (onward {}) (act (\<lambda>s. update_point q h (release_point_object u q s)))" for q e g h u
    unfolding release_point_object_def
    by (intro progress.moves_act onward_behind progress.steps [OF onward_behind onward_invalidate_point]
        progress.steps [OF progress.steps [OF onward_behind onward_forget] untouched_steps(1)])+
  show "moves (onward {}) (pg_release_point c p)" "moves (onward {}) (pg_rollback_point c p)"
    unfolding pg_release_point_def pg_rollback_point_def require_open_point_def point_failed_def Let_def
    by (intro progress.moves_control progress_require_open progress_failure progress_outside small)+
qed

lemma progress_scope: "(\<And>k. moves (onward {}) (work k)) \<Longrightarrow> moves (onward {}) (connection_scope c h work)"
  unfolding connection_scope_def by (cases h) (auto intro!: progress.moves_control progress_beyond)

lemma progress_queries:
  "moves (onward {}) (pg_fetch_all c h query)" "moves (onward {}) (pg_fetch_one c h query)"
  "moves (onward {}) (pg_fetch_all_as c h query adapter)" "moves (onward {}) (pg_fetch_one_as c h query adapter)"
  "moves (onward {}) (pg_run_command c h query)"
  unfolding pg_fetch_all_def pg_fetch_one_def pg_fetch_all_as_def pg_fetch_one_as_def pg_run_command_def fetched_rows_def fetched_row_def reported_def
  by (intro progress.moves_control progress_require_open progress_outside progress_scope)+

lemma progress_stream_update: "moves (onward {}) (act (update_stream i f))"
  by (intro moves_untouched untouched_simps)

lemma progress_close_stream: "moves (onward {}) (close_stream i)"
  unfolding close_stream_def by (rule progress_stream_update)

lemma progress_next_row: "moves (onward {}) (next_row c query compiled k i)"
proof -
  have batch: "moves (onward {}) (case b of [] \<Rightarrow> bind (act (update_stream i f)) (\<lambda>_. ret None)
      | record # rest \<Rightarrow> bind (pure (map_row query record)) (\<lambda>row. bind (act (update_stream i (g record rest))) (\<lambda>_. ret (Some row))))"
    for b f g
    by (cases b) (auto intro!: progress.moves_control progress_stream_update)
  have start: "moves (onward {}) (case ph of Fetching name rows \<Rightarrow> ret (name, rows)
           | _ \<Rightarrow> bind (ask cursor_counter) (\<lambda>n. let name = ''relq_cursor_'' @ str_of_nat n in
               bind (act (\<lambda>s. s\<lparr>cursor_counter := Suc n\<rparr>)) (\<lambda>_.
               bind (beyond (run_statement c k (''declare '' @ name @ '' no scroll cursor for '' @ sql compiled) (parameters compiled)))
                 (\<lambda>_. ret (name, [])))))" for ph
    unfolding Let_def by (cases ph) (auto intro!: progress.moves_control progress_count progress_beyond)
  show ?thesis
    unfolding next_row_def by (intro progress.moves_control start batch progress_beyond progress_stream_update)
qed

lemma progress_stream:
  assumes body: "\<And>next_of close. moves (onward {}) next_of \<Longrightarrow> moves (onward {}) close \<Longrightarrow> moves (onward {}) (body next_of close)"
  shows "moves (onward {}) (fetch_iter c h query body)"
proof -
  have new: "moves (onward {}) new_stream"
    unfolding new_stream_def by (intro progress.moves_control moves_untouched untouched_simps)
  have failed: "moves (onward {}) (stream_failed c t i e)" for t i e
    unfolding stream_failed_def by (intro progress.moves_control progress_completion progress_stream_update)
  show ?thesis
    unfolding fetch_iter_def report_stream_def
    by (intro progress.moves_control progress_require_open progress_begin progress_completion failed body new progress_stream_update
        progress_next_row progress_close_stream progress_outside)
qed

lemma progress_consume:
  "moves (onward {}) next_of \<Longrightarrow> moves (onward {}) close \<Longrightarrow> moves (onward {}) (consume n ending next_of close)"
  by (induction n) (auto intro!: progress.moves_control split: consumer_end.split)

lemma pg_run_onward: "pg_run c start s \<Longrightarrow> onward {} start s"
proof (induction rule: pg_run.induct)
  case run_start
  show ?case by (rule progress.same)
next
  case (run_database s k observer)
  have "moves (onward {}) (new_pg_database k observer)"
    unfolding new_pg_database_def by (intro progress.moves_control progress_state_for)
  with run_database.IH show ?case by (blast intro: progress.steps moves_step)
qed (blast intro: progress.steps moves_step progress_begin progress_completion progress_savepoint progress_points progress_queries
    progress_stream progress_consume)+



definition nested_sample :: "(nat \<Rightarrow> nat) executor" where
  "nested_sample = snd (pg_begin (sample_pool False (Inr ())) (Controlled 0)
     (snd (pg_begin (sample_pool False (Inr ())) (PoolDatabase 0 None) (fresh_executor (\<lambda>_. 0)))))"

lemmas sample_defs = nested_sample_def pg_begin_def begin_controlled_def sample_pool_def fresh_executor_def action_defs beyond_def inform_def
  execute_on_def state_for_connection_def new_controlled_def register_controlled_def update_kept_def require_open_def watcher_def raise_if_def
  empty_registry_def

lemma nested_sample_handles:
  "\<not> is_closed (controlled nested_sample 0)" "controlled_made nested_sample = 2"
  "kept_state (controlled nested_sample 1) = kept_state (controlled nested_sample 0)"
  by (simp_all add: sample_defs)

lemma sample_visits: "visits_all (sample_pool busy told)"
  by (simp add: visits_all_def sample_pool_def)

lemma fresh_listed: "listed (fresh_executor w)"
  by (simp add: listed_def fresh_executor_def empty_registry_def)


end
