(* ===== verification/Codegen_Model.thy ===== *)
theory Codegen_Model
  imports Python_Text
begin

text \<open>
  The code generator's data and its mapping of database types to Python (\<open>relq_codegen/model.py\<close>,
  \<open>mapping.py\<close>): the expressions it writes, with the imports and the names they need, the metadata it reads,
  the policy of a configuration, and the annotation and decoder of every column type.
\<close>

section \<open>Python names and literals\<close>

definition is_digit :: "char \<Rightarrow> bool" where
  "is_digit c \<longleftrightarrow> (48 \<le> code c \<and> code c \<le> 57) \<or> code c \<in> {178, 179, 185}"

text \<open>\<open>str.isidentifier\<close>: the middle dot continues an identifier, the superscripts and fractions do not.\<close>

definition is_identifier :: "string \<Rightarrow> bool" where
  "is_identifier s \<longleftrightarrow> (case s of [] \<Rightarrow> False
     | c # cs \<Rightarrow> (is_alpha c \<or> c = CHR ''_'')
         \<and> list_all (\<lambda>c. is_alpha c \<or> c = CHR ''_'' \<or> (48 \<le> code c \<and> code c \<le> 57) \<or> code c = 183) cs)"

definition python_keywords :: "string set" where
  "python_keywords = {''False'', ''None'', ''True'', ''and'', ''as'', ''assert'', ''async'', ''await'', ''break'', ''class'',
     ''continue'', ''def'', ''del'', ''elif'', ''else'', ''except'', ''finally'', ''for'', ''from'', ''global'', ''if'', ''import'',
     ''in'', ''is'', ''lambda'', ''nonlocal'', ''not'', ''or'', ''pass'', ''raise'', ''return'', ''try'', ''while'', ''with'', ''yield''}"

definition soft_python_keywords :: "string set" where
  "soft_python_keywords = {''_'', ''case'', ''match'', ''type''}"

definition valid_name :: "string \<Rightarrow> bool" where
  "valid_name s \<longleftrightarrow> is_identifier s \<and> s \<notin> python_keywords"

text \<open>\<open>needle in s\<close>.\<close>

fun contains :: "string \<Rightarrow> string \<Rightarrow> bool" where
  "contains needle s \<longleftrightarrow> starts_with needle s \<or> (case s of [] \<Rightarrow> False | _ # t \<Rightarrow> contains needle t)"

text \<open>\<open>repr\<close> of a string.\<close>

definition hex_digit :: "nat \<Rightarrow> char" where
  "hex_digit n = char_of (if n < 10 then 48 + n else 87 + n)"

definition repr_char :: "char \<Rightarrow> char \<Rightarrow> string" where
  "repr_char q c = (if c = q \<or> c = CHR 0x5C then [CHR 0x5C, c]
     else if code c = 9 then [CHR 0x5C, CHR ''t'']
     else if code c = 10 then [CHR 0x5C, CHR ''n'']
     else if code c = 13 then [CHR 0x5C, CHR ''r'']
     else if code c < 32 \<or> (127 \<le> code c \<and> code c \<le> 160) \<or> code c = 173
     then [CHR 0x5C, CHR ''x'', hex_digit (code c div 16), hex_digit (code c mod 16)]
     else [c])"

definition repr_quote :: "string \<Rightarrow> char" where
  "repr_quote s = (if CHR 0x27 \<in> set s \<and> CHR 0x22 \<notin> set s then CHR 0x22 else CHR 0x27)"

definition py_repr :: "string \<Rightarrow> string" where
  "py_repr s = repr_quote s # concat (map (repr_char (repr_quote s)) s) @ [repr_quote s]"

section \<open>Expressions\<close>

record python_import =
  import_module :: string
  import_names :: "string list"

definition bound_names :: "python_import \<Rightarrow> string set" where
  "bound_names i = (if import_names i \<noteq> [] then set (import_names i) else {takeWhile (\<lambda>c. c \<noteq> CHR ''.'') (import_module i)})"

definition render_import :: "python_import \<Rightarrow> string" where
  "render_import i = (if import_names i = [] then ''import '' @ import_module i
     else ''from '' @ import_module i @ '' import '' @ join_with '', '' (import_names i))"

fun dotted :: "string \<Rightarrow> string \<Rightarrow> string list" where
  "dotted part [] = [part]"
| "dotted part (c # s) = (if c = CHR ''.'' then part # dotted [] s else dotted (part @ [c]) s)"

definition new_import :: "string \<Rightarrow> string list \<Rightarrow> python_import result" where
  "new_import module names = and_then (checks
     [raise_if (\<not> list_all is_identifier (dotted [] module)) (ValueError ''import module must be a dotted identifier'' [module]),
      raise_if (\<not> list_all valid_name names) (ValueError ''import names must be identifiers'' names)])
     (\<lambda>_. Inr \<lparr>import_module = module, import_names = names\<rparr>)"

text \<open>The import requirements of a name, a frozenset, are given by their list.\<close>

datatype render_expression =
    Name string "python_import list"
  | Attribute render_expression string
  | Subscript render_expression "render_expression list"
  | StringLiteral string
  | Call render_expression "render_expression list"
  | UnionOf "render_expression list"

fun render_text :: "render_expression \<Rightarrow> string" where
  "render_text (Name v _) = v"
| "render_text (Attribute parent name) = render_text parent @ ''.'' @ name"
| "render_text (Subscript parent args) = render_text parent @ ''['' @ join_with '', '' (map render_text args) @ '']''"
| "render_text (StringLiteral v) = py_repr v"
| "render_text (Call f args) = render_text f @ ''('' @ join_with '', '' (map render_text args) @ '')''"
| "render_text (UnionOf members) = join_with '' | '' (map render_text members)"

fun imports_of :: "render_expression \<Rightarrow> python_import set" where
  "imports_of (Name _ dependencies) = set dependencies"
| "imports_of (Attribute parent _) = imports_of parent"
| "imports_of (Subscript parent args) = imports_of parent \<union> \<Union> (set (map imports_of args))"
| "imports_of (StringLiteral _) = {}"
| "imports_of (Call f args) = imports_of f \<union> \<Union> (set (map imports_of args))"
| "imports_of (UnionOf members) = \<Union> (set (map imports_of members))"

fun names_of :: "render_expression \<Rightarrow> string set" where
  "names_of (Name v _) = {v}"
| "names_of (Attribute parent _) = names_of parent"
| "names_of (Subscript parent args) = names_of parent \<union> \<Union> (set (map names_of args))"
| "names_of (StringLiteral _) = {}"
| "names_of (Call f args) = names_of f \<union> \<Union> (set (map names_of args))"
| "names_of (UnionOf members) = \<Union> (set (map names_of members))"

text \<open>The checks of the constructors.\<close>

definition new_name :: "string \<Rightarrow> python_import list \<Rightarrow> render_expression result" where
  "new_name v dependencies = and_then (raise_if (\<not> valid_name v) (ValueError ''generated name must be an identifier'' [v]))
     (\<lambda>_. Inr (Name v dependencies))"

definition new_attribute :: "render_expression \<Rightarrow> string \<Rightarrow> render_expression result" where
  "new_attribute parent name = and_then (raise_if (\<not> valid_name name) (ValueError ''generated attribute must be an identifier'' [name]))
     (\<lambda>_. Inr (Attribute parent name))"

definition new_union :: "render_expression list \<Rightarrow> render_expression result" where
  "new_union members = and_then (raise_if (length members < 2)
     (ValueError ''generated union annotations require at least two members'' [])) (\<lambda>_. Inr (UnionOf members))"

section \<open>Metadata\<close>

record type_identity =
  identity_schema :: "string option"
  identity_name :: string

datatype named_kind = EnumKind | DomainKind

datatype sql_type =
    BuiltinType string
  | NamedType named_kind type_identity
  | ArrayType sql_type

record schema_column =
  column_name :: string
  column_type :: sql_type
  nullable :: bool
  primary_key :: bool
  has_default :: bool
  identity :: bool
  generated :: bool

record schema_table =
  table_title :: string
  table_columns :: "schema_column list"
  table_schema :: "string option"

record schema_enum =
  enum_identity :: type_identity
  enum_labels :: "string list"

record direct_type =
  annotation :: render_expression
  decoder_kind :: string

datatype type_mapping =
    DirectType direct_type
  | GeneratedWrapper string direct_type
  | RejectedType string

datatype codegen_dialect = Postgres | Sqlite

text \<open>A configuration is the items of its mapping, in order, with distinct keys.\<close>

type_synonym config = "(type_identity \<times> type_mapping) list"

definition decoder_kinds :: "string list" where
  "decoder_kinds = [''bool'', ''bytes'', ''date'', ''datetime'', ''decimal'', ''float'', ''inet'', ''int'', ''json'', ''str'', ''time'', ''uuid'']"

section \<open>Names of the library\<close>

definition relq_names :: "string set" where
  "relq_names = set (map (\<lambda>kind. kind @ ''_decoder'') decoder_kinds) \<union>
     {''AwareDateTime'', ''AwareTime'', ''Inet'', ''Interval'', ''JsonValue'', ''NaiveDateTime'', ''NaiveTime'',
      ''aware_datetime_decoder'', ''aware_time_decoder'', ''domain_decoder'', ''enum_decoder'', ''interval_decoder'', ''list_decoder'',
      ''naive_datetime_decoder'', ''naive_time_decoder'', ''nullable'', ''row_adapter''}"

definition stdlib_modules :: "string set" where
  "stdlib_modules = {''datetime'', ''decimal'', ''uuid''}"

definition from_relq :: "string list \<Rightarrow> python_import" where
  "from_relq names = \<lparr>import_module = ''relq'', import_names = names\<rparr>"

definition import_only :: "string \<Rightarrow> python_import" where
  "import_only module = \<lparr>import_module = module, import_names = []\<rparr>"

definition mapping_imports :: "python_import set" where
  "mapping_imports = (\<lambda>name. from_relq [name]) ` relq_names \<union> import_only ` stdlib_modules"

definition relq_name :: "string \<Rightarrow> render_expression result" where
  "relq_name name = and_then (raise_if (name \<notin> relq_names) (ValueError
     ''name is imported into generated modules but is missing from RELQ_NAMES'' [name])) (\<lambda>_. new_name name [from_relq [name]])"

definition module_attribute :: "string \<Rightarrow> string \<Rightarrow> render_expression result" where
  "module_attribute module name = and_then (raise_if (module \<notin> stdlib_modules) (ValueError
     ''module is imported into generated modules but is missing from STDLIB_MODULES'' [module]))
     (\<lambda>_. and_then (new_name module [import_only module]) (\<lambda>m. new_attribute m name))"

section \<open>Types\<close>

record resolved_type =
  resolved_annotation :: render_expression
  resolved_decoder :: "render_expression option"

definition resolved_imports :: "resolved_type \<Rightarrow> python_import set" where
  "resolved_imports r = imports_of (resolved_annotation r) \<union> \<Union> (imports_of ` set_option (resolved_decoder r))"

text \<open>An annotation with the decoder of a name, called without arguments.\<close>

definition decoded :: "render_expression result \<Rightarrow> string \<Rightarrow> resolved_type result" where
  "decoded annotation_result decoder_name = and_then annotation_result (\<lambda>a. and_then (relq_name decoder_name)
     (\<lambda>d. Inr \<lparr>resolved_annotation = a, resolved_decoder = Some (Call d [])\<rparr>))"

definition decoder_for_direct_type :: "direct_type \<Rightarrow> render_expression result" where
  "decoder_for_direct_type t = and_then (relq_name (decoder_kind t @ ''_decoder'')) (\<lambda>d. Inr (Call d []))"

definition display_identity :: "type_identity \<Rightarrow> string" where
  "display_identity i = (case identity_schema i of None \<Rightarrow> identity_name i | Some schema \<Rightarrow> schema @ ''.'' @ identity_name i)"

definition resolve_direct :: "direct_type \<Rightarrow> resolved_type result" where
  "resolve_direct t = and_then (decoder_for_direct_type t)
     (\<lambda>d. Inr \<lparr>resolved_annotation = annotation t, resolved_decoder = Some d\<rparr>)"

definition resolve_wrapper :: "string \<Rightarrow> direct_type \<Rightarrow> resolved_type result" where
  "resolve_wrapper name t = and_then (decoder_for_direct_type t) (\<lambda>d. and_then (new_name name []) (\<lambda>n.
     and_then (relq_name ''domain_decoder'') (\<lambda>f.
       Inr \<lparr>resolved_annotation = n, resolved_decoder = Some (Call f [StringLiteral name, d, n])\<rparr>)))"

definition mapping_of :: "config option \<Rightarrow> type_identity \<Rightarrow> type_mapping option" where
  "mapping_of config i = Option.bind config (\<lambda>items. map_of items i)"

definition resolve_mapped_type :: "type_identity \<Rightarrow> config option \<Rightarrow> resolved_type result" where
  "resolve_mapped_type i config = (case mapping_of config i of
       Some (DirectType t) \<Rightarrow> resolve_direct t
     | Some (GeneratedWrapper name t) \<Rightarrow> resolve_wrapper name t
     | Some (RejectedType reason) \<Rightarrow> Inl (CodegenError ''database type is rejected'' [display_identity i, reason])
     | None \<Rightarrow> Inl (CodegenError ''unsupported database type; map it in a relq-codegen --config file'' [display_identity i]))"

definition integer_types :: "string set" where
  "integer_types = {''int'', ''int2'', ''int4'', ''int8'', ''integer'', ''tinyint'', ''smallint'', ''mediumint'', ''bigint'', ''unsigned big int''}"

definition postgres_text_types :: "string set" where
  "postgres_text_types = {''text'', ''name'', ''xml'', ''citext'', ''bpchar'', ''varchar'', ''char'', ''character'', ''character varying''}"

definition builtin_name :: "string \<Rightarrow> render_expression result" where
  "builtin_name name = new_name name []"

definition sqlite_affinity_type :: "string \<Rightarrow> resolved_type result option" where
  "sqlite_affinity_type normalized =
     (if contains ''int'' normalized then Some (decoded (builtin_name ''int'') ''int_decoder'')
      else if list_ex (\<lambda>token. contains token normalized) [''char'', ''clob'', ''text''] then Some (decoded (builtin_name ''str'') ''str_decoder'')
      else if contains ''blob'' normalized then Some (decoded (builtin_name ''bytes'') ''bytes_decoder'')
      else if list_ex (\<lambda>token. contains token normalized) [''real'', ''floa'', ''doub''] then Some (decoded (builtin_name ''float'') ''float_decoder'')
      else None)"

text \<open>The part of \<open>_resolve_builtin\<close> behind the configuration and SQLite's affinities.\<close>

definition resolve_generic :: "string \<Rightarrow> string \<Rightarrow> codegen_dialect \<Rightarrow> resolved_type result" where
  "resolve_generic name normalized d =
     (if contains ''uuid'' normalized then decoded (module_attribute ''uuid'' ''UUID'') ''uuid_decoder''
      else if normalized = ''inet'' then decoded (relq_name ''Inet'') ''inet_decoder''
      else if normalized \<in> {''json'', ''jsonb''} then decoded (relq_name ''JsonValue'') ''json_decoder''
      else if contains ''bool'' normalized then decoded (builtin_name ''bool'') ''bool_decoder''
      else if normalized \<in> integer_types \<or> contains ''serial'' normalized then decoded (builtin_name ''int'') ''int_decoder''
      else if list_ex (\<lambda>token. contains token normalized) [''numeric'', ''decimal'']
      then decoded (module_attribute ''decimal'' ''Decimal'') ''decimal_decoder''
      else if list_ex (\<lambda>token. contains token normalized) [''real'', ''double'', ''float''] then decoded (builtin_name ''float'') ''float_decoder''
      else if list_ex (\<lambda>token. contains token normalized) [''blob'', ''bytea'', ''binary''] then decoded (builtin_name ''bytes'') ''bytes_decoder''
      else if d = Postgres \<and> normalized \<in> {''timestamptz'', ''timestamp with time zone''}
      then decoded (relq_name ''AwareDateTime'') ''aware_datetime_decoder''
      else if d = Postgres \<and> normalized = ''timestamp without time zone'' then decoded (relq_name ''NaiveDateTime'') ''naive_datetime_decoder''
      else if d = Postgres \<and> normalized = ''time without time zone'' then decoded (relq_name ''NaiveTime'') ''naive_time_decoder''
      else if d = Postgres \<and> normalized \<in> {''timetz'', ''time with time zone''} then decoded (relq_name ''AwareTime'') ''aware_time_decoder''
      else if contains ''timestamp'' normalized \<or> contains ''datetime'' normalized
      then decoded (module_attribute ''datetime'' ''datetime'') ''datetime_decoder''
      else if normalized = ''date'' then decoded (module_attribute ''datetime'' ''date'') ''date_decoder''
      else if starts_with ''time'' normalized then decoded (module_attribute ''datetime'' ''time'') ''time_decoder''
      else if normalized = ''interval'' then decoded (relq_name ''Interval'') ''interval_decoder''
      else if d = Postgres \<and> normalized \<in> postgres_text_types then decoded (builtin_name ''str'') ''str_decoder''
      else Inl (CodegenError ''unsupported database type; map it in a relq-codegen --config file'' [name]))"

definition resolve_builtin :: "string \<Rightarrow> config option \<Rightarrow> codegen_dialect \<Rightarrow> resolved_type result" where
  "resolve_builtin name config d = (let normalized = to_lower name in
     case mapping_of config \<lparr>identity_schema = None, identity_name = normalized\<rparr> of
       Some (DirectType t) \<Rightarrow> resolve_direct t
     | Some (GeneratedWrapper wrapper t) \<Rightarrow> resolve_wrapper wrapper t
     | Some (RejectedType reason) \<Rightarrow> Inl (CodegenError ''database type is rejected'' [name, reason])
     | None \<Rightarrow>
         if d = Sqlite \<and> normalized = ''interval'' then Inl (CodegenError
           ''database type is rejected: SQLite has no interval type, and relq.Interval is PostgreSQL-only'' [name])
         else (case (if d = Sqlite then sqlite_affinity_type normalized else None) of
             Some r \<Rightarrow> r
           | None \<Rightarrow> resolve_generic name normalized d))"

fun resolve_type :: "sql_type \<Rightarrow> (type_identity \<times> string) list \<Rightarrow> config option \<Rightarrow> codegen_dialect \<Rightarrow> resolved_type result" where
  "resolve_type (ArrayType element) enums config d = and_then (resolve_type element enums config d) (\<lambda>e.
     and_then (case resolved_decoder e of None \<Rightarrow> Inr None
       | Some decoder \<Rightarrow> and_then (relq_name ''list_decoder'') (\<lambda>f. Inr (Some (Call f [decoder])))) (\<lambda>decoder.
     and_then (builtin_name ''list'') (\<lambda>l.
       Inr \<lparr>resolved_annotation = Subscript l [resolved_annotation e], resolved_decoder = decoder\<rparr>)))"
| "resolve_type (NamedType kind i) enums config d =
     (case (if kind = EnumKind then map_of enums i else None) of
        Some name \<Rightarrow> and_then (new_name name []) (\<lambda>n. and_then (relq_name ''enum_decoder'') (\<lambda>f.
          Inr \<lparr>resolved_annotation = n, resolved_decoder = Some (Call f [n])\<rparr>))
      | None \<Rightarrow> resolve_mapped_type i config)"
| "resolve_type (BuiltinType name) enums config d = resolve_builtin name config d"

section \<open>Wrapper policies\<close>

fun mapping_identity :: "sql_type \<Rightarrow> type_identity" where
  "mapping_identity (NamedType _ i) = i"
| "mapping_identity (ArrayType element) = mapping_identity element"
| "mapping_identity (BuiltinType name) = \<lparr>identity_schema = None, identity_name = to_lower name\<rparr>"

fun check_wrappers :: "(string \<times> direct_type) list \<Rightarrow> string set \<Rightarrow> unit result" where
  "check_wrappers [] names = Inr ()"
| "check_wrappers ((name, _) # rest) names =
     (if \<not> valid_name name then Inl (CodegenError ''generated wrapper name must be a valid identifier'' [name])
      else if name \<in> names then Inl (CodegenError ''duplicate generated wrapper name'' [name])
      else check_wrappers rest (insert name names))"

definition used_identities :: "schema_table list \<Rightarrow> type_identity set" where
  "used_identities tables = set (concat (map (\<lambda>t. map (mapping_identity \<circ> column_type) (table_columns t)) tables))"

definition used_wrapper_policies :: "schema_table list \<Rightarrow> config option \<Rightarrow> (string \<times> direct_type) list result" where
  "used_wrapper_policies tables config = (case config of None \<Rightarrow> Inr []
     | Some items \<Rightarrow>
         (let wrappers = concat (map (\<lambda>(i, mapping). case mapping of
                GeneratedWrapper name t \<Rightarrow> if i \<in> used_identities tables then [(name, t)] else [] | _ \<Rightarrow> []) items)
          in and_then (check_wrappers wrappers {}) (\<lambda>_. Inr (sort_key fst wrappers))))"

end
