(* ===== verification/Codegen_Names.thy ===== *)
theory Codegen_Names
  imports Codegen_Model
begin

text \<open>
  The code generator's naming pass (\<open>relq_codegen/render.py\<close>): every name a generated module binds is allocated
  against the names the module must keep.
\<close>

section \<open>Reserved names\<close>

definition module_imports :: "python_import set" where
  "module_imports = {\<lparr>import_module = ''collections.abc'', import_names = [''Iterable'']\<rparr>,
     \<lparr>import_module = ''dataclasses'', import_names = [''dataclass'']\<rparr>, import_only ''enum'', from_relq [''row_adapter''],
     from_relq [''Column'', ''InsertQuery'', ''Table'', ''UpdateQuery'', ''column'', ''insert_into'', ''update''],
     \<lparr>import_module = ''typing'', import_names = [''Literal'', ''NewType'', ''NotRequired'', ''Required'', ''TypedDict'']\<rparr>}"

definition builtin_names :: "string set" where
  "builtin_names = {''bool'', ''bytes'', ''float'', ''int'', ''list'', ''str'', ''tuple''}"

definition relation_attributes :: "string set" where
  "relation_attributes = {''_alias'', ''_reference'', ''_schema'', ''_source'', ''_state'', ''as_'', ''column_names'', ''node'',
     ''output_names'', ''reference'', ''table_name''}"

definition reserved_names :: "string set" where
  "reserved_names = \<Union> (bound_names ` (module_imports \<union> mapping_imports)) \<union> builtin_names \<union> relation_attributes"

definition configured_annotation :: "type_mapping \<Rightarrow> render_expression list" where
  "configured_annotation mapping = (case mapping of DirectType t \<Rightarrow> [annotation t] | GeneratedWrapper _ t \<Rightarrow> [annotation t]
     | RejectedType _ \<Rightarrow> [])"

definition reserved_for :: "config option \<Rightarrow> string set" where
  "reserved_for config = (case config of None \<Rightarrow> reserved_names
     | Some items \<Rightarrow> reserved_names \<union> \<Union> ((\<lambda>e. names_of e \<union> \<Union> (bound_names ` imports_of e))
         ` set (concat (map (configured_annotation \<circ> snd) items))))"

section \<open>Allocation\<close>

text \<open>
  A template is the text before and behind the name.  The forms of a stem are tried in order; \<open>second\<close> is the suffix
  of the second one.  The names taken are a list, so there are finitely many.
\<close>

type_synonym template = "string \<times> string"

definition in_template :: "template \<Rightarrow> string \<Rightarrow> string" where
  "in_template t candidate = fst t @ candidate @ snd t"

definition class_templates :: "template list" where
  "class_templates = [('''', ''''), ('''', ''Insert''), ('''', ''Update''), ('''', ''Row'')]"

definition instance_templates :: "template list" where
  "instance_templates = [('''', ''''), (''insert_'', ''''), (''insert_'', ''_many''), (''update_'', ''''), ('''', ''_row_adapter'')]"

definition plain_template :: "template list" where
  "plain_template = [('''', '''')]"

definition form :: "string \<Rightarrow> string \<Rightarrow> nat \<Rightarrow> string" where
  "form second stem attempt = (if attempt \<le> 1 then stem else if attempt = 2 then stem @ second
     else stem @ ''_'' @ str_of_nat attempt)"

definition blocked :: "string \<Rightarrow> string \<Rightarrow> template list \<Rightarrow> string list \<Rightarrow> nat \<Rightarrow> bool" where
  "blocked second stem templates taken attempt \<longleftrightarrow>
     list_ex (\<lambda>t. in_template t (form second stem attempt) \<in> set taken) templates"

lemma nat_digits_read: "foldl (\<lambda>n c. 10 * n + (code c - 48)) 0 (nat_digits n) = n"
proof (induction n rule: nat_digits.induct)
  case (1 n)
  have "code (char_of (48 + i)) = 48 + i" if "i < 10" for i
    using that by (simp add: code_def take_bit_eq_mod)
  then show ?case using "1.IH" by (simp add: nat_digits.simps [of n])
qed

lemma nat_digits_inj: "nat_digits m = nat_digits n \<Longrightarrow> m = n"
  by (metis nat_digits_read)

lemma form_inj:
  assumes "3 \<le> i" "3 \<le> j" "form second stem i = form second stem j"
  shows "i = j"
  using assms by (auto simp: form_def str_of_nat_def dest: nat_digits_inj)

lemma finite_blocked: "finite {j. blocked second stem templates taken j}"
proof -
  have one: "finite {j. 3 \<le> j \<and> in_template t (form second stem j) \<in> set taken}" for t
  proof (rule finite_imageD)
    show "finite ((\<lambda>j. in_template t (form second stem j)) ` {j. 3 \<le> j \<and> in_template t (form second stem j) \<in> set taken})"
      by (rule finite_subset [of _ "set taken"]) auto
    show "inj_on (\<lambda>j. in_template t (form second stem j)) {j. 3 \<le> j \<and> in_template t (form second stem j) \<in> set taken}"
      by (rule inj_onI) (auto simp: in_template_def dest: form_inj)
  qed
  have "{j. blocked second stem templates taken j} \<subseteq> {0, 1, 2} \<union> (\<Union>t \<in> set templates. {j. 3 \<le> j \<and> in_template t (form second stem j) \<in> set taken})"
    by (auto simp: blocked_def list_ex_iff)
  then show ?thesis by (rule finite_subset) (use one in auto)
qed

function allocate_from :: "string \<Rightarrow> string \<Rightarrow> template list \<Rightarrow> string list \<Rightarrow> nat \<Rightarrow> string" where
  "allocate_from second stem templates taken attempt =
     (if blocked second stem templates taken attempt then allocate_from second stem templates taken (Suc attempt)
      else form second stem attempt)"
  by pat_completeness auto

termination
proof (relation "measure (\<lambda>(second, stem, templates, taken, attempt). card {j. attempt \<le> j \<and> blocked second stem templates taken j})")
  show "((second, stem, templates, taken, Suc attempt), (second, stem, templates, taken, attempt))
      \<in> measure (\<lambda>(second, stem, templates, taken, attempt). card {j. attempt \<le> j \<and> blocked second stem templates taken j})"
    if "blocked second stem templates taken attempt" for second stem templates taken attempt
  proof -
    have "{j. Suc attempt \<le> j \<and> blocked second stem templates taken j} \<subset> {j. attempt \<le> j \<and> blocked second stem templates taken j}"
      using that by (auto simp: psubset_eq set_eq_iff Suc_le_eq)
    moreover have "finite {j. attempt \<le> j \<and> blocked second stem templates taken j}"
      by (rule finite_subset [OF _ finite_blocked [of second stem templates taken]]) auto
    ultimately show ?thesis by (simp add: psubset_card_mono)
  qed
qed simp

declare allocate_from.simps [simp del]

text \<open>\<open>_allocate\<close>: the name, and the names taken with all its family.\<close>

definition allocate :: "string \<Rightarrow> template list \<Rightarrow> string list \<Rightarrow> string \<times> string list" where
  "allocate stem templates taken = (let candidate = allocate_from ''_'' stem templates taken 1
     in (candidate, map (\<lambda>t. in_template t candidate) templates @ taken))"

fun allocate_all :: "string list \<Rightarrow> string list \<Rightarrow> string list \<times> string list" where
  "allocate_all [] taken = ([], taken)"
| "allocate_all (stem # stems) taken = (case allocate stem plain_template taken of (name, taken') \<Rightarrow>
     case allocate_all stems taken' of (names, taken'') \<Rightarrow> (name # names, taken''))"

section \<open>Stems\<close>

definition ascii_alnum :: "char \<Rightarrow> bool" where
  "ascii_alnum c \<longleftrightarrow> (48 \<le> code c \<and> code c \<le> 57) \<or> (65 \<le> code c \<and> code c \<le> 90) \<or> (97 \<le> code c \<and> code c \<le> 122)"

text \<open>The non-empty parts of \<open>re.split(r"[^0-9A-Za-z]+", name)\<close>.\<close>

fun words :: "string \<Rightarrow> string \<Rightarrow> string list" where
  "words part [] = (if part = [] then [] else [part])"
| "words part (c # s) = (if ascii_alnum c then words (part @ [c]) s else (if part = [] then [] else [part]) @ words [] s)"

definition capitalize :: "string \<Rightarrow> string" where
  "capitalize s = (case s of [] \<Rightarrow> [] | c # t \<Rightarrow> to_upper [c] @ to_lower t)"

definition class_stem :: "string \<Rightarrow> string" where
  "class_stem name = (let stem = concat (map capitalize (words [] name)) in
     if stem = [] \<or> is_digit (hd stem) then ''Table_'' @ (if stem = [] then ''Generated'' else stem) else stem)"

definition dunder :: "string \<Rightarrow> bool" where
  "dunder s \<longleftrightarrow> 4 \<le> length s \<and> take 2 s = ''__'' \<and> drop (length s - 2) s = ''__'' \<and> newline \<notin> set s"

text \<open>\<open>re.sub(r"\W", "_", name)\<close>\<close>

definition word_characters :: "string \<Rightarrow> string" where
  "word_characters name = map (\<lambda>c. if is_alnum c \<or> c = CHR ''_'' then c else CHR ''_'') name"

definition identifier_of :: "string \<Rightarrow> string" where
  "identifier_of name =
     (let plain = word_characters name;
          shaped = (if dunder plain then dropWhile (\<lambda>c. c = CHR ''_'') plain else plain);
          started = (if shaped = [] \<or> is_digit (hd shaped) then ''column_'' @ shaped else shaped)
      in if started \<in> python_keywords \<or> started \<in> soft_python_keywords then started @ ''_'' else started)"

definition strip_underscores :: "string \<Rightarrow> string" where
  "strip_underscores s = rev (dropWhile (\<lambda>c. c = CHR ''_'') (rev (dropWhile (\<lambda>c. c = CHR ''_'') s)))"

definition enum_member_name :: "string \<Rightarrow> nat \<Rightarrow> string list \<Rightarrow> string" where
  "enum_member_name label index used =
     (let stripped = strip_underscores (to_upper (word_characters label));
          given = (if stripped = [] then ''VALUE_'' @ str_of_nat (index + 1) else stripped);
          started = (if is_digit (hd given) then ''VALUE_'' @ given else given);
          base = (if to_lower started \<in> python_keywords then started @ ''_'' else started)
      in allocate_from ''_2'' base plain_template used 1)"

text \<open>\<open>_enum_stems\<close>: a dict keeps the first position of a key.\<close>

definition first_occurrences :: "'a list \<Rightarrow> 'a list" where
  "first_occurrences xs = rev (remdups (rev xs))"

definition enum_stem :: "schema_enum list \<Rightarrow> type_identity \<Rightarrow> string" where
  "enum_stem enums i =
     (if length (filter (\<lambda>e. class_stem (identity_name (enum_identity e)) = class_stem (identity_name i)) enums) > 1
      then class_stem ((case identity_schema i of None \<Rightarrow> ''None'' | Some schema \<Rightarrow> schema) @ ''_'' @ identity_name i)
      else class_stem (identity_name i))"

definition enum_identities :: "schema_enum list \<Rightarrow> type_identity list" where
  "enum_identities enums = first_occurrences (map enum_identity enums)"

section \<open>The naming pass\<close>

record table_names =
  class_name :: string
  instance_name :: string
  attribute_names :: "string list"

record namespace =
  enum_names :: "(type_identity \<times> string) list"
  wrapper_names :: "string list"
  tables_names :: "table_names list"
  reserved :: "string set"

definition protected_names :: "namespace \<Rightarrow> string set" where
  "protected_names n = reserved n \<union> snd ` set (enum_names n) \<union> set (wrapper_names n)"

definition payload_names :: "table_names \<Rightarrow> string list" where
  "payload_names t = [instance_name t, class_name t @ ''Insert'', class_name t @ ''Update'', ''insert_'' @ instance_name t,
     ''insert_'' @ instance_name t @ ''_many'', ''update_'' @ instance_name t, class_name t @ ''Row'', instance_name t @ ''_row_adapter'']"

fun allocate_wrappers :: "(string \<times> direct_type) list \<Rightarrow> string list \<Rightarrow> (string list \<times> string list) result" where
  "allocate_wrappers [] taken = Inr ([], taken)"
| "allocate_wrappers ((name, _) # rest) taken =
     (if name \<in> set taken then Inl (CodegenError ''generated wrapper name collides with a name the generated module already binds'' [name])
      else and_then (allocate_wrappers rest (name # taken)) (\<lambda>(names, taken'). Inr (name # names, taken')))"

fun allocate_tables :: "string set \<Rightarrow> schema_table list \<Rightarrow> string list \<Rightarrow> table_names list" where
  "allocate_tables protected [] taken = []"
| "allocate_tables protected (t # ts) taken =
     (case allocate (class_stem (table_title t)) class_templates taken of (class, taken') \<Rightarrow>
      case allocate (identifier_of (table_title t)) instance_templates taken' of (inst, taken'') \<Rightarrow>
        \<lparr>class_name = class, instance_name = inst,
          attribute_names = fst (allocate_all (map (identifier_of \<circ> column_name) (table_columns t)) (sorted_names protected))\<rparr>
        # allocate_tables protected ts taken'')"

definition plan :: "schema_table list \<Rightarrow> schema_enum list \<Rightarrow> config option \<Rightarrow> namespace result" where
  "plan tables enums config =
     (let reserved = reserved_for config; identities = enum_identities enums in
      case allocate_all (map (enum_stem enums) identities) (sorted_names reserved) of (names, taken) \<Rightarrow>
        and_then (used_wrapper_policies tables config) (\<lambda>policies.
        and_then (allocate_wrappers policies taken) (\<lambda>(wrappers, taken').
          let n = \<lparr>enum_names = zip identities names, wrapper_names = wrappers, tables_names = [], reserved = reserved\<rparr>
          in Inr (n\<lparr>tables_names := allocate_tables (protected_names n) tables taken'\<rparr>))))"

definition check_names :: "namespace \<Rightarrow> render_expression list \<Rightarrow> unit result" where
  "check_names n expressions = (let unknown = \<Union> (names_of ` set expressions) - protected_names n in
     raise_if (unknown \<noteq> {}) (ValueError ''generated source references unreserved name(s)'' (sorted_names unknown)))"

end
