(* ===== verification/Codegen_Render.thy ===== *)
theory Codegen_Render
  imports Codegen_Names
begin

text \<open>
  The code generator's renderer (\<open>relq_codegen/render.py\<close>): the lines of every declaration of a generated module, its
  imports, its export list, and the two checks the renderer makes of its own output.
\<close>

section \<open>Parts of a module\<close>

text \<open>What a declaration adds: lines, exported names, imports, and the expressions whose names are checked.\<close>

record module_part =
  part_lines :: "string list"
  part_exports :: "string list"
  part_imports :: "python_import set"
  part_expressions :: "render_expression list"

definition annotated :: "schema_column \<Rightarrow> resolved_type \<Rightarrow> string" where
  "annotated field r = (if nullable field then render_text (resolved_annotation r) @ '' | None''
     else render_text (resolved_annotation r))"

section \<open>Enums and wrappers\<close>

fun enum_members :: "nat \<Rightarrow> string list \<Rightarrow> string list \<Rightarrow> (string \<times> string) list" where
  "enum_members index used [] = []"
| "enum_members index used (label # labels) = (let member = enum_member_name label index used
     in (member, label) # enum_members (Suc index) (member # used) labels)"

definition enum_part :: "namespace \<Rightarrow> schema_enum \<Rightarrow> module_part" where
  "enum_part n e = (let name = the (map_of (enum_names n) (enum_identity e)) in
     \<lparr>part_lines = (''class '' @ name @ ''(enum.StrEnum):'')
        # map (\<lambda>(member, label). ''    '' @ member @ '' = '' @ py_repr label) (enum_members 0 [] (enum_labels e)) @ [''''],
      part_exports = [name], part_imports = {import_only ''enum''}, part_expressions = []\<rparr>)"

definition policy_part :: "string \<times> direct_type \<Rightarrow> module_part" where
  "policy_part p = \<lparr>part_lines = [fst p @ '' = NewType('' @ py_repr (fst p) @ '', '' @ render_text (annotation (snd p)) @ '')'', ''''],
      part_exports = [fst p],
      part_imports = insert \<lparr>import_module = ''typing'', import_names = [''NewType'']\<rparr> (imports_of (annotation (snd p))),
      part_expressions = [annotation (snd p)]\<rparr>"

section \<open>Payloads\<close>

definition payload_annotation :: "bool \<Rightarrow> schema_column \<Rightarrow> resolved_type \<Rightarrow> string" where
  "payload_annotation inserting field r =
     (if inserting \<and> \<not> (nullable field \<or> primary_key field \<or> has_default field \<or> identity field)
      then ''Required['' @ annotated field r @ '']'' else ''NotRequired['' @ annotated field r @ '']'')"

definition payload_lines :: "bool \<Rightarrow> string \<Rightarrow> (schema_column \<times> resolved_type) list \<Rightarrow> string list" where
  "payload_lines inserting name columns =
     (let fields = filter (\<lambda>(field, _). \<not> generated field) columns in
      if \<not> list_all (\<lambda>(field, _). valid_name (column_name field) \<and> \<not> dunder (column_name field)) fields
      then [name @ '' = TypedDict('' @ py_repr name @ '', {''
        @ join_with '', '' (map (\<lambda>(field, r). py_repr (column_name field) @ '': '' @ payload_annotation inserting field r) fields) @ ''})'']
      else (''class '' @ name @ ''(TypedDict):'') # (if fields = [] then [''    pass'']
        else map (\<lambda>(field, r). ''    '' @ column_name field @ '': '' @ payload_annotation inserting field r) fields))"

section \<open>Tables\<close>

definition row_decoder :: "schema_column \<Rightarrow> resolved_type \<Rightarrow> render_expression option result" where
  "row_decoder field r = (case resolved_decoder r of None \<Rightarrow> Inr None
     | Some d \<Rightarrow> if nullable field then and_then (relq_name ''nullable'') (\<lambda>f. Inr (Some (Call f [d]))) else Inr (Some d))"

definition table_shape :: "(schema_column \<times> resolved_type) list \<Rightarrow> string" where
  "table_shape columns = (let row = join_with '', '' (map (\<lambda>(field, r). annotated field r) columns)
     in if row = [] then ''tuple[()]'' else ''tuple['' @ row @ '']'')"

definition class_lines :: "table_names \<Rightarrow> (schema_column \<times> resolved_type) list \<Rightarrow> string list" where
  "class_lines t columns = (''class '' @ class_name t @ ''(Table['' @ table_shape columns @ '']):'')
     # (if columns = [] then [''    pass''] else [])
     @ map (\<lambda>((field, r), attribute). ''    '' @ attribute @ '': Column['' @ annotated field r @ ''] = column(''
         @ (if attribute \<noteq> column_name field then ''name='' @ py_repr (column_name field) else '''') @ '')'')
       (zip columns (attribute_names t))
     @ ['''']"

definition table_declaration :: "schema_table \<Rightarrow> string" where
  "table_declaration table = py_repr (table_title table)
     @ (case table_schema table of None \<Rightarrow> '''' | Some schema \<Rightarrow> '', schema='' @ py_repr schema)"

definition function_lines :: "table_names \<Rightarrow> string list" where
  "function_lines t = ['''',
     ''def insert_'' @ instance_name t @ ''(values: '' @ class_name t @ ''Insert) -> InsertQuery[tuple[()], Literal[False]]:'',
     ''    return insert_into('' @ instance_name t @ '').values(**values)'', '''',
     ''def insert_'' @ instance_name t @ ''_many(values: Iterable['' @ class_name t
       @ ''Insert]) -> InsertQuery[tuple[()], Literal[False]]:'',
     ''    return insert_into('' @ instance_name t @ '').values_many(values)'', '''',
     ''def update_'' @ instance_name t @ ''(values: '' @ class_name t
       @ ''Update) -> UpdateQuery[tuple[()], Literal[False], Literal[False]]:'',
     ''    return update('' @ instance_name t @ '').values(**values)'', '''']"

definition row_lines :: "table_names \<Rightarrow> (schema_column \<times> resolved_type) list \<Rightarrow> render_expression option list \<Rightarrow> string list" where
  "row_lines t columns decoders = ['''', ''@dataclass(frozen=True)'', ''class '' @ class_name t @ ''Row:'']
     @ (if columns = [] then [''    pass''] else [])
     @ map (\<lambda>((field, r), attribute). ''    '' @ attribute @ '': '' @ annotated field r) (zip columns (attribute_names t))
     @ ['''', instance_name t @ ''_row_adapter = row_adapter('', ''    '' @ class_name t @ ''Row,'',
        ''    decoders=('' @ join_with '', '' (map (\<lambda>d. case d of None \<Rightarrow> ''None'' | Some e \<Rightarrow> render_text e) decoders)
          @ (if length decoders = 1 then '','' else '''') @ ''),'', '')'']"

definition table_part :: "(type_identity \<times> string) list \<Rightarrow> config option \<Rightarrow> codegen_dialect \<Rightarrow> schema_table \<times> table_names
    \<Rightarrow> module_part result" where
  "table_part enums config d part = (case part of (table, t) \<Rightarrow>
     and_then (map_results (\<lambda>field. resolve_type (column_type field) enums config d) (table_columns table)) (\<lambda>types.
     let columns = zip (table_columns table) types in
     and_then (map_results (\<lambda>(field, r). row_decoder field r) columns) (\<lambda>decoders. Inr
       \<lparr>part_lines = class_lines t columns @ [instance_name t @ '' = '' @ class_name t @ ''('' @ table_declaration table @ '')'', '''']
          @ payload_lines True (class_name t @ ''Insert'') columns @ ['''']
          @ payload_lines False (class_name t @ ''Update'') columns @ function_lines t @ row_lines t columns decoders,
        part_exports = class_name t # payload_names t,
        part_imports = \<Union> (resolved_imports ` set types)
          \<union> {\<lparr>import_module = ''dataclasses'', import_names = [''dataclass'']\<rparr>, from_relq [''row_adapter'']}
          \<union> \<Union> (imports_of ` set (present decoders)),
        part_expressions = map resolved_annotation types @ present decoders\<rparr>)))"

section \<open>Imports\<close>

definition formatter_line_length :: nat where "formatter_line_length = 88"

definition from_statement :: "string \<Rightarrow> string list \<Rightarrow> string" where
  "from_statement module names = (let line = render_import \<lparr>import_module = module, import_names = names\<rparr> in
     if length line \<le> formatter_line_length then line
     else ''from '' @ module @ '' import ('' @ [newline] @ concat (map (\<lambda>name. ''    '' @ name @ '','' @ [newline]) names) @ '')'')"

text \<open>\<open>stdlib\<close> is membership in \<open>sys.stdlib_module_names\<close>, which depends on the interpreter.\<close>

definition is_standard :: "(string \<Rightarrow> bool) \<Rightarrow> string \<Rightarrow> bool" where
  "is_standard stdlib module = stdlib (takeWhile (\<lambda>c. c \<noteq> CHR ''.'') module)"

definition import_section :: "(string \<Rightarrow> bool) \<Rightarrow> python_import set \<Rightarrow> bool \<Rightarrow> string list" where
  "import_section stdlib imports standard =
     map (\<lambda>module. ''import '' @ module) (filter (\<lambda>module. is_standard stdlib module = standard)
       (sorted_names (import_module ` Set.filter (\<lambda>i. import_names i = []) imports)))
     @ map (\<lambda>module. from_statement module
         (sorted_names (\<Union> ((set \<circ> import_names) ` Set.filter (\<lambda>i. import_module i = module) imports))))
       (filter (\<lambda>module. is_standard stdlib module = standard)
         (sorted_names (import_module ` Set.filter (\<lambda>i. import_names i \<noteq> []) imports)))"

definition render_imports :: "(string \<Rightarrow> bool) \<Rightarrow> python_import set \<Rightarrow> string" where
  "render_imports stdlib imports = join_with [newline, newline] (map (join_with [newline])
     (filter (\<lambda>statements. statements \<noteq> []) (map (import_section stdlib imports) [True, False])))"

section \<open>Modules\<close>

definition base_imports :: "python_import set" where
  "base_imports = {\<lparr>import_module = ''collections.abc'', import_names = [''Iterable'']\<rparr>,
     \<lparr>import_module = ''typing'', import_names = [''Literal'', ''NotRequired'', ''Required'', ''TypedDict'']\<rparr>,
     from_relq [''Column'', ''InsertQuery'', ''Table'', ''UpdateQuery'', ''column'', ''insert_into'', ''update'']}"

definition module_parts :: "schema_table list \<Rightarrow> schema_enum list \<Rightarrow> config option \<Rightarrow> codegen_dialect \<Rightarrow> namespace
    \<Rightarrow> module_part list result" where
  "module_parts tables enums config d n = and_then (used_wrapper_policies tables config) (\<lambda>policies.
     and_then (map_results (table_part (enum_names n) config d) (zip tables (tables_names n))) (\<lambda>parts.
       Inr (map (enum_part n) enums @ map policy_part policies @ parts)))"

definition exported_names :: "module_part list \<Rightarrow> string list" where
  "exported_names parts = concat (map part_exports parts)"

definition needed_imports :: "module_part list \<Rightarrow> python_import set" where
  "needed_imports parts = base_imports \<union> \<Union> (part_imports ` set parts)"

definition module_text :: "(string \<Rightarrow> bool) \<Rightarrow> module_part list \<Rightarrow> string" where
  "module_text stdlib parts = join_with [newline] ((
     [CHR 0x22, CHR 0x22, CHR 0x22] @ ''Generated by relq-codegen; do not edit manually.'' @ [CHR 0x22, CHR 0x22, CHR 0x22])
     # '''' # render_imports stdlib (needed_imports parts) # '''' # concat (map part_lines parts)
     @ [''__all__ = ['' @ join_with '', '' (map py_repr (exported_names parts)) @ '']'']) @ [newline]"

definition render_module :: "(string \<Rightarrow> bool) \<Rightarrow> schema_table list \<Rightarrow> codegen_dialect \<Rightarrow> schema_enum list \<Rightarrow> config option
    \<Rightarrow> string result" where
  "render_module stdlib tables d enums config = and_then (plan tables enums config) (\<lambda>n.
     and_then (module_parts tables enums config d n) (\<lambda>parts.
     and_then (check_names n (concat (map part_expressions parts))) (\<lambda>_.
     and_then (raise_if (set (exported_names parts) \<inter> \<Union> (bound_names ` needed_imports parts) \<noteq> {})
         (ValueError ''generated module binds a name it also imports'' [])) (\<lambda>_.
       Inr (module_text stdlib parts)))))"

end
