(* ===== verification/Codegen_Laws.thy ===== *)
theory Codegen_Laws
  imports Codegen_Render
begin

text \<open>
  What the naming pass promises: a search for a free name ends after a bounded number of forms with the first free one,
  the names of a module are distinct and outside what it reserves, and the renderer's checks of its own output pass.
\<close>

section \<open>The search for a free name\<close>

lemma allocate_from_least:
  "\<exists>k \<ge> attempt. allocate_from second stem templates taken attempt = form second stem k
    \<and> \<not> blocked second stem templates taken k \<and> (\<forall>j. attempt \<le> j \<and> j < k \<longrightarrow> blocked second stem templates taken j)"
proof (induction second stem templates taken attempt rule: allocate_from.induct)
  case (1 second stem templates taken attempt)
  show ?case
  proof (cases "blocked second stem templates taken attempt")
    case True
    then obtain k where k: "Suc attempt \<le> k" "allocate_from second stem templates taken (Suc attempt) = form second stem k"
      "\<not> blocked second stem templates taken k" "\<forall>j. Suc attempt \<le> j \<and> j < k \<longrightarrow> blocked second stem templates taken j"
      using "1.IH" by blast
    then have "attempt \<le> j \<and> j < k \<longrightarrow> blocked second stem templates taken j" for j
      using True by (cases "j = attempt") auto
    moreover have "allocate_from second stem templates taken attempt = allocate_from second stem templates taken (Suc attempt)"
      using True by (subst allocate_from.simps) simp
    ultimately show ?thesis using k by (intro exI [of _ k]) auto
  next
    case False
    then have "allocate_from second stem templates taken attempt = form second stem attempt"
      by (subst allocate_from.simps) simp
    then show ?thesis using False by (intro exI [of _ attempt]) auto
  qed
qed

text \<open>Every form of the third on is another text, so each taken name blocks one form of a template at most.\<close>

lemma card_blocked: "card {j. 3 \<le> j \<and> blocked second stem templates taken j} \<le> length templates * length taken"
proof -
  let ?J = "\<lambda>t. {j. 3 \<le> j \<and> in_template t (form second stem j) \<in> set taken}"
  have inj: "inj_on (\<lambda>j. in_template t (form second stem j)) (?J t)" for t
    by (rule inj_onI) (auto simp: in_template_def dest: form_inj)
  have one: "finite (?J t) \<and> card (?J t) \<le> length taken" for t
  proof -
    have "(\<lambda>j. in_template t (form second stem j)) ` ?J t \<subseteq> set taken" by auto
    then have "card (?J t) \<le> card (set taken)" "finite (?J t)"
      using card_inj_on_le [OF inj] inj_on_finite [OF inj] by blast+
    then show ?thesis using card_length [of taken] by linarith
  qed
  have "{j. 3 \<le> j \<and> blocked second stem templates taken j} = (\<Union>t \<in> set templates. ?J t)"
    by (auto simp: blocked_def list_ex_iff)
  also have "card \<dots> \<le> (\<Sum>t \<in> set templates. card (?J t))" by (rule card_UN_le) simp
  also have "\<dots> \<le> (\<Sum>t \<in> set templates. length taken)" by (rule sum_mono) (use one in blast)
  also have "\<dots> \<le> length templates * length taken" by (simp add: card_length)
  finally show ?thesis .
qed

text \<open>
  C40.  The search for a free name ends: it settles for the first form of the stem whose whole family of names is free,
  and it has tried at most three forms more than there are pairs of a template and a taken name.
\<close>

theorem allocation_ends:
  "\<exists>k. 1 \<le> k \<and> k \<le> length templates * length taken + 3 \<and> allocate_from second stem templates taken 1 = form second stem k
    \<and> \<not> blocked second stem templates taken k \<and> list_all (blocked second stem templates taken) [1..<k]"
proof -
  obtain k where k: "1 \<le> k" "allocate_from second stem templates taken 1 = form second stem k"
    "\<not> blocked second stem templates taken k" "\<forall>j. 1 \<le> j \<and> j < k \<longrightarrow> blocked second stem templates taken j"
    using allocate_from_least [of 1 second stem templates taken] by auto
  have "{3..<k} \<subseteq> {j. 3 \<le> j \<and> blocked second stem templates taken j}" using k(4) by auto
  then have "card {3..<k} \<le> card {j. 3 \<le> j \<and> blocked second stem templates taken j}"
    by (rule card_mono [OF finite_subset [OF _ finite_blocked [of second stem templates taken]], rotated]) auto
  with card_blocked [of second stem templates taken] have "k \<le> length templates * length taken + 3" by simp
  then show ?thesis using k by (auto simp: list_all_iff)
qed

section \<open>Families of names\<close>

lemma allocate_fresh:
  assumes "allocate stem templates taken = (c, taken')"
  shows "\<forall>t \<in> set templates. in_template t c \<notin> set taken" "taken' = map (\<lambda>t. in_template t c) templates @ taken"
  using allocate_from_least [of 1 "''_''" stem templates taken] assms
  by (auto simp: allocate_def Let_def blocked_def list_ex_iff)

lemma allocate_all_fresh:
  "allocate_all stems taken = (names, taken') \<Longrightarrow> length names = length stems \<and> distinct names
     \<and> set names \<inter> set taken = {} \<and> set taken' = set names \<union> set taken"
proof (induction stems arbitrary: taken names taken')
  case (Cons stem stems)
  obtain c taken1 where c: "allocate stem plain_template taken = (c, taken1)" by (cases "allocate stem plain_template taken")
  obtain rest where rest: "allocate_all stems taken1 = (rest, taken')" "names = c # rest"
    using Cons.prems c by (auto split: prod.splits)
  from allocate_fresh [OF c] have "c \<notin> set taken" "taken1 = c # taken" by (auto simp: plain_template_def in_template_def)
  then show ?case using Cons.IH [OF rest(1)] rest(2) by auto
qed simp

lemma allocate_wrappers_fresh:
  "allocate_wrappers policies taken = Inr (names, taken') \<Longrightarrow> names = map fst policies \<and> distinct names
     \<and> set names \<inter> set taken = {} \<and> set taken' = set names \<union> set taken"
proof (induction policies arbitrary: taken names taken')
  case (Cons p policies)
  obtain name t where p: "p = (name, t)" by (cases p)
  obtain rest where "allocate_wrappers policies (name # taken) = Inr (rest, taken')" "names = name # rest" "name \<notin> set taken"
    using Cons.prems p by (auto simp: and_then_ok split: if_splits)
  then show ?case using Cons.IH p by fastforce
qed simp

text \<open>What one table binds at the top of the module.\<close>

definition bound_by_table :: "table_names \<Rightarrow> string list" where
  "bound_by_table t = class_name t # payload_names t"

lemma allocate_tables_fresh:
  "distinct (concat (map bound_by_table (allocate_tables protected tables taken)))
   \<and> set (concat (map bound_by_table (allocate_tables protected tables taken))) \<inter> set taken = {}"
proof (induction protected tables taken rule: allocate_tables.induct)
  case (2 protected t ts taken)
  obtain c taken1 where c: "allocate (class_stem (table_title t)) class_templates taken = (c, taken1)"
    by (cases "allocate (class_stem (table_title t)) class_templates taken")
  obtain i taken2 where i: "allocate (identifier_of (table_title t)) instance_templates taken1 = (i, taken2)"
    by (cases "allocate (identifier_of (table_title t)) instance_templates taken1")
  let ?t = "\<lparr>class_name = c, instance_name = i,
    attribute_names = fst (allocate_all (map (identifier_of \<circ> column_name) (table_columns t)) (sorted_names protected))\<rparr>"
  let ?family = "[c, c @ ''Insert'', c @ ''Update'', c @ ''Row'']"
  let ?inst = "[i, ''insert_'' @ i, ''insert_'' @ i @ ''_many'', ''update_'' @ i, i @ ''_row_adapter'']"
  from allocate_fresh [OF c] have klass: "set ?family \<inter> set taken = {}" "taken1 = ?family @ taken"
    by (auto simp: class_templates_def in_template_def)
  from allocate_fresh [OF i] have inst: "set ?inst \<inter> set taken1 = {}" "taken2 = ?inst @ taken1"
    by (auto simp: instance_templates_def in_template_def)
  have same: "set (bound_by_table ?t) = set ?family \<union> set ?inst" by (auto simp: bound_by_table_def payload_names_def)
  have "distinct ?family" by simp
  moreover have "distinct ?inst"
    by (auto simp: append_eq_conv_conj dest: arg_cong [of _ _ length] arg_cong [of _ _ hd] arg_cong [of _ _ last])
  ultimately have "distinct (?family @ ?inst)" using inst(1) klass(2) by auto
  then have table: "distinct (bound_by_table ?t)" by (auto simp: bound_by_table_def payload_names_def)
  show ?case
    using "2.IH" [OF c [symmetric] i [symmetric]] klass inst same table c i by auto
qed simp

section \<open>The names of a module\<close>

lemma finite_expression: "finite (imports_of e)" "finite (names_of e)"
  by (induction e) auto

lemma finite_bound_names: "finite (bound_names i)"
  by (simp add: bound_names_def)

lemma finite_relq_names: "finite relq_names"
  by (simp add: relq_names_def)

lemma finite_reserved_names: "finite reserved_names"
  by (simp add: reserved_names_def module_imports_def mapping_imports_def stdlib_modules_def builtin_names_def
      relation_attributes_def finite_bound_names finite_relq_names)

lemma finite_reserved_for: "finite (reserved_for config)"
  by (auto simp: reserved_for_def finite_reserved_names finite_expression finite_bound_names split: option.split)

lemma set_sorted_names: "finite A \<Longrightarrow> set (sorted_names A) = A"
  by (simp add: sorted_names_def)

definition module_names :: "namespace \<Rightarrow> string list" where
  "module_names n = map snd (enum_names n) @ wrapper_names n @ concat (map bound_by_table (tables_names n))"

text \<open>A plan in the order it is made.\<close>

lemma plan_steps:
  assumes "plan tables enums config = Inr n"
  obtains names taken policies taken' m where
    "allocate_all (map (enum_stem enums) (enum_identities enums)) (sorted_names (reserved_for config)) = (names, taken)"
    "used_wrapper_policies tables config = Inr policies"
    "allocate_wrappers policies taken = Inr (wrapper_names n, taken')"
    "enum_names n = zip (enum_identities enums) names" "reserved n = reserved_for config"
    "protected_names m = protected_names n" "tables_names n = allocate_tables (protected_names m) tables taken'"
proof -
  obtain names taken where a: "allocate_all (map (enum_stem enums) (enum_identities enums)) (sorted_names (reserved_for config)) = (names, taken)"
    by (cases "allocate_all (map (enum_stem enums) (enum_identities enums)) (sorted_names (reserved_for config))")
  then obtain policies where b: "used_wrapper_policies tables config = Inr policies"
    using assms by (auto simp: plan_def Let_def and_then_ok)
  then obtain wrappers taken' where c: "allocate_wrappers policies taken = Inr (wrappers, taken')"
    using assms a by (auto simp: plan_def Let_def and_then_ok)
  let ?m = "\<lparr>enum_names = zip (enum_identities enums) names, wrapper_names = wrappers, tables_names = [], reserved = reserved_for config\<rparr>"
  have n: "n = ?m\<lparr>tables_names := allocate_tables (protected_names ?m) tables taken'\<rparr>"
    using assms a b c by (simp add: plan_def Let_def and_then_def)
  show ?thesis by (rule that [OF a b, of taken' ?m]) (use c n in \<open>simp_all add: protected_names_def\<close>)
qed

lemma allocate_tables_shape:
  "length (allocate_tables protected tables taken) = length tables"
  by (induction protected tables taken rule: allocate_tables.induct) (auto split: prod.split)

lemma allocate_tables_attributes:
  assumes "finite protected"
  shows "list_all2 (\<lambda>table t. length (attribute_names t) = length (table_columns table) \<and> distinct (attribute_names t)
     \<and> set (attribute_names t) \<inter> protected = {}) tables (allocate_tables protected tables taken)"
  using assms
proof (induction protected tables taken rule: allocate_tables.induct)
  case (2 protected t ts taken)
  have "length (fst (allocate_all stems (sorted_names protected))) = length stems
      \<and> distinct (fst (allocate_all stems (sorted_names protected)))
      \<and> set (fst (allocate_all stems (sorted_names protected))) \<inter> protected = {}" for stems
    using allocate_all_fresh [of stems "sorted_names protected" "fst (allocate_all stems (sorted_names protected))"
        "snd (allocate_all stems (sorted_names protected))"] "2.prems" by (simp add: set_sorted_names)
  then show ?case using "2.IH" "2.prems" by (auto split: prod.split)
qed simp

lemma planned_names:
  assumes "plan tables enums config = Inr n"
  shows "distinct (module_names n) \<and> set (module_names n) \<inter> reserved_for config = {}
    \<and> map fst (enum_names n) = enum_identities enums
    \<and> list_all2 (\<lambda>table t. length (attribute_names t) = length (table_columns table) \<and> distinct (attribute_names t)
        \<and> set (attribute_names t) \<inter> protected_names n = {}) tables (tables_names n)"
proof -
  obtain names taken policies taken' m where plan:
    "allocate_all (map (enum_stem enums) (enum_identities enums)) (sorted_names (reserved_for config)) = (names, taken)"
    "allocate_wrappers policies taken = Inr (wrapper_names n, taken')"
    "enum_names n = zip (enum_identities enums) names" "reserved n = reserved_for config"
    "protected_names m = protected_names n" "tables_names n = allocate_tables (protected_names m) tables taken'"
    by (rule plan_steps [OF assms])
  note enums = allocate_all_fresh [OF plan(1)] and wrappers = allocate_wrappers_fresh [OF plan(2)]
  have "finite (protected_names n)" using plan(4) by (simp add: protected_names_def finite_reserved_for)
  with allocate_tables_attributes plan(5,6) have attributes: "list_all2 (\<lambda>table t.
      length (attribute_names t) = length (table_columns table) \<and> distinct (attribute_names t)
      \<and> set (attribute_names t) \<inter> protected_names n = {}) tables (tables_names n)" by simp
  have kept: "map fst (enum_names n) = enum_identities enums" "map snd (enum_names n) = names" using plan(3) enums by simp_all
  have taken: "set taken = set names \<union> reserved_for config" using enums set_sorted_names [OF finite_reserved_for] by simp
  have tables: "distinct (concat (map bound_by_table (tables_names n)))"
    "set (concat (map bound_by_table (tables_names n))) \<inter> set taken' = {}"
    unfolding plan(6) by (rule allocate_tables_fresh [THEN conjunct1], rule allocate_tables_fresh [THEN conjunct2])
  have disjoint: "set names \<inter> reserved_for config = {}" "set (wrapper_names n) \<inter> set taken = {}"
    "set taken' = set (wrapper_names n) \<union> set taken" "distinct names" "distinct (wrapper_names n)"
    using enums wrappers taken unfolding set_sorted_names [OF finite_reserved_for] by blast+
  have "distinct (module_names n)"
    unfolding module_names_def kept distinct_append set_append using disjoint tables taken by blast
  moreover have "set (module_names n) \<inter> reserved_for config = {}"
    unfolding module_names_def kept set_append using disjoint tables taken by blast
  ultimately show ?thesis using kept attributes by blast
qed

text \<open>
  C36.  The naming pass gives every enum, every used wrapper and, for every table, its class, its payloads, its row, its
  functions, its adapter and the table itself a name of its own, none of which the module imports or reserves; the
  attributes of a table are one for each column, distinct, and hide nothing that a class body refers to.
\<close>

theorem module_names_distinct:
  assumes "plan tables enums config = Inr n"
  shows "distinct (module_names n) \<and> set (module_names n) \<inter> reserved_for config = {}
    \<and> map fst (enum_names n) = enum_identities enums
    \<and> list_all2 (\<lambda>table t. length (attribute_names t) = length (table_columns table) \<and> distinct (attribute_names t)
        \<and> set (attribute_names t) \<inter> protected_names n = {}) tables (tables_names n)"
  by (rule planned_names [OF assms])

section \<open>A table called column\<close>

lemma module_bound_names:
  "\<Union> (bound_names ` module_imports) = {''Iterable'', ''dataclass'', ''enum'', ''row_adapter'', ''Column'', ''InsertQuery'', ''Table'',
     ''UpdateQuery'', ''column'', ''insert_into'', ''update'', ''Literal'', ''NewType'', ''NotRequired'', ''Required'', ''TypedDict''}"
  unfolding module_imports_def image_insert image_empty Union_insert Union_empty
  by (simp add: bound_names_def from_relq_def import_only_def insert_commute)

lemma module_names_reserved: "\<Union> (bound_names ` module_imports) \<subseteq> reserved_names"
  by (auto simp: reserved_names_def)

lemma reserved_names_listed:
  "reserved_names = relq_names \<union> {''datetime'', ''decimal'', ''uuid'', ''Iterable'', ''dataclass'', ''enum'', ''row_adapter'', ''Column'', ''InsertQuery'', ''Table'',
     ''UpdateQuery'', ''column'', ''insert_into'', ''update'', ''Literal'', ''NewType'', ''NotRequired'', ''Required'', ''TypedDict''}
     \<union> builtin_names \<union> relation_attributes"
proof -
  have "\<Union> (bound_names ` mapping_imports) = relq_names \<union> {''datetime'', ''decimal'', ''uuid''}"
    by (auto simp: mapping_imports_def stdlib_modules_def bound_names_def from_relq_def import_only_def)
  then show ?thesis unfolding reserved_names_def image_Un Union_Un_distrib module_bound_names by auto
qed

definition column_table :: schema_table where
  "column_table = \<lparr>table_title = ''column'', table_columns = [\<lparr>column_name = ''id'', column_type = BuiltinType ''integer'',
     nullable = False, primary_key = True, has_default = False, identity = False, generated = False\<rparr>], table_schema = None\<rparr>"

lemma column_stems: "class_stem ''column'' = ''Column''" "identifier_of ''column'' = ''column''" "identifier_of ''id'' = ''id''"
  by code_simp+

lemma column_reserved:
   "''Column'' \<in> reserved_names" "''column'' \<in> reserved_names"
   "x \<in> {''Column_'', ''Column_Insert'', ''Column_Update'', ''Column_Row'', ''column_'', ''insert_column_'', ''insert_column__many'', ''update_column_'', ''column__row_adapter'', ''id''} \<Longrightarrow> x \<notin> reserved_names"
  by (auto simp: reserved_names_listed relq_names_def decoder_kinds_def builtin_names_def relation_attributes_def)

lemma column_allocated: "allocate ''Column'' class_templates (sorted_names reserved_names) = (''Column_'', [''Column_'', ''Column_Insert'', ''Column_Update'', ''Column_Row''] @ sorted_names reserved_names)"
 "allocate ''column'' instance_templates ([''Column_'', ''Column_Insert'', ''Column_Update'', ''Column_Row''] @ sorted_names reserved_names) = (''column_'',
    [''column_'', ''insert_column_'', ''insert_column__many'', ''update_column_'', ''column__row_adapter'', ''Column_'', ''Column_Insert'', ''Column_Update'', ''Column_Row''] @ sorted_names reserved_names)"
"allocate ''id'' plain_template (sorted_names reserved_names) = (''id'', ''id'' # sorted_names reserved_names)"
  using column_reserved 
  by (simp_all add: allocate_def Let_def allocate_from.simps blocked_def in_template_def form_def class_templates_def instance_templates_def plain_template_def
    set_sorted_names [OF finite_reserved_names])

definition column_names :: namespace where
  "column_names = \<lparr>enum_names = [], wrapper_names = [],
    tables_names = [\<lparr>class_name = ''Column_'', instance_name = ''column_'', attribute_names = [''id'']\<rparr>], reserved = reserved_names\<rparr>"

lemma column_plan: "plan [column_table] [] None = Inr column_names"
  by (simp add: plan_def enum_identities_def first_occurrences_def used_wrapper_policies_def and_then_def column_stems column_table_def
     reserved_for_def protected_names_def column_names_def column_allocated [simplified] del: append_Cons)

theorem module_names_distinct_witness:
  "distinct (module_names column_names) \<and> set (module_names column_names) \<inter> reserved_for None = {}
    \<and> class_name (hd (tables_names column_names)) = ''Column_''"
  using module_names_distinct [OF column_plan] by (simp add: column_names_def)

end
