(* ===== verification/Codegen_Scope.thy ===== *)
theory Codegen_Scope
  imports Codegen_Laws
begin

text \<open>
  What the expressions of a generated module refer to: the annotation and the decoder of a column name only what the
  naming pass keeps, and import only what it reserves, so the two checks the renderer makes of its output always pass.
\<close>

section \<open>Expressions in scope\<close>

definition in_scope :: "string set \<Rightarrow> python_import set \<Rightarrow> render_expression \<Rightarrow> bool" where
  "in_scope N I e \<longleftrightarrow> names_of e \<subseteq> N \<and> imports_of e \<subseteq> I"

lemma in_scope_simps [simp]:
  "in_scope N I (Name v deps) \<longleftrightarrow> v \<in> N \<and> set deps \<subseteq> I"
  "in_scope N I (Attribute e name) \<longleftrightarrow> in_scope N I e"
  "in_scope N I (Subscript e args) \<longleftrightarrow> in_scope N I e \<and> list_all (in_scope N I) args"
  "in_scope N I (StringLiteral v)"
  "in_scope N I (Call e args) \<longleftrightarrow> in_scope N I e \<and> list_all (in_scope N I) args"
  "in_scope N I (UnionOf args) \<longleftrightarrow> list_all (in_scope N I) args"
  by (auto simp: in_scope_def list_all_iff)

definition type_in_scope :: "string set \<Rightarrow> python_import set \<Rightarrow> resolved_type \<Rightarrow> bool" where
  "type_in_scope N I r \<longleftrightarrow> in_scope N I (resolved_annotation r) \<and> pred_option (in_scope N I) (resolved_decoder r)"

lemma relq_name_ok [ok_iff]: "relq_name x = Inr e \<longleftrightarrow> x \<in> relq_names \<and> valid_name x \<and> e = Name x [from_relq [x]]"
  by (auto simp: relq_name_def new_name_def and_then_ok)

lemma builtin_name_ok [ok_iff]: "builtin_name x = Inr e \<longleftrightarrow> valid_name x \<and> e = Name x []"
  by (auto simp: builtin_name_def new_name_def and_then_ok)

lemma new_name_ok [ok_iff]: "new_name x deps = Inr e \<longleftrightarrow> valid_name x \<and> e = Name x deps"
  by (auto simp: new_name_def and_then_ok)

lemma module_attribute_ok [ok_iff]: "module_attribute m x = Inr e \<longleftrightarrow>
    m \<in> stdlib_modules \<and> valid_name m \<and> valid_name x \<and> e = Attribute (Name m [import_only m]) x"
  by (auto simp: module_attribute_def new_name_def new_attribute_def and_then_ok)

text \<open>The scope that the library's names and a configuration's types need.\<close>

definition base_scope :: "string set \<Rightarrow> python_import set \<Rightarrow> bool" where
  "base_scope N I \<longleftrightarrow> relq_names \<union> stdlib_modules \<union> builtin_names \<subseteq> N \<and> mapping_imports \<subseteq> I"

lemma relq_name_in_scope: "base_scope N I \<Longrightarrow> relq_name x = Inr e \<Longrightarrow> in_scope N I e"
  by (auto simp: base_scope_def ok_iff mapping_imports_def)

definition plain_annotation :: "render_expression result \<Rightarrow> bool" where
  "plain_annotation a \<longleftrightarrow> (\<exists>x \<in> builtin_names. a = builtin_name x) \<or> (\<exists>x. a = relq_name x) \<or> (\<exists>m x. a = module_attribute m x)"

lemma plain_annotations:
  "plain_annotation (relq_name x)" "plain_annotation (module_attribute m x)"
  "plain_annotation (builtin_name ''int'')" "plain_annotation (builtin_name ''str'')" "plain_annotation (builtin_name ''bool'')"
  "plain_annotation (builtin_name ''bytes'')" "plain_annotation (builtin_name ''float'')"
  by (auto simp: plain_annotation_def builtin_names_def)

definition resolves_in_scope :: "string set \<Rightarrow> python_import set \<Rightarrow> resolved_type result \<Rightarrow> bool" where
  "resolves_in_scope N I m \<longleftrightarrow> (\<forall>r. m = Inr r \<longrightarrow> type_in_scope N I r)"

lemma resolves_intros:
  "resolves_in_scope N I x \<Longrightarrow> resolves_in_scope N I y \<Longrightarrow> resolves_in_scope N I (if b then x else y)"
  "resolves_in_scope N I (Inl e)"
  by (simp_all add: resolves_in_scope_def)

lemma decoded_in_scope:
  assumes "base_scope N I" "plain_annotation a"
  shows "resolves_in_scope N I (decoded a x)"
proof -
  have "in_scope N I e" if e: "a = Inr e" for e
  proof -
    from assms(2) consider (builtin) x where "x \<in> builtin_names" "builtin_name x = Inr e" | (relq) x where "relq_name x = Inr e"
      | (attribute) m x where "module_attribute m x = Inr e" unfolding plain_annotation_def e by metis
    then show ?thesis using assms(1) by cases (auto simp: base_scope_def ok_iff mapping_imports_def)
  qed
  then show ?thesis using relq_name_in_scope [OF assms(1)]
    by (auto simp: decoded_def and_then_ok type_in_scope_def resolves_in_scope_def)
qed

lemma resolve_generic_in_scope: "base_scope N I \<Longrightarrow> resolves_in_scope N I (resolve_generic name normalized d)"
  unfolding resolve_generic_def by (intro resolves_intros decoded_in_scope plain_annotations)

lemma sqlite_affinity_in_scope:
  assumes "base_scope N I"
  shows "case sqlite_affinity_type normalized of None \<Rightarrow> True | Some m \<Rightarrow> resolves_in_scope N I m"
  unfolding sqlite_affinity_type_def by (simp add: decoded_in_scope [OF assms] plain_annotations)

section \<open>Resolved types in scope\<close>

text \<open>What the policy of an identity needs of a scope.\<close>

fun policy_scope :: "string set \<Rightarrow> python_import set \<Rightarrow> type_mapping option \<Rightarrow> bool" where
  "policy_scope N I (Some (DirectType t)) \<longleftrightarrow> in_scope N I (annotation t)"
| "policy_scope N I (Some (GeneratedWrapper name t)) \<longleftrightarrow> name \<in> N"
| "policy_scope N I _ \<longleftrightarrow> True"

lemma resolve_direct_in_scope:
  "base_scope N I \<Longrightarrow> in_scope N I (annotation t) \<Longrightarrow> resolves_in_scope N I (resolve_direct t)"
  using relq_name_in_scope
  by (fastforce simp: resolves_in_scope_def resolve_direct_def decoder_for_direct_type_def and_then_ok type_in_scope_def)

lemma resolve_wrapper_in_scope:
  "base_scope N I \<Longrightarrow> name \<in> N \<Longrightarrow> resolves_in_scope N I (resolve_wrapper name t)"
  using relq_name_in_scope
  by (fastforce simp: resolves_in_scope_def resolve_wrapper_def decoder_for_direct_type_def and_then_ok type_in_scope_def new_name_ok)

lemmas policies_in_scope = resolve_direct_in_scope resolve_wrapper_in_scope resolves_intros

lemma resolve_mapped_in_scope:
  "base_scope N I \<Longrightarrow> policy_scope N I (mapping_of config i) \<Longrightarrow> resolves_in_scope N I (resolve_mapped_type i config)"
  by (auto simp: resolve_mapped_type_def policies_in_scope split: option.split type_mapping.split)

lemma resolve_builtin_in_scope:
  "base_scope N I \<Longrightarrow> policy_scope N I (mapping_of config \<lparr>identity_schema = None, identity_name = to_lower name\<rparr>)
    \<Longrightarrow> resolves_in_scope N I (resolve_builtin name config d)"
  using sqlite_affinity_in_scope [of N I "to_lower name"]
  by (auto simp: resolve_builtin_def Let_def policies_in_scope resolve_generic_in_scope split: option.splits type_mapping.split)

lemma resolve_type_in_scope:
  assumes "base_scope N I" "policy_scope N I (mapping_of config (mapping_identity t))" "snd ` set enums \<subseteq> N"
  shows "resolves_in_scope N I (resolve_type t enums config d)"
  using assms
proof (induction t enums config d rule: resolve_type.induct)
  case (1 element enums config d)
  then have "resolves_in_scope N I (resolve_type element enums config d)" by simp
  then show ?case using "1.prems" relq_name_in_scope
    by (fastforce simp: resolves_in_scope_def and_then_ok type_in_scope_def builtin_name_ok base_scope_def builtin_names_def
        split: option.splits)
next
  case (2 kind i enums config d)
  have enum: "resolves_in_scope N I (and_then (new_name name []) (\<lambda>n. and_then (relq_name ''enum_decoder'')
      (\<lambda>f. Inr \<lparr>resolved_annotation = n, resolved_decoder = Some (Call f [n])\<rparr>)))" if "name \<in> N" for name
    using that relq_name_in_scope "2.prems"(1)
    by (fastforce simp: resolves_in_scope_def and_then_ok type_in_scope_def new_name_ok)
  have "name \<in> N" if "map_of enums i = Some name" for name
    using map_of_SomeD [OF that] "2.prems"(3) by force
  then show ?case using "2.prems" by (auto simp: enum resolve_mapped_in_scope split: option.split)
next
  case (3 name enums config d)
  then show ?case by (simp add: resolve_builtin_in_scope)
qed

section \<open>The scope of a plan\<close>

text \<open>The imports that bind reserved names only.\<close>

definition safe_imports :: "config option \<Rightarrow> python_import set" where
  "safe_imports config = {i. bound_names i \<subseteq> reserved_for config}"

lemma reserved_names_kept: "reserved_names \<subseteq> reserved_for config"
  by (auto simp: reserved_for_def split: option.split)

lemma configured_in_scope:
  assumes "config = Some items" "(i, m) \<in> set items" "e \<in> set (configured_annotation m)"
  shows "names_of e \<subseteq> reserved_for config" "imports_of e \<subseteq> safe_imports config"
  using assms by (fastforce simp: reserved_for_def safe_imports_def)+

lemma plan_base_scope:
  assumes "reserved n = reserved_for config"
  shows "base_scope (protected_names n) (safe_imports config)"
proof -
  have relq: "bound_names (from_relq [x]) = {x}" for x by (simp add: bound_names_def from_relq_def)
  have std: "bound_names (import_only x) = {x}" if "x \<in> stdlib_modules" for x
    using that by (auto simp: bound_names_def import_only_def stdlib_modules_def)
  have "relq_names \<union> stdlib_modules \<union> builtin_names \<subseteq> reserved_names"
    using relq std by (auto simp: reserved_names_def mapping_imports_def)
  moreover have "mapping_imports \<subseteq> safe_imports config"
    using reserved_names_kept [of config] by (auto simp: safe_imports_def reserved_names_def)
  ultimately show ?thesis
    using reserved_names_kept [of config] assms by (auto simp: base_scope_def protected_names_def)
qed

lemma used_wrapper_listed:
  assumes "used_wrapper_policies tables config = Inr policies" "mapping_of config i = Some (GeneratedWrapper name t)"
    "i \<in> used_identities tables"
  shows "(name, t) \<in> set policies"
proof -
  obtain items where items: "config = Some items" "(i, GeneratedWrapper name t) \<in> set items"
    using assms(2) by (auto simp: mapping_of_def bind_eq_Some_conv dest: map_of_SomeD)
  then show ?thesis using assms(1,3)
    by (force simp: used_wrapper_policies_def and_then_ok Let_def)
qed

lemma used_wrapper_configured:
  assumes "used_wrapper_policies tables config = Inr policies" "(name, t) \<in> set policies"
  obtains items i where "config = Some items" "(i, GeneratedWrapper name t) \<in> set items"
  using assms by (cases config) (auto simp: used_wrapper_policies_def and_then_ok Let_def split: type_mapping.splits if_splits)

lemma plan_policy_scope:
  assumes plan: "plan tables enums config = Inr n" and "i \<in> used_identities tables"
  shows "policy_scope (protected_names n) (safe_imports config) (mapping_of config i)"
proof -
  obtain names taken policies taken' m where steps: "used_wrapper_policies tables config = Inr policies"
    "allocate_wrappers policies taken = Inr (wrapper_names n, taken')" "reserved n = reserved_for config"
    by (rule plan_steps [OF plan])
  show ?thesis
  proof (cases "mapping_of config i")
    case (Some policy)
    then obtain items where items: "config = Some items" "(i, policy) \<in> set items"
      by (auto simp: mapping_of_def bind_eq_Some_conv dest: map_of_SomeD)
    show ?thesis
    proof (cases policy)
      case (DirectType t)
      then show ?thesis using Some configured_in_scope [OF items, of "annotation t"] steps(3)
        by (auto simp: configured_annotation_def in_scope_def protected_names_def)
    next
      case (GeneratedWrapper name t)
      with Some have "mapping_of config i = Some (GeneratedWrapper name t)" by (simp only: GeneratedWrapper)
      then have "(name, t) \<in> set policies" by (rule used_wrapper_listed [OF steps(1) _ assms(2)])
      then have "name \<in> set (map fst policies)" by force
      also have "map fst policies = wrapper_names n" by (rule allocate_wrappers_fresh [OF steps(2), THEN conjunct1, symmetric])
      finally show ?thesis using Some GeneratedWrapper by (simp add: protected_names_def)
    qed (use Some in simp)
  qed simp
qed

section \<open>The parts of a module\<close>

definition part_in_scope :: "string set \<Rightarrow> python_import set \<Rightarrow> module_part \<Rightarrow> bool" where
  "part_in_scope N I p \<longleftrightarrow> list_all (in_scope N I) (part_expressions p) \<and> part_imports p \<subseteq> I"

lemma list_all2_source: "list_all2 P xs ys \<Longrightarrow> y \<in> set ys \<Longrightarrow> \<exists>x \<in> set xs. P x y"
  by (induction rule: list_all2_induct) auto

lemma row_decoder_in_scope:
  assumes "base_scope N I" "type_in_scope N I r" "row_decoder field r = Inr (Some e)"
  shows "in_scope N I e"
  using assms relq_name_in_scope [OF assms(1)]
  by (auto simp: row_decoder_def type_in_scope_def and_then_ok split: option.splits if_splits)

lemma resolved_imports_in_scope: "type_in_scope N I r \<Longrightarrow> resolved_imports r \<subseteq> I"
  by (auto simp: type_in_scope_def resolved_imports_def in_scope_def option.pred_set)

lemma table_part_in_scope:
  assumes "base_scope N I" "snd ` set enums \<subseteq> N" "table_part enums config d (table, t) = Inr part"
    "\<And>field. field \<in> set (table_columns table) \<Longrightarrow> policy_scope N I (mapping_of config (mapping_identity (column_type field)))"
    "{\<lparr>import_module = ''dataclasses'', import_names = [''dataclass'']\<rparr>, from_relq [''row_adapter'']} \<subseteq> I"
  shows "part_in_scope N I part"
proof -
  obtain types decoders where parts:
    "list_all2 (\<lambda>field r. resolve_type (column_type field) enums config d = Inr r) (table_columns table) types"
    "list_all2 (\<lambda>x dec. row_decoder (fst x) (snd x) = Inr dec) (zip (table_columns table) types) decoders"
    "part_imports part = \<Union> (resolved_imports ` set types)
       \<union> {\<lparr>import_module = ''dataclasses'', import_names = [''dataclass'']\<rparr>, from_relq [''row_adapter'']}
       \<union> \<Union> (imports_of ` set (present decoders))"
    "part_expressions part = map resolved_annotation types @ present decoders"
    using assms(3) by (auto simp: table_part_def and_then_ok map_results_ok Let_def case_prod_beta)
  have types: "type_in_scope N I r" if "r \<in> set types" for r
  proof -
    obtain field where "field \<in> set (table_columns table)" "resolve_type (column_type field) enums config d = Inr r"
      using list_all2_source [OF parts(1) \<open>r \<in> set types\<close>] by blast
    then show ?thesis using resolve_type_in_scope [OF assms(1,4,2)] by (auto simp: resolves_in_scope_def)
  qed
  have "in_scope N I e" if e: "e \<in> set (present decoders)" for e
  proof -
    from e have "Some e \<in> set decoders" by (auto simp: present_def List.map_filter_def)
    then obtain field r where "r \<in> set types" "row_decoder field r = Inr (Some e)"
      using list_all2_source [OF parts(2)] by (metis prod.collapse set_zip_rightD)
    then show ?thesis using row_decoder_in_scope [OF assms(1) types] by blast
  qed
  then have "list_all (in_scope N I) (map resolved_annotation types @ present decoders)"
    "\<Union> (imports_of ` set (present decoders)) \<subseteq> I"
    using types by (auto simp: list_all_iff type_in_scope_def) (auto simp: in_scope_def)
  moreover have "\<Union> (resolved_imports ` set types) \<subseteq> I" using resolved_imports_in_scope [OF types] by blast
  ultimately show ?thesis using assms(5) unfolding part_in_scope_def parts by simp
qed

lemma policy_part_in_scope:
  assumes "used_wrapper_policies tables config = Inr policies" "p \<in> set policies" "reserved n = reserved_for config"
  shows "part_in_scope (protected_names n) (safe_imports config) (policy_part p)"
proof -
  obtain name t where p: "p = (name, t)" by (cases p)
  obtain items i where items: "config = Some items" "(i, GeneratedWrapper name t) \<in> set items"
    using used_wrapper_configured [OF assms(1)] assms(2) p by blast
  have "bound_names \<lparr>import_module = ''typing'', import_names = [''NewType'']\<rparr> \<subseteq> reserved_names"
    using module_names_reserved unfolding module_bound_names by (simp add: bound_names_def)
  then show ?thesis
    using configured_in_scope [OF items, of "annotation t"] reserved_names_kept [of config] p assms(3)
    by (auto simp: part_in_scope_def policy_part_def in_scope_def configured_annotation_def protected_names_def safe_imports_def)
qed

text \<open>Every import the renderer adds binds names that \<open>_MODULE_IMPORTS\<close> binds.\<close>

lemma renderer_imports_safe:
  "base_imports \<union> {import_only ''enum'', \<lparr>import_module = ''dataclasses'', import_names = [''dataclass'']\<rparr>,
     from_relq [''row_adapter'']} \<subseteq> safe_imports config"
proof -
  have "\<Union> (bound_names ` (base_imports \<union> {import_only ''enum'', \<lparr>import_module = ''dataclasses'', import_names = [''dataclass'']\<rparr>,
     from_relq [''row_adapter'']})) \<subseteq> \<Union> (bound_names ` module_imports)"
    unfolding module_bound_names base_imports_def image_Un image_insert image_empty Union_insert Union_empty Union_Un_distrib
    by (simp add: bound_names_def from_relq_def import_only_def)
  also have "\<dots> \<subseteq> reserved_for config" using module_names_reserved reserved_names_kept by (rule subset_trans)
  finally show ?thesis by (auto simp: safe_imports_def)
qed

lemma keyed_values: "distinct (map fst xs) \<Longrightarrow> (\<lambda>k. the (map_of xs k)) ` fst ` set xs = snd ` set xs"
  unfolding image_image by (rule image_cong) auto

section \<open>The checks of the renderer\<close>

lemma exported_by_policies: "concat (map part_exports (map policy_part policies)) = map fst policies"
  by (induction policies) (simp_all add: policy_part_def)

lemma exported_by_enums:
  "concat (map part_exports (map (enum_part n) enums)) = map (\<lambda>e. the (map_of (enum_names n) (enum_identity e))) enums"
  by (induction enums) (simp_all add: enum_part_def Let_def)

lemma exported_by_parts:
  assumes plan: "plan tables enums config = Inr n" and parts: "module_parts tables enums config d n = Inr parts"
  shows "exported_names parts = map (\<lambda>e. the (map_of (enum_names n) (enum_identity e))) enums @ wrapper_names n
    @ concat (map bound_by_table (tables_names n))"
proof -
  obtain names taken policies taken' m where steps: "used_wrapper_policies tables config = Inr policies"
    "allocate_wrappers policies taken = Inr (wrapper_names n, taken')"
    "tables_names n = allocate_tables (protected_names m) tables taken'"
    by (rule plan_steps [OF plan])
  obtain ps where ps: "map_results (table_part (enum_names n) config d) (zip tables (tables_names n)) = Inr ps"
    "parts = map (enum_part n) enums @ map policy_part policies @ ps"
    using parts steps(1) by (auto simp: module_parts_def and_then_ok)
  have one: "table_part (enum_names n) config d (table, t) = Inr p \<Longrightarrow> part_exports p = bound_by_table t" for table t p
    by (auto simp: table_part_def and_then_ok Let_def bound_by_table_def)
  have "list_all2 (\<lambda>x p. table_part (enum_names n) config d x = Inr p) (zip tables (tables_names n)) ps"
    using ps(1) by (simp add: map_results_ok)
  then have "map part_exports ps = map (bound_by_table \<circ> snd) (zip tables (tables_names n))"
    by (induction rule: list_all2_induct) (auto simp: one)
  also have "\<dots> = map bound_by_table (tables_names n)"
    using allocate_tables_shape [of "protected_names m" tables taken'] steps(3)
    unfolding map_map [symmetric] by (simp add: map_snd_zip)
  finally have tables: "concat (map part_exports ps) = concat (map bound_by_table (tables_names n))" by simp
  have "map fst policies = wrapper_names n" by (rule allocate_wrappers_fresh [OF steps(2), THEN conjunct1, symmetric])
  then show ?thesis
    unfolding ps(2) exported_names_def map_append concat_append tables exported_by_enums exported_by_policies by (simp only:)
qed

text \<open>
  C37.  The renderer's checks of its own output pass: once the names are planned and the types of the columns resolve, the
  renderer returns the module, with no name referred to that the naming pass does not keep and none bound that the
  module imports; the module exports exactly the names planned for it.
\<close>

theorem render_checks_pass:
  assumes plan: "plan tables enums config = Inr n" and parts: "module_parts tables enums config d n = Inr parts"
  shows "render_module stdlib tables d enums config = Inr (module_text stdlib parts)
    \<and> set (exported_names parts) = set (module_names n)"
proof -
  let ?N = "protected_names n" and ?I = "safe_imports config"
  obtain names taken policies taken' m where steps:
    "allocate_all (map (enum_stem enums) (enum_identities enums)) (sorted_names (reserved_for config)) = (names, taken)"
    "used_wrapper_policies tables config = Inr policies" "enum_names n = zip (enum_identities enums) names"
    "reserved n = reserved_for config"
    by (rule plan_steps [OF plan])
  obtain ps where ps: "list_all2 (\<lambda>x p. table_part (enum_names n) config d x = Inr p) (zip tables (tables_names n)) ps"
    "parts = map (enum_part n) enums @ map policy_part policies @ ps"
    using parts steps(2) by (auto simp: module_parts_def and_then_ok map_results_ok)
  have base: "base_scope ?N ?I" by (rule plan_base_scope [OF steps(4)])
  have "part_in_scope ?N ?I p" if p: "p \<in> set ps" for p
  proof -
    obtain table t where t: "(table, t) \<in> set (zip tables (tables_names n))" "table_part (enum_names n) config d (table, t) = Inr p"
      using list_all2_source [OF ps(1) p] by force
    have "mapping_identity (column_type field) \<in> used_identities tables" if "field \<in> set (table_columns table)" for field
      using that set_zip_leftD [OF t(1)] by (auto simp: used_identities_def)
    then show ?thesis using table_part_in_scope [OF base _ t(2)] plan_policy_scope [OF plan] renderer_imports_safe [of config]
      by (auto simp: protected_names_def)
  qed
  moreover have "part_in_scope ?N ?I (enum_part n e)" for e
    using renderer_imports_safe [of config] by (simp add: part_in_scope_def enum_part_def Let_def)
  ultimately have scope: "\<forall>p \<in> set parts. part_in_scope ?N ?I p"
    using policy_part_in_scope [OF steps(2) _ steps(4)] unfolding ps(2) by auto
  have "distinct (map fst (enum_names n))" "fst ` set (enum_names n) = enum_identity ` set enums"
    using planned_names [OF plan] by (simp_all add: enum_identities_def first_occurrences_def flip: set_map)
  then have "set (map (\<lambda>e. the (map_of (enum_names n) (enum_identity e))) enums) = snd ` set (enum_names n)"
    using keyed_values [of "enum_names n"] unfolding set_map by (metis image_image)
  then have exported: "set (exported_names parts) = set (module_names n)"
    by (simp add: exported_by_parts [OF plan parts] module_names_def)
  have "check_names n (concat (map part_expressions parts)) = Inr ()"
    using scope by (fastforce simp: check_names_def Let_def part_in_scope_def list_all_iff in_scope_def)
  moreover have "set (exported_names parts) \<inter> \<Union> (bound_names ` needed_imports parts) = {}"
  proof -
    have "needed_imports parts \<subseteq> ?I"
      using scope renderer_imports_safe [of config] by (fastforce simp: needed_imports_def part_in_scope_def)
    then have "\<Union> (bound_names ` needed_imports parts) \<subseteq> reserved_for config" by (auto simp: safe_imports_def)
    then show ?thesis using planned_names [OF plan] exported by blast
  qed
  ultimately show ?thesis using plan parts exported by (simp add: render_module_def and_then_def)
qed

lemma column_parts: "succeeds (module_parts [column_table] [] None Postgres column_names)"
  by (simp add: column_names_def module_parts_def used_wrapper_policies_def and_then_def succeeds_def table_part_def column_table_def 
     resolve_builtin_def mapping_of_def to_lower_def lower_char_def code_def resolve_generic_def starts_with_def integer_types_def
     decoded_def builtin_name_def new_name_def valid_name_def is_identifier_def is_alpha_def python_keywords_def relq_name_def relq_names_def decoder_kinds_def
     row_decoder_def Let_def)
theorem render_checks_pass_witness:
  "\<exists>parts. render_module (\<lambda>_. True) [column_table] Postgres [] None = Inr (module_text (\<lambda>_. True) parts)
    \<and> set (exported_names parts) = set (module_names column_names)"
proof -
  obtain parts where "module_parts [column_table] [] None Postgres column_names = Inr parts"
    using column_parts by (auto simp: succeeds_def split: sum.splits)
  from render_checks_pass [OF column_plan this] show ?thesis by blast
qed

end
