(* ===== verification/Codegen_Errors.thy ===== *)
theory Codegen_Errors
  imports Codegen_Scope
begin

text \<open>
  What the renderer raises: the names it makes are identifiers, so a module either comes out or the failure is a
  \<open>CodegenError\<close> about the schema or the configuration.  The one exception is an enum whose class would be a
  keyword.
\<close>

section \<open>Names are identifiers\<close>

definition name_char :: "char \<Rightarrow> bool" where
  "name_char c \<longleftrightarrow> is_alpha c \<or> c = CHR ''_'' \<or> (48 \<le> code c \<and> code c \<le> 57) \<or> code c = 183"

lemma is_identifier_parts: "is_identifier s \<longleftrightarrow> s \<noteq> [] \<and> (is_alpha (hd s) \<or> hd s = CHR ''_'') \<and> list_all name_char s"
  by (cases s) (auto simp: is_identifier_def name_char_def list_all_iff)

lemma code_char_of: "n < 256 \<Longrightarrow> code (char_of n) = n"
  by (simp add: code_def take_bit_eq_mod)

lemma ascii_alnum_upper: "ascii_alnum c \<Longrightarrow> list_all ascii_alnum (upper_char c)"
  using code_char_of [of "code c - 32"] by (auto simp: upper_char_def ascii_alnum_def)

lemma ascii_alnum_lower: "ascii_alnum c \<Longrightarrow> ascii_alnum (lower_char c)"
  using code_char_of [of "code c + 32"] by (auto simp: lower_char_def ascii_alnum_def)

lemma words_alnum: "list_all ascii_alnum part \<Longrightarrow> list_all (list_all ascii_alnum) (words part s)"
  by (induction part s rule: words.induct) auto

lemma capitalize_alnum: "list_all ascii_alnum s \<Longrightarrow> list_all ascii_alnum (capitalize s)"
  by (auto simp: capitalize_def to_upper_def to_lower_def list_all_iff ascii_alnum_lower split: list.split)
    (use ascii_alnum_upper in \<open>auto simp: list_all_iff\<close>)

lemma class_stem_identifier: "is_identifier (class_stem name)"
proof -
  let ?stem = "concat (map capitalize (words [] name))"
  have stem: "list_all ascii_alnum ?stem"
    using words_alnum [of "[]" name] capitalize_alnum by (auto simp: list_all_iff)
  have table: "is_identifier ''Table_''" "is_identifier ''Table_Generated''" by code_simp+
  have plain: "ascii_alnum c \<Longrightarrow> name_char c" "ascii_alnum c \<Longrightarrow> \<not> is_digit c \<Longrightarrow> is_alpha c" for c
    by (auto simp: ascii_alnum_def name_char_def is_alpha_def is_digit_def)
  show ?thesis
  proof (cases "?stem = []")
    case True
    then show ?thesis using table(2) by (simp add: class_stem_def)
  next
    case False
    then show ?thesis
      using stem table(1) plain by (cases ?stem) (auto simp: class_stem_def Let_def is_identifier_parts list_all_iff)
  qed
qed

lemma nat_digits_chars: "c \<in> set (nat_digits n) \<Longrightarrow> 48 \<le> code c \<and> code c \<le> 57"
proof (induction n rule: nat_digits.induct)
  case (1 n)
  have "48 \<le> code (char_of (48 + i)) \<and> code (char_of (48 + i)) \<le> 57" if "i < 10" for i :: nat
    using that by (simp add: code_char_of)
  then show ?case using 1 by (subst (asm) nat_digits.simps) (auto split: if_splits)
qed

lemma keyword_underscore: "s \<in> python_keywords \<Longrightarrow> CHR ''_'' \<notin> set s"
  by (auto simp: python_keywords_def)

lemma form_valid:
  assumes "is_identifier stem" "stem \<notin> python_keywords"
  shows "valid_name (form ''_'' stem k)"
proof -
  have "list_all name_char (str_of_nat k)" using nat_digits_chars by (auto simp: list_all_iff name_char_def str_of_nat_def)
  then have "is_identifier (form ''_'' stem k)"
    using assms(1) by (auto simp: form_def is_identifier_parts name_char_def)
  moreover have "form ''_'' stem k \<notin> python_keywords" using assms(2) by (auto simp: form_def dest: keyword_underscore)
  ultimately show ?thesis by (simp add: valid_name_def)
qed

lemma allocate_all_valid:
  assumes "allocate_all stems taken = (names, taken')" "list_all (\<lambda>s. is_identifier s \<and> s \<notin> python_keywords) stems"
  shows "list_all valid_name names"
  using assms
proof (induction stems arbitrary: taken names taken')
  case (Cons stem stems)
  obtain k where "fst (allocate stem plain_template taken) = form ''_'' stem k"
    using allocate_from_least [of 1 "''_''" stem plain_template taken] by (auto simp: allocate_def Let_def)
  then show ?case using Cons form_valid [of stem k] by (auto split: prod.splits)
qed simp

section \<open>Only errors of the generator\<close>

definition codegen_errors_only :: "'a result \<Rightarrow> bool" where
  "codegen_errors_only m \<longleftrightarrow> (\<forall>e. m = Inl e \<longrightarrow> (\<exists>what args. e = CodegenError what args))"

lemma codegen_errors_intros [intro!]:
  "codegen_errors_only (Inr x)" "codegen_errors_only (Inl (CodegenError what args))"
  "codegen_errors_only m \<Longrightarrow> codegen_errors_only m' \<Longrightarrow> codegen_errors_only (if b then m else m')"
  "codegen_errors_only m \<Longrightarrow> (\<And>x. m = Inr x \<Longrightarrow> codegen_errors_only (f x)) \<Longrightarrow> codegen_errors_only (and_then m f)"
  by (auto simp: codegen_errors_only_def and_then_def split: sum.splits)

lemma map_results_errors:
  "(\<And>x. x \<in> set xs \<Longrightarrow> codegen_errors_only (f x)) \<Longrightarrow> codegen_errors_only (map_results f xs)"
  by (induction xs) auto

lemma relq_names_valid: "x \<in> relq_names \<Longrightarrow> valid_name x"
  unfolding relq_names_def decoder_kinds_def
  by (auto simp: valid_name_def is_identifier_def is_alpha_def code_def python_keywords_def)

lemma succeeding_errors: "succeeds m \<Longrightarrow> codegen_errors_only m"
  by (auto simp: codegen_errors_only_def succeeds_def)

lemma fixed_names:
  "codegen_errors_only (builtin_name ''int'')" "codegen_errors_only (builtin_name ''str'')" "codegen_errors_only (builtin_name ''bool'')"
  "codegen_errors_only (builtin_name ''bytes'')" "codegen_errors_only (builtin_name ''float'')" "codegen_errors_only (builtin_name ''list'')"
  "codegen_errors_only (module_attribute ''uuid'' ''UUID'')" "codegen_errors_only (module_attribute ''decimal'' ''Decimal'')"
  "codegen_errors_only (module_attribute ''datetime'' ''datetime'')" "codegen_errors_only (module_attribute ''datetime'' ''date'')"
  "codegen_errors_only (module_attribute ''datetime'' ''time'')"
  by (rule succeeding_errors, code_simp)+

lemma relq_name_errors: "x \<in> relq_names \<Longrightarrow> codegen_errors_only (relq_name x)"
  using relq_names_valid [of x] by (simp add: codegen_errors_only_def relq_name_def new_name_def and_then_def)

lemma new_name_errors: "valid_name x \<Longrightarrow> codegen_errors_only (new_name x deps)"
  by (auto simp: codegen_errors_only_def new_name_def and_then_def)

lemma decoder_names:
  "kind \<in> set decoder_kinds \<Longrightarrow> kind @ ''_decoder'' \<in> relq_names"
  "''AwareDateTime'' \<in> relq_names" "''AwareTime'' \<in> relq_names" "''Inet'' \<in> relq_names" "''Interval'' \<in> relq_names"
  "''JsonValue'' \<in> relq_names" "''NaiveDateTime'' \<in> relq_names" "''NaiveTime'' \<in> relq_names"
  "''aware_datetime_decoder'' \<in> relq_names" "''aware_time_decoder'' \<in> relq_names" "''domain_decoder'' \<in> relq_names"
  "''enum_decoder'' \<in> relq_names" "''interval_decoder'' \<in> relq_names" "''list_decoder'' \<in> relq_names"
  "''naive_datetime_decoder'' \<in> relq_names" "''naive_time_decoder'' \<in> relq_names" "''nullable'' \<in> relq_names"
  "''uuid_decoder'' \<in> relq_names" "''inet_decoder'' \<in> relq_names" "''json_decoder'' \<in> relq_names" "''bool_decoder'' \<in> relq_names"
  "''int_decoder'' \<in> relq_names" "''decimal_decoder'' \<in> relq_names" "''float_decoder'' \<in> relq_names" "''bytes_decoder'' \<in> relq_names"
  "''datetime_decoder'' \<in> relq_names" "''date_decoder'' \<in> relq_names" "''time_decoder'' \<in> relq_names" "''str_decoder'' \<in> relq_names"
  by (simp_all add: relq_names_def decoder_kinds_def)

lemma decoded_errors: "codegen_errors_only a \<Longrightarrow> x \<in> relq_names \<Longrightarrow> codegen_errors_only (decoded a x)"
  unfolding decoded_def using relq_name_errors by blast

lemma resolve_generic_errors: "codegen_errors_only (resolve_generic name normalized d)"
  unfolding resolve_generic_def
  by (intro codegen_errors_intros decoded_errors fixed_names relq_name_errors decoder_names)

lemma sqlite_affinity_errors: "sqlite_affinity_type normalized = Some m \<Longrightarrow> codegen_errors_only m"
  by (auto simp: sqlite_affinity_type_def decoded_errors fixed_names decoder_names split: if_splits)

section \<open>Policies and types\<close>

text \<open>The decoder kind of a direct type is one of its \<open>Literal\<close>.\<close>

fun policy_typed :: "type_mapping \<Rightarrow> bool" where
  "policy_typed (DirectType t) \<longleftrightarrow> decoder_kind t \<in> set decoder_kinds"
| "policy_typed (GeneratedWrapper _ t) \<longleftrightarrow> decoder_kind t \<in> set decoder_kinds"
| "policy_typed (RejectedType _) \<longleftrightarrow> True"

definition config_typed :: "config option \<Rightarrow> bool" where
  "config_typed config \<longleftrightarrow> list_all (policy_typed \<circ> snd) (case config of None \<Rightarrow> [] | Some items \<Rightarrow> items)"

text \<open>A policy whose type is typed and whose wrapper has a valid name.\<close>

fun policy_valid :: "type_mapping option \<Rightarrow> bool" where
  "policy_valid (Some (GeneratedWrapper name t)) \<longleftrightarrow> valid_name name \<and> decoder_kind t \<in> set decoder_kinds"
| "policy_valid (Some (DirectType t)) \<longleftrightarrow> decoder_kind t \<in> set decoder_kinds"
| "policy_valid _ \<longleftrightarrow> True"

lemma decoder_for_direct_errors:
  "decoder_kind t \<in> set decoder_kinds \<Longrightarrow> codegen_errors_only (decoder_for_direct_type t)"
  unfolding decoder_for_direct_type_def using relq_name_errors decoder_names(1) by blast

lemma resolve_direct_errors: "decoder_kind t \<in> set decoder_kinds \<Longrightarrow> codegen_errors_only (resolve_direct t)"
  unfolding resolve_direct_def using decoder_for_direct_errors by blast

lemma resolve_wrapper_errors:
  "valid_name name \<Longrightarrow> decoder_kind t \<in> set decoder_kinds \<Longrightarrow> codegen_errors_only (resolve_wrapper name t)"
  unfolding resolve_wrapper_def
  by (intro codegen_errors_intros decoder_for_direct_errors new_name_errors relq_name_errors decoder_names)

lemma resolve_mapped_errors: "policy_valid (mapping_of config i) \<Longrightarrow> codegen_errors_only (resolve_mapped_type i config)"
  by (auto simp: resolve_mapped_type_def resolve_direct_errors resolve_wrapper_errors split: option.splits type_mapping.splits)

lemma resolve_builtin_errors:
  "policy_valid (mapping_of config \<lparr>identity_schema = None, identity_name = to_lower name\<rparr>)
    \<Longrightarrow> codegen_errors_only (resolve_builtin name config d)"
  by (auto simp: resolve_builtin_def Let_def resolve_direct_errors resolve_wrapper_errors resolve_generic_errors sqlite_affinity_errors
      split: option.splits type_mapping.splits if_splits)

lemma resolve_type_errors:
  assumes "policy_valid (mapping_of config (mapping_identity t))" "\<forall>x \<in> snd ` set enums. valid_name x"
  shows "codegen_errors_only (resolve_type t enums config d)"
  using assms
proof (induction t enums config d rule: resolve_type.induct)
  case (1 element enums config d)
  then show ?case
    using relq_name_errors [OF decoder_names(14)] fixed_names(6) by (auto split: option.split)
next
  case (2 kind i enums config d)
  have "valid_name name" if "map_of enums i = Some name" for name
    using map_of_SomeD [OF that] "2.prems"(2) by force
  then show ?case
    using "2.prems"(1) new_name_errors relq_name_errors [OF decoder_names(12)]
    by (auto simp: resolve_mapped_errors split: option.split)
next
  case (3 name enums config d)
  then show ?case by (simp add: resolve_builtin_errors)
qed

section \<open>The renderer\<close>

lemma check_wrappers_valid: "check_wrappers policies names = Inr () \<Longrightarrow> \<forall>p \<in> set policies. valid_name (fst p)"
  by (induction policies names rule: check_wrappers.induct) (auto split: if_splits)

lemma check_wrappers_errors: "codegen_errors_only (check_wrappers policies names)"
  by (induction policies names rule: check_wrappers.induct) auto

lemma used_wrapper_errors: "codegen_errors_only (used_wrapper_policies tables config)"
  by (auto simp: used_wrapper_policies_def Let_def check_wrappers_errors split: option.split)

lemma allocate_wrapper_errors: "codegen_errors_only (allocate_wrappers policies taken)"
  by (induction policies taken rule: allocate_wrappers.induct) auto

lemma plan_errors: "codegen_errors_only (plan tables enums config)"
  by (auto simp: plan_def Let_def used_wrapper_errors allocate_wrapper_errors split: prod.split)

lemma check_then: "and_then check (\<lambda>_. Inr y) = Inr z \<longleftrightarrow> check = Inr () \<and> z = y"
  by (auto simp: and_then_ok)

lemma used_wrappers_checked:
  assumes "used_wrapper_policies tables config = Inr policies"
  shows "\<exists>wrappers. check_wrappers wrappers {} = Inr () \<and> policies = sort_key fst wrappers"
proof (cases config)
  case None
  then show ?thesis using assms by (intro exI [of _ "[]"]) (simp add: used_wrapper_policies_def)
next
  case (Some items)
  then show ?thesis using assms unfolding used_wrapper_policies_def Some option.case Let_def check_then by blast
qed

lemma used_policy_valid:
  assumes "config_typed config" "used_wrapper_policies tables config = Inr policies" "i \<in> used_identities tables"
  shows "policy_valid (mapping_of config i)"
proof (cases "mapping_of config i")
  case (Some policy)
  then have "policy_typed policy"
    using assms(1) by (auto simp: mapping_of_def config_typed_def list_all_iff bind_eq_Some_conv dest!: map_of_SomeD)
  moreover have "valid_name name" if w: "policy = GeneratedWrapper name t" for name t
  proof -
    have "(name, t) \<in> set policies" by (rule used_wrapper_listed [OF assms(2) _ assms(3)]) (simp add: Some w)
    moreover have "\<forall>p \<in> set policies. valid_name (fst p)"
      using used_wrappers_checked [OF assms(2)] check_wrappers_valid by (metis set_sort)
    ultimately show ?thesis by force
  qed
  ultimately show ?thesis using Some by (cases policy) auto
qed simp

lemma row_decoder_errors: "codegen_errors_only (row_decoder field r)"
  using relq_name_errors [OF decoder_names(17)] by (auto simp: row_decoder_def split: option.split)

lemma table_part_errors:
  assumes "\<And>field. field \<in> set (table_columns table) \<Longrightarrow> codegen_errors_only (resolve_type (column_type field) enums config d)"
  shows "codegen_errors_only (table_part enums config d (table, t))"
  using assms unfolding table_part_def prod.case Let_def
  by (intro codegen_errors_intros map_results_errors) (auto simp: row_decoder_errors)

lemma planned_enum_names_valid:
  assumes plan: "plan tables enums config = Inr n"
    and stems: "\<forall>e \<in> set enums. enum_stem enums (enum_identity e) \<notin> python_keywords"
  shows "\<forall>x \<in> snd ` set (enum_names n). valid_name x"
proof -
  obtain names taken policies taken' m where steps:
    "allocate_all (map (enum_stem enums) (enum_identities enums)) (sorted_names (reserved_for config)) = (names, taken)"
    "enum_names n = zip (enum_identities enums) names"
    by (rule plan_steps [OF plan])
  have "set (enum_identities enums) = enum_identity ` set enums" by (simp add: enum_identities_def first_occurrences_def)
  then have "list_all (\<lambda>s. is_identifier s \<and> s \<notin> python_keywords) (map (enum_stem enums) (enum_identities enums))"
    using stems class_stem_identifier by (auto simp: list_all_iff enum_stem_def)
  from allocate_all_valid [OF steps(1) this] show ?thesis
    by (auto simp: steps(2) list_all_iff dest: set_zip_rightD)
qed

text \<open>
  C38.  The renderer returns a module or raises a \<open>CodegenError\<close>, never one of the \<open>ValueError\<close>s that guard its own
  work, for every schema and configuration of which no enum would get a Python keyword as its class name.
\<close>

theorem render_raises_codegen_errors:
  assumes config: "config_typed config"
    and stems: "\<forall>e \<in> set enums. enum_stem enums (enum_identity e) \<notin> python_keywords"
  shows "case render_module stdlib tables d enums config of Inr _ \<Rightarrow> True | Inl e \<Rightarrow> \<exists>what args. e = CodegenError what args"
proof -
  have "codegen_errors_only (module_parts tables enums config d n)" if plan: "plan tables enums config = Inr n" for n
  proof -
    have "codegen_errors_only (table_part (enum_names n) config d x)"
      if x: "x \<in> set (zip tables (tables_names n))" and policies: "used_wrapper_policies tables config = Inr policies" for x policies
    proof -
      obtain table t where t: "x = (table, t)" "table \<in> set tables" using x by (metis prod.exhaust set_zip_leftD)
      have "mapping_identity (column_type field) \<in> used_identities tables" if "field \<in> set (table_columns table)" for field
        using that t(2) by (auto simp: used_identities_def)
      then show ?thesis
        using resolve_type_errors [OF used_policy_valid [OF config policies] planned_enum_names_valid [OF plan stems]]
        unfolding t(1) by (intro table_part_errors) blast
    qed
    then show ?thesis unfolding module_parts_def
      by (intro codegen_errors_intros used_wrapper_errors map_results_errors) blast
  qed
  moreover have "\<exists>what args. e = CodegenError what args"
    if "plan tables enums config = Inr n" "module_parts tables enums config d n = Inl e \<Longrightarrow> \<exists>what args. e = CodegenError what args"
      "render_module stdlib tables d enums config = Inl e" for n e
    using that render_checks_pass [OF that(1), of d _ stdlib]
    by (cases "module_parts tables enums config d n") (simp_all add: render_module_def and_then_def)
  ultimately have "codegen_errors_only (render_module stdlib tables d enums config)"
  proof (cases "plan tables enums config")
    case (Inl e)
    then have "render_module stdlib tables d enums config = Inl e" by (simp add: render_module_def and_then_def)
    then show ?thesis using plan_errors [of tables enums config] Inl by (simp add: codegen_errors_only_def)
  qed (auto simp: codegen_errors_only_def)
  then show ?thesis by (auto simp: codegen_errors_only_def split: sum.split)
qed

theorem render_raises_codegen_errors_witness:
  "case render_module (\<lambda>_. True) [\<lparr>table_title = ''t'', table_columns = [\<lparr>column_name = ''c'', column_type = BuiltinType ''money'',
      nullable = False, primary_key = False, has_default = False, identity = False, generated = False\<rparr>], table_schema = None\<rparr>]
      Postgres [] (Some [(\<lparr>identity_schema = None, identity_name = ''money''\<rparr>, RejectedType ''a currency'')])
    of Inr _ \<Rightarrow> True | Inl e \<Rightarrow> \<exists>what args. e = CodegenError what args"
  by (rule render_raises_codegen_errors) (simp_all add: config_typed_def)

text \<open>
  The condition is needed: the class of an enum called \<open>none\<close> would be the keyword \<open>None\<close>, and a column of that
  type makes the renderer raise the \<open>ValueError\<close> of a name that is no identifier.
\<close>

theorem keyword_enum_class:
  "class_stem ''none'' = ''None'' \<and> resolve_type (NamedType EnumKind i) [(i, ''None'')] config d
     = Inl (ValueError ''generated name must be an identifier'' [''None''])"
proof -
  have "class_stem ''none'' = ''None''" by code_simp
  then show ?thesis by (simp add: new_name_def and_then_def valid_name_def python_keywords_def)
qed

text \<open>
  Two more names that the renderer lets through: a column called \<open>__secret\<close> keeps that attribute, which Python mangles
  in a class body, and a superscript digit, which \<open>\W\<close> does not match, stays in a name that is then no identifier.
\<close>

theorem attributes_kept_unsafe:
  "identifier_of ''__secret'' = ''__secret'' \<and> identifier_of [CHR ''a'', CHR 0xB2] = [CHR ''a'', CHR 0xB2]
    \<and> \<not> is_identifier [CHR ''a'', CHR 0xB2]"
  by code_simp

end
