(* ===== verification/Codegen_Literals.thy ===== *)
theory Codegen_Literals
  imports Codegen_Model Quoting
begin

text \<open>
  What Python reads of the text literals a generated module holds: column names, table names, schemas, enum labels and
  the names of the export list are all written with \<open>repr\<close>.
\<close>

section \<open>Python's text literals\<close>

definition hex_value :: "char \<Rightarrow> nat option" where
  "hex_value c = (if 48 \<le> code c \<and> code c \<le> 57 then Some (code c - 48)
     else if 97 \<le> code c \<and> code c \<le> 102 then Some (code c - 87) else None)"

definition simple_escape :: "char \<Rightarrow> char option" where
  "simple_escape c = (if c = CHR 0x5C \<or> c = CHR 0x22 \<or> c = CHR 0x27 then Some c
     else if c = CHR ''n'' then Some (CHR 0x0A) else if c = CHR ''t'' then Some (CHR 0x09)
     else if c = CHR ''r'' then Some (CHR 0x0D) else None)"

text \<open>
  The body of a one-line literal and the text behind it, with the escapes of one letter and of two lower-case hexadecimal
  digits; other escapes, which \<open>repr\<close> does not write for these characters, are not read.
\<close>

fun read_python :: "char \<Rightarrow> string \<Rightarrow> (string \<times> string) option" where
  "read_python q [] = None"
| "read_python q (c # s) =
     (if c = q then Some ([], s)
      else if c = CHR 0x0A \<or> c = CHR 0x0D then None
      else if c \<noteq> CHR 0x5C then map_option (apfst ((#) c)) (read_python q s)
      else (case s of
          CHR ''x'' # high # low # t \<Rightarrow> (case (hex_value high, hex_value low) of
              (Some h, Some l) \<Rightarrow> map_option (apfst ((#) (char_of (16 * h + l)))) (read_python q t) | _ \<Rightarrow> None)
        | e # t \<Rightarrow> (case simple_escape e of Some x \<Rightarrow> map_option (apfst ((#) x)) (read_python q t) | None \<Rightarrow> None)
        | [] \<Rightarrow> None))"

text \<open>Three quotes open a literal of many lines.\<close>

definition read_literal :: "string \<Rightarrow> (string \<times> string) option" where
  "read_literal s = (case s of [] \<Rightarrow> None
     | q # body \<Rightarrow> if q \<noteq> CHR 0x22 \<and> q \<noteq> CHR 0x27 then None else if take 2 body = [q, q] then None else read_python q body)"

section \<open>Reading a written literal\<close>

lemma hex_digits: "n < 256 \<Longrightarrow> hex_value (hex_digit (n div 16)) = Some (n div 16) \<and> hex_value (hex_digit (n mod 16)) = Some (n mod 16)"
proof -
  have one: "hex_value (hex_digit k) = Some k" if "k < 16" for k
    using that by (simp add: hex_value_def hex_digit_def code_def take_bit_eq_mod)
  show "n < 256 \<Longrightarrow> ?thesis" using one [of "n div 16"] one [of "n mod 16"] by simp
qed

lemma reads_repr_char:
  assumes q: "q = CHR 0x22 \<or> q = CHR 0x27"
  shows "read_python q (repr_char q c @ s) = map_option (apfst ((#) c)) (read_python q s)"
proof -
  have char: "char_of (16 * (code c div 16) + code c mod 16) = c" by (simp add: code_def)
  have same: "c = d \<longleftrightarrow> code c = code d" for d by (simp add: code_def)
  have codes: "code (CHR 0x09) = 9" "code (CHR 0x0A) = 10" "code (CHR 0x0D) = 13" by (simp_all add: code_def)
  have control: "c = CHR 0x09 \<longleftrightarrow> code c = 9" "c = CHR 0x0A \<longleftrightarrow> code c = 10" "c = CHR 0x0D \<longleftrightarrow> code c = 13"
    using same [of "CHR 0x09"] same [of "CHR 0x0A"] same [of "CHR 0x0D"] codes by simp_all
  have "code c < 256" by (simp add: code_def)
  note hex = hex_digits [OF this]
  consider "c = q \<or> c = CHR 0x5C" | "c \<noteq> q" "c \<noteq> CHR 0x5C" "code c \<in> {9, 10, 13}"
    | "c \<noteq> q" "c \<noteq> CHR 0x5C" "code c \<notin> {9, 10, 13}" "code c < 32 \<or> (127 \<le> code c \<and> code c \<le> 160) \<or> code c = 173"
    | "c \<noteq> q" "c \<noteq> CHR 0x5C" "code c \<notin> {9, 10, 13}" "\<not> (code c < 32 \<or> (127 \<le> code c \<and> code c \<le> 160) \<or> code c = 173)"
    by blast
  then show ?thesis
  proof cases
    case 1
    then show ?thesis using q by (auto simp: repr_char_def simple_escape_def)
  next
    case 2
    then have "c = CHR 0x09 \<or> c = CHR 0x0A \<or> c = CHR 0x0D" unfolding control by simp
    then show ?thesis using q by (elim disjE) (simp_all add: repr_char_def simple_escape_def codes)
  next
    case 3
    then show ?thesis using q hex char by (auto simp: repr_char_def)
  next
    case 4
    then have "c \<noteq> CHR 0x0A" "c \<noteq> CHR 0x0D" unfolding control by simp_all
    then show ?thesis using 4 by (auto simp: repr_char_def)
  qed
qed

interpretation single_repr: quoted_text "repr_char (CHR 0x27)" "CHR 0x27" "read_python (CHR 0x27)"
  by unfold_locales (simp_all add: reads_repr_char)

interpretation double_repr: quoted_text "repr_char (CHR 0x22)" "CHR 0x22" "read_python (CHR 0x22)"
  by unfold_locales (simp_all add: reads_repr_char)

lemma repr_quote_cases: "repr_quote s = CHR 0x22 \<or> repr_quote s = CHR 0x27"
  by (simp add: repr_quote_def)

lemma repr_char_head: "q = CHR 0x22 \<or> q = CHR 0x27 \<Longrightarrow> \<exists>d t. repr_char q c = d # t \<and> d \<noteq> q"
  by (auto simp: repr_char_def)

lemma body_not_triple:
  assumes q: "q = CHR 0x22 \<or> q = CHR 0x27" and rest: "take 1 rest \<noteq> [q]"
  shows "take 2 (concat (map (repr_char q) s) @ q # rest) \<noteq> [q, q]"
proof (cases s)
  case Nil
  then show ?thesis using rest by (cases rest) auto
next
  case (Cons c cs)
  obtain d t where "repr_char q c = d # t" "d \<noteq> q" using repr_char_head [OF q] by blast
  then show ?thesis using Cons by (simp add: take_Cons')
qed

text \<open>
  C39.  A text literal of a generated module is read back exactly: Python reads from \<open>repr\<close> of a name or a label the
  string itself and goes on behind it, whatever follows short of another quote.
\<close>

theorem python_literal_reads_back:
  assumes "take 1 rest \<noteq> [CHR 0x22]" "take 1 rest \<noteq> [CHR 0x27]"
  shows "read_literal (py_repr s @ rest) = Some (s, rest)"
proof -
  let ?q = "repr_quote s"
  have "read_python ?q (concat (map (repr_char ?q) s) @ ?q # rest) = Some (s, rest)"
    using repr_quote_cases [of s] double_repr.reads_back [OF assms(1), of s] single_repr.reads_back [OF assms(2), of s] by auto
  moreover have "take 1 rest \<noteq> [?q]" using repr_quote_cases [of s] assms by auto
  then have "take 2 (concat (map (repr_char ?q) s) @ ?q # rest) \<noteq> [?q, ?q]"
    by (rule body_not_triple [OF repr_quote_cases])
  ultimately show ?thesis
    using repr_quote_cases [of s] by (auto simp: py_repr_def read_literal_def)
qed

theorem python_literal_reads_back_witness:
  "read_literal (py_repr [CHR ''i'', CHR 0x27, CHR 0x5C, CHR 0x0A] @ '': int'') = Some ([CHR ''i'', CHR 0x27, CHR 0x5C, CHR 0x0A], '': int'')"
  by (rule python_literal_reads_back) simp_all

end
