(* ===== verification/Spec2Isabelle.thy ===== *)
theory Spec2Isabelle
  imports Divergences Sqlite_Laws Quoting Sqlite_Migrator_Laws Postgres_History Postgres_Registry_Laws Codegen_Errors Codegen_Literals
begin

text \<open>
  A model of relq, a typed SQL query builder for Python, of what its builders, its compiler and its
  executors promise, and of the places where they do not keep the promise.

  \<^bold>\<open>The program.\<close>  A program declares relations (\<open>expressions/relations.py\<close>), builds expressions
  (\<open>expressions/core.py\<close>, \<open>analytics.py\<close>, \<open>ordering.py\<close>, \<open>postgres.py\<close>) and statements (\<open>query.py\<close>,
  \<open>dml.py\<close>) with them; every builder method returns a new immutable query object around a syntax
  tree (\<open>_ast.py\<close>).  The compiler (\<open>_compiler/api.py\<close>) validates the tree for one of two dialects
  (\<open>_compiler/validation.py\<close>, \<open>grouping.py\<close>, on the analyses of \<open>_analysis/\<close>) and renders it to SQL
  text and a list of bound parameters (\<open>_compiler/_render.py\<close>).  Executors send the text to a
  database; \<open>_batching.py\<close> splits bulk inserts to fit the dialect's parameter limit.  Paths are
  below \<open>src/packages/relq-core/src/relq/\<close>.

  \<^bold>\<open>How the model corresponds to the code.\<close>  Python objects the code only builds are values of
  datatypes with the constructors and fields of the dataclasses; a method is a function that takes
  \<open>self\<close> first.  A function that can raise returns \<open>'a result\<close> (\<open>Inl\<close> the exception, \<open>Inr\<close> the
  value), and its checks are in the order in which the code makes them; an exception keeps its class,
  the literal part of its message and the strings it interpolates.  The list of parameters that the
  renderer mutates is threaded through it.  Python integers are \<open>int\<close>; floats occur in one place
  (window frames) and are computed there with their rounding.  Bound values are the type parameter of
  the syntax tree, so that statements about "whatever the values are" are maps over it.

  \<^bold>\<open>Theories.\<close>
  \<^item> \<open>Prelude\<close>: exceptions, results, Python values and equality, string joining.
  \<^item> \<open>Ast\<close>, \<open>Walk\<close>, \<open>Scopes\<close>: the tree, \<open>children\<close>/\<open>walk\<close> (\<open>_analysis/walk.py\<close>), the enumeration of
    nested queries with the CTE names in scope, CTE references and outer-join nullability
    (\<open>_analysis/scopes.py\<close>, \<open>ctes.py\<close>, \<open>nullability.py\<close>).  \<open>null_extended_sources_exact\<close> compares the
    last with a reference semantics of joins: the answer is exact, in both directions.
  \<^item> \<open>Dialect\<close>, \<open>Render\<close>: the dialect record and the renderer.  \<open>Render\<close> is one mutual recursion over
    statements and expressions, with a measure on their sizes for termination.
  \<^item> \<open>Grouping\<close>, \<open>Validation\<close>, \<open>Checked\<close>, \<open>Accepted\<close>: the checks, what an accepted statement looks
    like node by node, and what that means: grouped expressions have one value per group whatever
    the operators compute, NULLs come only from where outer joins allow them, locked rows exist, changes
    are bounded, WITH clauses are where and what they may be.
  \<^item> \<open>Render_Laws\<close>, \<open>Compiler\<close>: rendering a validated statement raises only \<open>ValueError\<close>, and its text
    does not depend on the bound values; the composition \<open>_compile\<close> never asserts and respects the
    parameter limit.
  \<^item> \<open>Expressions\<close>, \<open>Temporal\<close>, \<open>Windows\<close>, \<open>Relations\<close>, \<open>Built\<close>: the expression builders and the
    inductive set of everything they can build, with its closed vocabulary (the injection-safety
    argument) and the totality of predicates in three-valued logic.
  \<^item> \<open>Select_Builder\<close>, \<open>Dml_Builder\<close>: the statement builders; invariants of all statements they can
    build, by rule induction over the calls.
  \<^item> \<open>Batching\<close>: \<open>batch_rows\<close> over an arbitrary statement callback.  The callback's contract is the locale
    \<open>statement_cost\<close>, interpreted on the library's own INSERT chains; the batches are the greedy ones.
  \<^item> \<open>Rows\<close> (\<open>rows.py\<close>): decoders and row adapters; what a decoder returns has the type it declares, and
    an adapter's answer is characterised on every row, errors included.
  \<^item> \<open>Execution\<close>, \<open>Triples\<close> (\<open>_execution.py\<close>): what the executors share.  Their methods are actions on the
    state of the process that return a value or an exception with the state reached, since Python keeps
    the effects of a method that raises; \<open>wp\<close> specifies an action by its normal and its exceptional end.
  \<^item> \<open>Sqlite\<close>, \<open>Sqlite_Registry\<close>, \<open>Sqlite_Actions\<close>, \<open>Sqlite_Operations\<close>, \<open>Sqlite_Laws\<close>
    (\<open>relq-sqlite/src/relq_sqlite/__init__.py\<close>): the executor on one connection, with the registry of its open
    transactions and savepoints; the registry's invariant under invalidation; the documented savepoint
    semantics of SQLite (\<open>savepoint_driver\<close>, the one assumption about the driver) and the relation
    \<open>mirrors\<close> between the registry and the connection; one specification per operation; the reachable
    states of a program and the theorems about them.
  \<^item> \<open>Quoting\<close>: the readers by which databases take quoted text apart, a locale for encodings that they
    undo, and its interpretations on the library's identifiers, literals, constants and savepoint names.
  \<^item> \<open>Python_Text\<close>, \<open>Migrations\<close>, \<open>Migration_Laws\<close> (\<open>relq_migrate/_model.py\<close>, \<open>provider.py\<close>): string methods
    on Latin-1 text; migration files, the recorded history and what is pending, characterised exactly.
  \<^item> \<open>Statements\<close>, \<open>Statement_Laws\<close> (\<open>relq_migrate/postgres.py\<close> from line 281): the splitter of PostgreSQL scripts as
    a scanner with an explicit state, recursive on the rest of the script, which every round shortens.  Nothing is
    lost, and splitting again behind each statement, which the migrator does, is splitting once.
  \<^item> \<open>Sqlite_Migrator\<close>, \<open>Postgres_Migrator\<close> (\<open>relq_migrate/sqlite.py\<close>, \<open>postgres.py\<close>): the two migrators as
    actions on the environment of their connection, with the advisory lock and its key on 32-bit words.
    \<open>History_Table\<close> states what they need of a database that keeps a history and proves the loop over
    the pending migrations once; \<open>Sqlite_Migrator_Laws\<close>, \<open>Postgres_Migrator_Laws\<close> and \<open>Postgres_History\<close>
    show what a run leaves and reports, that the lock is given back, and which statements are run.
  \<^item> \<open>Postgres_Executor\<close>, \<open>Postgres_Queries\<close> (\<open>relq-postgres/src/relq_postgres/__init__.py\<close>): the executor on
    pools and connections; its objects are numbered and live in one state beside the environment of asyncpg.
    \<open>Frames\<close> holds the relations that every step of a method follows, as a locale; \<open>Postgres_Pool_Laws\<close> keeps the
    books of the pools and \<open>Postgres_Registry_Laws\<close> the registries of open handles through every call of a program.
  \<^item> \<open>Codegen_Model\<close>, \<open>Codegen_Names\<close>, \<open>Codegen_Render\<close> (\<open>relq_codegen/model.py\<close>, \<open>mapping.py\<close>, \<open>render.py\<close>): the
    code generator: expressions with the names and imports they need, the mapping of database types to
    annotations and decoders, the allocation of names and the lines of the generated module.  A search for a
    free name recurses on the attempt, with the number of blocked forms still ahead as its measure.
    \<open>Codegen_Laws\<close>, \<open>Codegen_Scope\<close>, \<open>Codegen_Errors\<close> and \<open>Codegen_Literals\<close> show that names are distinct
    and hide nothing, that every expression stays in the planned scope, which errors are raised and that Python
    reads literals back.
  \<^item> \<open>Divergences\<close>: statements, evaluated with the model, on which the code departs from its
    documentation or its evident intent.

  \<^bold>\<open>Bounds and termination.\<close>  Nothing uses fuel: every recursion of the code is a terminating function
  here, so the recursion on statements cannot loop.  Python's recursion limit is not modelled.

  \<^bold>\<open>Hypotheses.\<close>  Where a theorem is about data or operators that only the database knows (joined rows,
  the value of an operator, a driver), these are variables of the theorem; every theorem with a
  hypothesis has a witness on a concrete statement.

  \<^bold>\<open>Not modelled.\<close>  Construction tokens, weak registries and frozen guards (\<open>_query.py\<close>,
  \<open>_node_value.py\<close>, \<open>_frozen.py\<close>): they keep user code from forging or changing values, which cannot be
  expressed about HOL values.  Static typing: overloads and generic parameters.  The text formats of Python's standard library, sqlite3, asyncpg, clocks and observers are parameters.
  The code generator's catalog queries and configuration files and the command lines are not modelled.
\<close>

end
